theory Spec2Isabelle
  imports Complex_Main "HOL-Library.Sublist"
begin

section \<open>Strings\<close>

text \<open>
  A JavaScript string is modelled as a HOL \<open>string\<close>: one \<open>char\<close> stands for one code
  unit, so \<open>length\<close> is \<open>.length\<close>, \<open>take n\<close> is \<open>.slice(0, n)\<close> for a non-negative
  \<open>n\<close>, and \<open>@\<close> is concatenation. Input text is taken to lie in Latin-1; the three
  emoji of the reminder's literal text are written as their UTF-8 bytes (no length is
  ever taken of that text).
\<close>

definition LF :: char where
  "LF = CHR 0x0A"

definition CR :: char where
  "CR = CHR 0x0D"

text \<open>The white space that \<open>String.prototype.trim\<close> strips, as far as it lies in Latin-1.\<close>

definition js_whitespace :: "char \<Rightarrow> bool" where
  "js_whitespace c \<longleftrightarrow>
     c = CHR 0x09 \<or> c = CHR 0x0A \<or> c = CHR 0x0B \<or> c = CHR 0x0C \<or> c = CHR 0x0D
     \<or> c = CHR 0x20 \<or> c = CHR 0xA0"

definition js_trim :: "string \<Rightarrow> string" where
  "js_trim s = rev (dropWhile js_whitespace (rev (dropWhile js_whitespace s)))"

text \<open>\<open>s.includes(m)\<close>: \<open>m\<close> occurs in \<open>s\<close> as a contiguous substring.\<close>

fun js_includes :: "string \<Rightarrow> string \<Rightarrow> bool" where
  "js_includes [] m = (m = [])"
| "js_includes (c # s) m = (prefix m (c # s) \<or> js_includes s m)"

text \<open>\<open>s.endsWith(m)\<close>.\<close>

definition js_endsWith :: "string \<Rightarrow> string \<Rightarrow> bool" where
  "js_endsWith s m = suffix m s"

text \<open>\<open>xs.join(sep)\<close>.\<close>

fun js_join :: "string \<Rightarrow> string list \<Rightarrow> string" where
  "js_join sep [] = []"
| "js_join sep [x] = x"
| "js_join sep (x # y # ys) = x @ sep @ js_join sep (y # ys)"

text \<open>
  \<open>text.split(/\r?\n/)\<close>: the separator is a line feed, together with the carriage return
  right before it when there is one. A carriage return that no line feed follows is an
  ordinary character of its piece. The empty string gives the one empty piece.
\<close>

fun split_lines :: "string \<Rightarrow> string list" where
  "split_lines [] = [[]]"
| "split_lines (c # cs) =
     (if c = LF then [] # split_lines cs
      else if c = CR \<and> cs \<noteq> [] \<and> hd cs = LF then [] # split_lines (tl cs)
      else (case split_lines cs of
              [] \<Rightarrow> [[c]]
            | piece # pieces \<Rightarrow> (c # piece) # pieces))"

text \<open>\<open>s.lastIndexOf(c)\<close> for a one-character search string: \<open>-1\<close> when \<open>c\<close> is absent.\<close>

fun lastIndexOf_from :: "string \<Rightarrow> char \<Rightarrow> int \<Rightarrow> int \<Rightarrow> int" where
  "lastIndexOf_from [] c i found = found"
| "lastIndexOf_from (x # xs) c i found =
     lastIndexOf_from xs c (i + 1) (if x = c then i else found)"

definition lastIndexOf :: "string \<Rightarrow> char \<Rightarrow> int" where
  "lastIndexOf s c = lastIndexOf_from s c 0 (- 1)"

section \<open>The changed-artifact list parser\<close>

text \<open>
  The loop of \<open>parseUniqueLines\<close>: \<open>seen\<close> is the \<open>Set\<close>, \<open>lines\<close> the array that
  \<open>push\<close> extends at its end. An empty string is falsy, so \<open>!line\<close> is \<open>line = []\<close>.
\<close>

fun parse_loop :: "string list \<Rightarrow> string set \<Rightarrow> string list \<Rightarrow> string list" where
  "parse_loop [] seen lines = lines"
| "parse_loop (rawLine # rest) seen lines =
     (let line = js_trim rawLine in
      if line = [] \<or> line \<in> seen then parse_loop rest seen lines
      else parse_loop rest (insert line seen) (lines @ [line]))"

definition parseUniqueLines :: "string \<Rightarrow> string list" where
  "parseUniqueLines text = parse_loop (split_lines text) {} []"

text \<open>
  The specification's reading of the result: the trimmed, non-empty lines, each kept at
  its first occurrence only.
\<close>

definition first_occurrences :: "'a list \<Rightarrow> 'a list" where
  "first_occurrences xs = rev (remdups (rev xs))"

definition trimmed_lines :: "string \<Rightarrow> string list" where
  "trimmed_lines text = filter (\<lambda>l. l \<noteq> []) (map js_trim (split_lines text))"

section \<open>Diff truncation\<close>

definition MAX_DIFF_CHARS :: nat where
  "MAX_DIFF_CHARS = 12000"

record truncate_result =
  truncated :: bool
  text_field :: string

definition truncation_note :: string where
  "truncation_note = LF # ''... (diff truncated in CI comment)''"

text \<open>
  \<open>truncateDiff\<close>. The budget is a character count, a \<open>nat\<close>; the source never passes
  anything but \<open>MAX_DIFF_CHARS\<close>.
\<close>

definition truncateDiff :: "string \<Rightarrow> nat \<Rightarrow> truncate_result" where
  "truncateDiff diffText maxChars =
     (if length diffText \<le> maxChars then \<lparr>truncated = False, text_field = diffText\<rparr>
      else
        let slice = take maxChars diffText;
            lineBreakIndex = lastIndexOf slice LF;
            safeSlice = (if lineBreakIndex > 0 then take (nat lineBreakIndex) slice else slice)
        in \<lparr>truncated = True, text_field = safeSlice @ truncation_note\<rparr>)"

text \<open>
  The kept part of a truncated text ends at a line boundary of the original when the
  original continues with a line feed right after it.
\<close>

definition ends_at_line_boundary :: "string \<Rightarrow> string \<Rightarrow> bool" where
  "ends_at_line_boundary diffText kept = prefix (kept @ [LF]) diffText"

section \<open>Small JavaScript helpers\<close>

text \<open>\<open>s.toLowerCase()\<close> on the letters \<open>A\<close> to \<open>Z\<close>.\<close>

definition lower_of :: "char \<Rightarrow> char" where
  "lower_of c =
     (case map_of (zip ''ABCDEFGHIJKLMNOPQRSTUVWXYZ'' ''abcdefghijklmnopqrstuvwxyz'') c of
        None \<Rightarrow> c
      | Some l \<Rightarrow> l)"

definition js_toLowerCase :: "string \<Rightarrow> string" where
  "js_toLowerCase s = map lower_of s"

text \<open>A number inside a template literal: its decimal digits.\<close>

fun show_nat :: "nat \<Rightarrow> string" where
  "show_nat n =
     (if n < 10 then [''0123456789'' ! n]
      else show_nat (n div 10) @ [''0123456789'' ! (n mod 10)])"

declare show_nat.simps [simp del]

text \<open>An optional string inside a template literal: \<open>undefined\<close> prints as that word.\<close>

definition show_opt :: "string option \<Rightarrow> string" where
  "show_opt s = (case s of None \<Rightarrow> ''undefined'' | Some v \<Rightarrow> v)"

text \<open>
  A JavaScript number: \<open>NaN\<close>, an infinity, or a finite value (the two zeros are
  one here). \<open>Number(process.env.PR_NUMBER)\<close> is an input of the model in this
  type: the conversion from the text of the variable is the engine's, and \<open>NaN\<close>
  is what it gives for a variable that is not set.
\<close>

datatype js_number = NaN | Num real | PosInfinity | NegInfinity

text \<open>A number in a condition: \<open>NaN\<close> and zero are falsy, every other number is truthy.\<close>

definition truthy_number :: "js_number \<Rightarrow> bool" where
  "truthy_number x = (case x of NaN \<Rightarrow> False | Num r \<Rightarrow> r \<noteq> 0 | _ \<Rightarrow> True)"

section \<open>The invocation environment\<close>

type_synonym env = "string \<rightharpoonup> string"

text \<open>\<open>process.env.X || d\<close>: an unset and an empty variable both give the default.\<close>

definition env_or :: "env \<Rightarrow> string \<Rightarrow> string \<Rightarrow> string" where
  "env_or env k d = (case env k of None \<Rightarrow> d | Some v \<Rightarrow> (if v = [] then d else v))"

text \<open>The file system, as far as the scripts read it: a path to the text of the file there.\<close>

type_synonym files = "string \<rightharpoonup> string"

definition readTextFileOrEmpty :: "files \<Rightarrow> string \<Rightarrow> string" where
  "readTextFileOrEmpty fs filePath =
     (if filePath = [] then []
      else (case fs filePath of None \<Rightarrow> [] | Some content \<Rightarrow> content))"

record user =
  type :: "string option"
  login :: "string option"

record pull_request =
  number :: nat
  user :: "user option"

record payload =
  pull_request :: "pull_request option"

record gh_context =
  repo_owner :: string
  repo_name :: string
  payload :: "payload option"

section \<open>The issue tracker\<close>

text \<open>A thrown value, with the two fields the scripts read from it.\<close>

record js_error =
  message :: string
  status :: "nat option"

text \<open>A listed comment; \<open>body\<close> is \<open>None\<close> when it is not a string.\<close>

record issue_comment =
  body :: "string option"

record linked_issue =
  issue_number :: nat
  state :: string

text \<open>
  What the paginating iterator over \<open>issues.listComments\<close> yields, request by request:
  a page of comments, or a throw that ends the iteration.
\<close>

datatype page_event = Page "issue_comment list" | Throws js_error

text \<open>
  The client, as the responses it gives to the calls of one invocation:
  the paginated listing, the single \<open>issues.listComments\<close> call, \<open>issues.createComment\<close>
  (\<open>None\<close> is success), \<open>pulls.get\<close>, and the GraphQL query for the closing issue
  references. For the query, \<open>Inl\<close> is a throw anywhere inside the \<open>try\<close> of
  \<open>getLinkedOpenIssues\<close> (a failed request, or a response without the path to the
  nodes), and \<open>Inr None\<close> is a response whose \<open>nodes\<close> is \<open>null\<close>.
\<close>

record github =
  paginate_listComments :: "page_event list"
  listComments :: "js_error + issue_comment list"
  createComment :: "js_error option"
  pulls_get :: "js_error + pull_request"
  graphql :: "js_error + linked_issue list option"

text \<open>
  A call to the tracker, with the issue or pull request number it was given: a natural
  number in the protobuf scripts, a \<open>js_number\<close> in the missing-linked-issue script.
\<close>

datatype 'n api_call =
    IssuesListComments 'n
  | IssuesCreateComment 'n string
  | PullsGet 'n
  | Graphql 'n

definition read_only_call :: "'n api_call \<Rightarrow> bool" where
  "read_only_call c = (case c of IssuesCreateComment n b \<Rightarrow> False | _ \<Rightarrow> True)"

definition listing_call :: "'n api_call \<Rightarrow> bool" where
  "listing_call c = (case c of IssuesListComments n \<Rightarrow> True | _ \<Rightarrow> False)"

text \<open>
  A line of the console: the text, and the values printed after it, by name. A template
  literal with a \<open>js_number\<close> in it is kept as it is written, and the values that fill
  its holes follow it.
\<close>

datatype field_value = VStr string | VNum nat | VNumber js_number | VBool bool | VUndefined

datatype log_entry = Log string "(string \<times> field_value) list"

definition opt_num :: "nat option \<Rightarrow> field_value" where
  "opt_num n = (case n of None \<Rightarrow> VUndefined | Some v \<Rightarrow> VNum v)"

definition opt_number :: "js_number option \<Rightarrow> field_value" where
  "opt_number n = (case n of None \<Rightarrow> VUndefined | Some v \<Rightarrow> VNumber v)"

text \<open>
  What one invocation did: the calls it made in order, the bodies of the comments it
  created, its console, and the error it threw to its caller, if any.
\<close>

record 'n outcome =
  calls :: "'n api_call list"
  created :: "string list"
  logged :: "log_entry list"
  fault :: "js_error option"

section \<open>The deduplication guard of the two protobuf notifiers\<close>

definition MARKER_PREFIX_contract :: string where
  "MARKER_PREFIX_contract = ''<!-- CodeRabbit Protobuf Review Trigger:''"

definition MARKER_PREFIX_generated :: string where
  "MARKER_PREFIX_generated = ''<!-- CodeRabbit Protobuf Review Trigger:''"

definition MAX_COMMENTS_TO_SCAN :: nat where
  "MAX_COMMENTS_TO_SCAN = 500"

definition MAX_FILES_TO_LIST :: nat where
  "MAX_FILES_TO_LIST = 80"

text \<open>\<open>typeof comment?.body === "string" && comment.body.includes(marker)\<close>.\<close>

definition body_includes :: "issue_comment \<Rightarrow> string \<Rightarrow> bool" where
  "body_includes comment marker =
     (case body comment of None \<Rightarrow> False | Some b \<Rightarrow> js_includes b marker)"

text \<open>
  The inner loop over one page either returns from the function or hands the counter
  \<open>scanned\<close> on to the next page. The two scripts have the same loop and differ in the
  value returned when the counter reaches the cap: \<open>true\<close> in the contract notifier,
  \<open>false\<close> in the generated-diff notifier; that value is the parameter \<open>atCap\<close>.
\<close>

datatype page_scan = Returned bool | Scanned nat

fun scan_page :: "bool \<Rightarrow> string \<Rightarrow> issue_comment list \<Rightarrow> nat \<Rightarrow> page_scan" where
  "scan_page atCap marker [] scanned = Scanned scanned"
| "scan_page atCap marker (comment # page) scanned =
     (if body_includes comment marker then Returned True
      else if scanned + 1 \<ge> MAX_COMMENTS_TO_SCAN then Returned atCap
      else scan_page atCap marker page (scanned + 1))"

text \<open>
  The statements of the \<open>try\<close>: the outer loop over the iterator. The result is the thrown error
  or the value returned (\<open>false\<close> when the iterator ends, from the statement after the
  \<open>try\<close>), with the number of requests the iterator made.
\<close>

record scan_result =
  returned :: "js_error + bool"
  requests :: nat

fun scan_pages :: "bool \<Rightarrow> string \<Rightarrow> page_event list \<Rightarrow> nat \<Rightarrow> nat \<Rightarrow> scan_result" where
  "scan_pages atCap marker [] scanned n = \<lparr>returned = Inr False, requests = n\<rparr>"
| "scan_pages atCap marker (Throws error # events) scanned n =
     \<lparr>returned = Inl error, requests = n + 1\<rparr>"
| "scan_pages atCap marker (Page page # events) scanned n =
     (case scan_page atCap marker page scanned of
        Returned b \<Rightarrow> \<lparr>returned = Inr b, requests = n + 1\<rparr>
      | Scanned scanned' \<Rightarrow> scan_pages atCap marker events scanned' (n + 1))"

record guard_result =
  found :: bool
  guard_logged :: "log_entry list"
  guard_calls :: "nat api_call list"

definition guard_failure_log :: "js_error \<Rightarrow> string \<Rightarrow> string \<Rightarrow> nat \<Rightarrow> log_entry" where
  "guard_failure_log error owner repo issueNumber =
     Log ''Failed while checking existing protobuf trigger comments:''
       [(''message'', VStr (message error)), (''status'', opt_num (status error)),
        (''owner'', VStr owner), (''repo'', VStr repo), (''issueNumber'', VNum issueNumber)]"

text \<open>\<open>hasExistingTriggerComment\<close> of the contract notifier: \<open>true\<close> at the cap and in the \<open>catch\<close>.\<close>

definition hasExistingTriggerComment_contract ::
  "github \<Rightarrow> string \<Rightarrow> string \<Rightarrow> nat \<Rightarrow> string \<Rightarrow> guard_result" where
  "hasExistingTriggerComment_contract github owner repo issueNumber marker =
     (let r = scan_pages True marker (paginate_listComments github) 0 0;
          made = replicate (requests r) (IssuesListComments issueNumber)
      in case returned r of
           Inr b \<Rightarrow> \<lparr>found = b, guard_logged = [], guard_calls = made\<rparr>
         | Inl error \<Rightarrow>
             \<lparr>found = True,
              guard_logged = [guard_failure_log error owner repo issueNumber],
              guard_calls = made\<rparr>)"

text \<open>\<open>hasExistingTriggerComment\<close> of the generated-diff notifier: \<open>false\<close> in both places.\<close>

definition hasExistingTriggerComment_generated ::
  "github \<Rightarrow> string \<Rightarrow> string \<Rightarrow> nat \<Rightarrow> string \<Rightarrow> guard_result" where
  "hasExistingTriggerComment_generated github owner repo issueNumber marker =
     (let r = scan_pages False marker (paginate_listComments github) 0 0;
          made = replicate (requests r) (IssuesListComments issueNumber)
      in case returned r of
           Inr b \<Rightarrow> \<lparr>found = b, guard_logged = [], guard_calls = made\<rparr>
         | Inl error \<Rightarrow>
             \<lparr>found = False,
              guard_logged = [guard_failure_log error owner repo issueNumber],
              guard_calls = made\<rparr>)"

text \<open>
  The comments the iterator delivers before its first throw, in order, and that throw.
\<close>

fun delivered :: "page_event list \<Rightarrow> issue_comment list" where
  "delivered [] = []"
| "delivered (Throws error # events) = []"
| "delivered (Page page # events) = page @ delivered events"

fun first_throw :: "page_event list \<Rightarrow> js_error option" where
  "first_throw [] = None"
| "first_throw (Throws error # events) = Some error"
| "first_throw (Page page # events) = first_throw events"

text \<open>The comments a scan looks at: no more than the cap.\<close>

definition scanned_comments :: "page_event list \<Rightarrow> issue_comment list" where
  "scanned_comments events = take MAX_COMMENTS_TO_SCAN (delivered events)"

definition marker_scanned :: "string \<Rightarrow> page_event list \<Rightarrow> bool" where
  "marker_scanned marker events =
     list_ex (\<lambda>comment. body_includes comment marker) (scanned_comments events)"

definition cap_reached :: "page_event list \<Rightarrow> bool" where
  "cap_reached events \<longleftrightarrow> MAX_COMMENTS_TO_SCAN \<le> length (delivered events)"

section \<open>The contract notifier\<close>

definition backtick :: string where
  "backtick = [CHR 0x60]"

definition newline :: string where
  "newline = [LF]"

definition default_checks :: "string list" where
  "default_checks =
     [''buf lint'',
      ''buf breaking --against '' @ [CHR 0x22] @ ''.git#ref=origin/main'' @ [CHR 0x22],
      ''buf build'']"

definition file_lines :: "string list \<Rightarrow> string list" where
  "file_lines changedFiles =
     map (\<lambda>filePath. ''- '' @ backtick @ filePath @ backtick) (take MAX_FILES_TO_LIST changedFiles)"

definition hidden_line :: "string list \<Rightarrow> string" where
  "hidden_line changedFiles =
     (let hiddenCount = length changedFiles - MAX_FILES_TO_LIST
      in if hiddenCount > 0 then newline @ ''- ...and '' @ show_nat hiddenCount @ '' more files''
         else [])"

definition scope_detail :: "string \<Rightarrow> string" where
  "scope_detail scopeReason =
     (if scopeReason \<noteq> [] then ''- Scope detail: '' @ scopeReason @ newline else [])"

definition buildCommentBody_contract ::
  "string \<Rightarrow> string \<Rightarrow> string \<Rightarrow> string list \<Rightarrow> string \<Rightarrow> bool \<Rightarrow> string \<Rightarrow> string
     \<Rightarrow> string \<Rightarrow> string list \<Rightarrow> string" where
  "buildCommentBody_contract marker baseSha headSha changedFiles diffSnippet truncated'
       scopeMode scopeReason validationStatus validationChecks =
     (let fileLines = file_lines changedFiles;
          fileList = (if length fileLines > 0 then js_join newline fileLines
                      else ''- (no .proto files changed in this PR)'');
          hiddenLine = hidden_line changedFiles;
          truncatedSuffix = (if truncated' then '' (truncated)'' else []);
          diffSection =
            (if js_trim diffSnippet \<noteq> []
             then newline @ ''Protobuf contract diff excerpt'' @ truncatedSuffix @ '':'' @ newline
                  @ backtick @ backtick @ backtick @ ''diff'' @ newline
                  @ diffSnippet @ newline
                  @ backtick @ backtick @ backtick @ newline
             else newline @ ''No .proto diff was detected for this head commit.'' @ newline);
          checks = (if length validationChecks > 0 then validationChecks else default_checks);
          validationSummary =
            (if validationStatus = ''skipped''
             then ''Protobuf contract validation was intentionally skipped for this pull request.''
                  @ newline @ newline
                  @ ''Reason:'' @ newline
                  @ ''- No protobuf-impacting files changed, so buf lint/breaking/build were not required.''
             else ''Protobuf contract validation passed for this pull request.''
                  @ newline @ newline
                  @ ''Validation checks passed:'' @ newline
                  @ js_join newline (map (\<lambda>check. ''- '' @ backtick @ check @ backtick) checks));
          reviewFocus =
            (if validationStatus = ''skipped''
             then ''Please perform a full review for this PR.''
                  @ newline @ newline
                  @ ''Protobuf contract gate was skipped intentionally for this head commit because no protobuf-impacting files changed.''
                  @ newline
                  @ ''If you identify code changes that implicitly alter protobuf contracts, flag them explicitly.''
             else ''Please review this PR with a protobuf-first contract focus:'' @ newline
                  @ ''- PR changes must comply with protobuf compatibility rules.'' @ newline
                  @ ''- Do not allow field renumbering/reuse, enum value reuse, or incompatible type changes.''
                  @ newline
                  @ ''- Flag package/service renames unless accompanied by a migration strategy.''
                  @ newline
                  @ ''- Verify generated protobuf artifacts and application logic align with updated message/service definitions.'')
      in marker @ newline
         @ ''@coderabbitai full review'' @ newline
         @ newline
         @ validationSummary @ newline
         @ newline
         @ ''- Base commit: '' @ backtick @ baseSha @ backtick @ newline
         @ ''- Head commit: '' @ backtick @ headSha @ backtick @ newline
         @ ''- Changed .proto files: '' @ show_nat (length changedFiles) @ newline
         @ ''- Scope mode: '' @ backtick @ scopeMode @ backtick @ newline
         @ scope_detail scopeReason @ newline
         @ newline
         @ reviewFocus @ newline
         @ newline
         @ ''Changed .proto files:'' @ newline
         @ fileList @ hiddenLine @ newline
         @ diffSection @ newline)"

text \<open>\<open>context.payload?.pull_request?.number\<close>.\<close>

definition payload_pr_number :: "gh_context \<Rightarrow> nat option" where
  "payload_pr_number context =
     (case payload context of
        None \<Rightarrow> None
      | Some p \<Rightarrow> (case pull_request p of None \<Rightarrow> None | Some pr \<Rightarrow> Some (number pr)))"

definition is_dry_run_protobuf :: "env \<Rightarrow> bool" where
  "is_dry_run_protobuf env = (js_toLowerCase (env_or env ''DRY_RUN'' ''false'') = ''true'')"

text \<open>\<open>text.replace(/,/g, "\n")\<close>.\<close>

definition commas_to_newlines :: "string \<Rightarrow> string" where
  "commas_to_newlines s = map (\<lambda>c. if c = CHR '','' then LF else c) s"

definition marker_contract :: "string \<Rightarrow> string" where
  "marker_contract headSha = MARKER_PREFIX_contract @ '' '' @ headSha @ '' -->''"

text \<open>
  The \<open>try\<close> around \<open>createTriggerComment\<close>, the same in both protobuf scripts: the
  statuses 403 and 404 are logged and swallowed, every other error is thrown on.
\<close>

definition insufficient_log :: "js_error \<Rightarrow> string \<Rightarrow> string \<Rightarrow> nat \<Rightarrow> log_entry" where
  "insufficient_log error owner repo prNumber =
     Log ''Insufficient permissions to create PR comment in this context. Skipping.''
       [(''status'', opt_num (status error)), (''owner'', VStr owner),
        (''repo'', VStr repo), (''prNumber'', VNum prNumber)]"

definition post_trigger_comment ::
  "github \<Rightarrow> string \<Rightarrow> string \<Rightarrow> nat \<Rightarrow> string \<Rightarrow> nat outcome" where
  "post_trigger_comment github owner repo prNumber body' =
     (case createComment github of
        None \<Rightarrow>
          \<lparr>calls = [IssuesCreateComment prNumber body'], created = [body'],
           logged = [Log (''Posted protobuf-triggered CodeRabbit review comment on PR #''
                          @ show_nat prNumber @ ''.'') []],
           fault = None\<rparr>
      | Some error \<Rightarrow>
          (if status error = Some 403 \<or> status error = Some 404
           then \<lparr>calls = [IssuesCreateComment prNumber body'], created = [],
                 logged = [insufficient_log error owner repo prNumber],
                 fault = None\<rparr>
           else \<lparr>calls = [IssuesCreateComment prNumber body'], created = [], logged = [],
                 fault = Some error\<rparr>))"

text \<open>An invocation that only prints and returns.\<close>

definition log_and_return :: "log_entry list \<Rightarrow> 'n outcome" where
  "log_and_return ls = \<lparr>calls = [], created = [], logged = ls, fault = None\<rparr>"

text \<open>What happened before, followed by what happens next.\<close>

definition after :: "'n api_call list \<Rightarrow> log_entry list \<Rightarrow> 'n outcome \<Rightarrow> 'n outcome" where
  "after cs ls out = out\<lparr>calls := cs @ calls out, logged := ls @ logged out\<rparr>"

definition no_pull_request :: "nat outcome" where
  "no_pull_request = log_and_return [Log ''No pull request found in payload. Skipping.'' []]"

text \<open>\<open>main\<close> of the contract notifier, from the reading of the environment on.\<close>

definition run_contract :: "github \<Rightarrow> gh_context \<Rightarrow> env \<Rightarrow> files \<Rightarrow> nat \<Rightarrow> nat outcome" where
  "run_contract github context env fs prNumber =
     (let owner = repo_owner context;
          repo = repo_name context;
          baseSha = env_or env ''BASE_SHA'' [];
          headSha = env_or env ''HEAD_SHA'' [];
          diffPath = env_or env ''PROTOBUF_DIFF_PATH'' [];
          filesPath = env_or env ''PROTOBUF_FILES_PATH'' [];
          scopeMode = env_or env ''PROTOBUF_SCOPE_MODE'' ''full'';
          scopeReason = env_or env ''PROTOBUF_SCOPE_REASON'' [];
          validationStatus = env_or env ''PROTOBUF_VALIDATION_STATUS'' ''passed'';
          validationChecks =
            parseUniqueLines (commas_to_newlines (env_or env ''PROTOBUF_VALIDATION_CHECKS'' []));
          isDryRun = is_dry_run_protobuf env
      in if baseSha = [] \<or> headSha = [] \<or> filesPath = []
         then log_and_return
                [Log ''Missing required environment values. Skipping protobuf review trigger.''
                   [(''hasBaseSha'', VBool (baseSha \<noteq> [])),
                    (''hasHeadSha'', VBool (headSha \<noteq> [])),
                    (''hasFilesPath'', VBool (filesPath \<noteq> []))]]
         else
           let fullDiff = readTextFileOrEmpty fs diffPath;
               changedFiles = parseUniqueLines (readTextFileOrEmpty fs filesPath);
               t = truncateDiff fullDiff MAX_DIFF_CHARS;
               diffSnippet = text_field t;
               marker = marker_contract headSha;
               g = hasExistingTriggerComment_contract github owner repo prNumber marker
           in if found g
              then after (guard_calls g) (guard_logged g)
                     (log_and_return
                        [Log (''CodeRabbit protobuf trigger already posted for PR #''
                              @ show_nat prNumber @ '' and head '' @ headSha @ ''.'') []])
              else
                let body' = buildCommentBody_contract marker baseSha headSha changedFiles
                              diffSnippet (truncated t) scopeMode scopeReason
                              validationStatus validationChecks
                in if isDryRun
                   then after (guard_calls g) (guard_logged g)
                          (log_and_return
                             [Log (''[DRY RUN] Would create protobuf-triggered CodeRabbit comment for PR #''
                                   @ show_nat prNumber @ ''.'') []])
                   else after (guard_calls g) (guard_logged g)
                          (post_trigger_comment github owner repo prNumber body'))"

text \<open>\<open>main\<close> of the contract notifier; \<open>!prNumber\<close> holds of \<open>undefined\<close> and of \<open>0\<close>.\<close>

definition main_contract :: "github \<Rightarrow> gh_context \<Rightarrow> env \<Rightarrow> files \<Rightarrow> nat outcome" where
  "main_contract github context env fs =
     (case payload_pr_number context of
        None \<Rightarrow> no_pull_request
      | Some prNumber \<Rightarrow>
          (if prNumber = 0 then no_pull_request
           else run_contract github context env fs prNumber))"

section \<open>The generated-diff notifier\<close>

definition marker_generated :: "string \<Rightarrow> string" where
  "marker_generated headSha = MARKER_PREFIX_generated @ '' '' @ headSha @ '' -->''"

definition buildCommentBody_generated ::
  "string \<Rightarrow> string \<Rightarrow> string \<Rightarrow> string list \<Rightarrow> string \<Rightarrow> bool \<Rightarrow> string \<Rightarrow> string
     \<Rightarrow> string" where
  "buildCommentBody_generated marker baseSha headSha changedFiles diffSnippet truncated'
       scopeMode scopeReason =
     (let fileLines = file_lines changedFiles;
          fileList = (if length fileLines > 0 then js_join newline fileLines
                      else ''- (unable to compute changed generated files)'');
          hiddenLine = hidden_line changedFiles;
          truncatedSuffix = (if truncated' then '' (truncated)'' else [])
      in marker @ newline
         @ ''@coderabbitai full review'' @ newline
         @ newline
         @ ''Generated protobuf build diff detected for this pull request.'' @ newline
         @ newline
         @ ''- Base commit: '' @ backtick @ baseSha @ backtick @ newline
         @ ''- Head commit: '' @ backtick @ headSha @ backtick @ newline
         @ ''- Generated protobuf files changed: '' @ show_nat (length changedFiles) @ newline
         @ ''- Scope mode: '' @ backtick @ scopeMode @ backtick @ newline
         @ scope_detail scopeReason @ newline
         @ newline
         @ ''Please review this PR with focus on whether code changes remain aligned with these generated protobuf artifacts.''
         @ newline
         @ newline
         @ ''Changed generated protobuf files:'' @ newline
         @ fileList @ hiddenLine @ newline
         @ newline
         @ ''Generated protobuf diff excerpt'' @ truncatedSuffix @ '':'' @ newline
         @ backtick @ backtick @ backtick @ ''diff'' @ newline
         @ diffSnippet @ newline
         @ backtick @ backtick @ backtick @ newline)"

definition run_generated :: "github \<Rightarrow> gh_context \<Rightarrow> env \<Rightarrow> files \<Rightarrow> nat \<Rightarrow> nat outcome" where
  "run_generated github context env fs prNumber =
     (let owner = repo_owner context;
          repo = repo_name context;
          baseSha = env_or env ''BASE_SHA'' [];
          headSha = env_or env ''HEAD_SHA'' [];
          diffPath = env_or env ''PROTOBUF_DIFF_PATH'' [];
          filesPath = env_or env ''PROTOBUF_FILES_PATH'' [];
          scopeMode = env_or env ''PROTOBUF_SCOPE_MODE'' ''full'';
          scopeReason = env_or env ''PROTOBUF_SCOPE_REASON'' [];
          isDryRun = is_dry_run_protobuf env
      in if baseSha = [] \<or> headSha = [] \<or> diffPath = [] \<or> filesPath = []
         then log_and_return
                [Log ''Missing required environment values. Skipping protobuf review trigger.''
                   [(''hasBaseSha'', VBool (baseSha \<noteq> [])),
                    (''hasHeadSha'', VBool (headSha \<noteq> [])),
                    (''hasDiffPath'', VBool (diffPath \<noteq> [])),
                    (''hasFilesPath'', VBool (filesPath \<noteq> []))]]
         else
           let fullDiff = readTextFileOrEmpty fs diffPath
           in if js_trim fullDiff = []
              then log_and_return
                     [Log ''No generated protobuf diff found. Skipping CodeRabbit trigger.'' []]
              else
                let changedFiles = parseUniqueLines (readTextFileOrEmpty fs filesPath);
                    t = truncateDiff fullDiff MAX_DIFF_CHARS;
                    diffSnippet = text_field t;
                    marker = marker_generated headSha;
                    g = hasExistingTriggerComment_generated github owner repo prNumber marker
                in if found g
                   then after (guard_calls g) (guard_logged g)
                          (log_and_return
                             [Log (''CodeRabbit protobuf trigger already posted for PR #''
                                   @ show_nat prNumber @ '' and head '' @ headSha @ ''.'') []])
                   else
                     let body' = buildCommentBody_generated marker baseSha headSha changedFiles
                                   diffSnippet (truncated t) scopeMode scopeReason
                     in if isDryRun
                        then after (guard_calls g) (guard_logged g)
                               (log_and_return
                                  [Log (''[DRY RUN] Would create protobuf-triggered CodeRabbit comment for PR #''
                                        @ show_nat prNumber @ ''.'') []])
                        else after (guard_calls g) (guard_logged g)
                               (post_trigger_comment github owner repo prNumber body'))"

definition main_generated :: "github \<Rightarrow> gh_context \<Rightarrow> env \<Rightarrow> files \<Rightarrow> nat outcome" where
  "main_generated github context env fs =
     (case payload_pr_number context of
        None \<Rightarrow> no_pull_request
      | Some prNumber \<Rightarrow>
          (if prNumber = 0 then no_pull_request
           else run_generated github context env fs prNumber))"

section \<open>The missing-linked-issue notifier\<close>

definition LINKBOT_MISSING_ISSUE_MARKER :: string where
  "LINKBOT_MISSING_ISSUE_MARKER = ''<!-- LinkBot Missing Issue -->''"

text \<open>
  \<open>getLinkedOpenIssues\<close>: the open issues among the nodes, or \<open>None\<close> for the \<open>null\<close>
  of the \<open>catch\<close>, with what the \<open>catch\<close> printed.
\<close>

definition getLinkedOpenIssues ::
  "github \<Rightarrow> string \<Rightarrow> string \<Rightarrow> js_number
     \<Rightarrow> linked_issue list option \<times> log_entry list" where
  "getLinkedOpenIssues github owner repo prNumber =
     (case graphql github of
        Inr nodes \<Rightarrow>
          (let issues = (case nodes of None \<Rightarrow> [] | Some ns \<Rightarrow> ns)
           in (Some (filter (\<lambda>issue. state issue = ''OPEN'') issues), []))
      | Inl error \<Rightarrow>
          (None,
           [Log ''Failed to fetch linked issues for PR #${prNumber}:''
              [(''prNumber'', VNumber prNumber), (''message'', VStr (message error))]]))"

text \<open>
  The \<open>catch\<close> around the whole script: three lines on the console, and the error is
  thrown on to the caller.
\<close>

definition rethrown ::
  "js_error \<Rightarrow> js_number option \<Rightarrow> gh_context \<Rightarrow> js_number outcome" where
  "rethrown error prNumber context =
     \<lparr>calls = [], created = [],
      logged = [Log ''Error processing PR:''
                  [(''message'', VStr (message error)), (''status'', opt_num (status error))],
                Log ''PR number:'' [(''prNumber'', opt_number prNumber)],
                Log ''Repository:''
                  [(''repository'', VStr (repo_owner context @ ''/'' @ repo_name context))]],
      fault = Some error\<rparr>"

text \<open>
  The \<open>TypeError\<close> of reading \<open>pull_request\<close> from a payload that is \<open>undefined\<close>,
  with the message that V8, the engine of Node.js, gives it; the property name stands
  in single quotes there. A \<open>TypeError\<close> has no \<open>status\<close>.
\<close>

definition no_payload_error :: js_error where
  "no_payload_error =
     \<lparr>message = ''Cannot read properties of undefined (reading '' @ [CHR 0x27]
                  @ ''pull_request'' @ [CHR 0x27] @ '')'',
      status = None\<rparr>"

definition no_number_error :: js_error where
  "no_number_error = \<lparr>message = ''PR number could not be determined'', status = None\<rparr>"

definition wave :: string where
  "wave = [CHR 0xF0, CHR 0x9F, CHR 0x91, CHR 0x8B]"

definition siren :: string where
  "siren = [CHR 0xF0, CHR 0x9F, CHR 0x9A, CHR 0xA8]"

definition book :: string where
  "book = [CHR 0xF0, CHR 0x9F, CHR 0x93, CHR 0x96]"

definition commentBody_linkbot :: "gh_context \<Rightarrow> string option \<Rightarrow> string" where
  "commentBody_linkbot context authorLogin =
     (let safeAuthor = (case authorLogin of None \<Rightarrow> ''there'' | Some l \<Rightarrow> l);
          docs = ''https://github.com/'' @ repo_owner context @ ''/'' @ repo_name context
                 @ ''/blob/main/docs/sdk_developers/''
      in js_join newline
           [LINKBOT_MISSING_ISSUE_MARKER @ ''Hi @'' @ safeAuthor @ '', this is **LinkBot** '' @ wave,
            [],
            ''Linking pull requests to issues helps us significantly with reviewing pull requests and keeping the repository healthy.'',
            [],
            siren @ '' **This pull request does not have an issue linked.**'',
            ''If this PR remains unlinked, it will be automatically closed.'',
            [],
            ''Please link an issue using the following format:'',
            backtick @ backtick @ backtick,
            ''Fixes #123'',
            backtick @ backtick @ backtick,
            [],
            book @ '' Guide:'',
            ''[docs/sdk_developers/how_to_link_issues.md]('' @ docs @ ''how_to_link_issues.md)'',
            [],
            ''If no issue exists yet, please create one:'',
            ''[docs/sdk_developers/creating_issues.md]('' @ docs @ ''creating_issues.md)'',
            [],
            ''Thanks!''])"

text \<open>\<open>authorType === "Bot" || authorLogin?.endsWith('[bot]')\<close>.\<close>

definition is_bot_author :: "pull_request \<Rightarrow> bool" where
  "is_bot_author prData =
     (let authorType = (case user prData of None \<Rightarrow> None | Some u \<Rightarrow> type u);
          authorLogin = (case user prData of None \<Rightarrow> None | Some u \<Rightarrow> login u)
      in authorType = Some ''Bot''
         \<or> (case authorLogin of None \<Rightarrow> False | Some l \<Rightarrow> js_endsWith l ''[bot]''))"

text \<open>\<open>comments.data.some(comment => comment.body?.includes(LINKBOT_MISSING_ISSUE_MARKER))\<close>.\<close>

definition alreadyCommentedMissingIssue :: "issue_comment list \<Rightarrow> bool" where
  "alreadyCommentedMissingIssue data =
     list_ex (\<lambda>comment. body_includes comment LINKBOT_MISSING_ISSUE_MARKER) data"

text \<open>The script from the reading of the author on, with the pull request data in hand.\<close>

definition linkbot_with_pr ::
  "github \<Rightarrow> gh_context \<Rightarrow> bool \<Rightarrow> js_number \<Rightarrow> pull_request \<Rightarrow> js_number outcome" where
  "linkbot_with_pr github context isDryRun prNumber prData =
     (let authorLogin = (case user prData of None \<Rightarrow> None | Some u \<Rightarrow> login u)
      in if is_bot_author prData
         then log_and_return
                [Log (''Skipping comment: PR created by bot ('' @ show_opt authorLogin @ '')'') []]
         else
           (case listComments github of
              Inl error \<Rightarrow>
                after [IssuesListComments prNumber] [] (rethrown error (Some prNumber) context)
            | Inr data \<Rightarrow>
                let already = alreadyCommentedMissingIssue data;
                    linked = getLinkedOpenIssues github (repo_owner context) (repo_name context)
                               prNumber
                in after [IssuesListComments prNumber, Graphql prNumber] (snd linked)
                     (case fst linked of
                        None \<Rightarrow>
                          log_and_return
                            [Log ''Could not determine linked issues. Skipping comment for safety.'' []]
                      | Some linkedIssues \<Rightarrow>
                          (if length linkedIssues = 0
                           then
                             (if already
                              then log_and_return
                                     [Log ''LinkBot missing-issue reminder already posted on this PR'' []]
                              else
                                let commentBody = commentBody_linkbot context authorLogin
                                in if isDryRun
                                   then log_and_return
                                          [Log ''DRY RUN: Would post the following comment:'' [],
                                           Log ''---'' [], Log commentBody [], Log ''---'' []]
                                   else
                                     (case createComment github of
                                        Some error \<Rightarrow>
                                          after [IssuesCreateComment prNumber commentBody] []
                                            (rethrown error (Some prNumber) context)
                                      | None \<Rightarrow>
                                          \<lparr>calls = [IssuesCreateComment prNumber commentBody],
                                           created = [commentBody],
                                           logged = [Log ''LinkBot comment posted successfully'' []],
                                           fault = None\<rparr>))
                           else log_and_return [Log ''PR has linked issue - no comment needed'' []]))))"

text \<open>
  The script from the line that prints the number on: the pull request data come from
  the payload, or from \<open>pulls.get\<close> when the payload has none.
\<close>

definition linkbot_with_number ::
  "github \<Rightarrow> gh_context \<Rightarrow> bool \<Rightarrow> js_number \<Rightarrow> js_number outcome" where
  "linkbot_with_number github context isDryRun prNumber =
     after []
       [Log ''Processing PR #${prNumber} (Dry run: ${isDryRun})''
          [(''prNumber'', VNumber prNumber), (''isDryRun'', VBool isDryRun)]]
       (case payload context of
          None \<Rightarrow> rethrown no_payload_error (Some prNumber) context
        | Some p \<Rightarrow>
            (case pull_request p of
               Some prData \<Rightarrow> linkbot_with_pr github context isDryRun prNumber prData
             | None \<Rightarrow>
                 (case pulls_get github of
                    Inl error \<Rightarrow> after [PullsGet prNumber] [] (rethrown error (Some prNumber) context)
                  | Inr prData \<Rightarrow>
                      after [PullsGet prNumber] []
                        (linkbot_with_pr github context isDryRun prNumber prData))))"

text \<open>
  \<open>Number(process.env.PR_NUMBER) || context.payload.pull_request?.number\<close>, then the
  test \<open>!prNumber\<close>. The payload is read only when the number of the environment is
  falsy; reading it when it is \<open>undefined\<close> throws, with \<open>prNumber\<close> still
  \<open>undefined\<close>. The number of a pull request of the payload is a natural number.
\<close>

definition number_from_payload ::
  "github \<Rightarrow> gh_context \<Rightarrow> bool \<Rightarrow> js_number outcome" where
  "number_from_payload github context isDryRun =
     (case payload context of
        None \<Rightarrow> rethrown no_payload_error None context
      | Some p \<Rightarrow>
          (case pull_request p of
             None \<Rightarrow> rethrown no_number_error None context
           | Some pr \<Rightarrow>
               (if number pr = 0 then rethrown no_number_error (Some (Num 0)) context
                else linkbot_with_number github context isDryRun (Num (real (number pr))))))"

text \<open>
  The script. \<open>envPrNumber\<close> is \<open>Number(process.env.PR_NUMBER)\<close>, as the engine
  converted it.
\<close>

definition main_linkbot ::
  "github \<Rightarrow> gh_context \<Rightarrow> env \<Rightarrow> js_number \<Rightarrow> js_number outcome" where
  "main_linkbot github context env envPrNumber =
     (let isDryRun = (env ''DRY_RUN'' = Some ''true'')
      in if truthy_number envPrNumber
         then linkbot_with_number github context isDryRun envPrNumber
         else number_from_payload github context isDryRun)"

section \<open>The three notifiers side by side\<close>

datatype notifier = ContractNotifier | GeneratedDiffNotifier | MissingLinkedIssueNotifier

text \<open>
  The marker a notifier writes at the start of its comment on a pull request whose head
  revision is \<open>headSha\<close>. The missing-linked-issue notifier reads no head revision:
  its marker is the constant of its first line.
\<close>

fun marker_of :: "notifier \<Rightarrow> string \<Rightarrow> string" where
  "marker_of ContractNotifier headSha = marker_contract headSha"
| "marker_of GeneratedDiffNotifier headSha = marker_generated headSha"
| "marker_of MissingLinkedIssueNotifier headSha = LINKBOT_MISSING_ISSUE_MARKER"

text \<open>An invocation got as far as the call that creates the comment.\<close>

definition attempted_create :: "'n outcome \<Rightarrow> bool" where
  "attempted_create out = list_ex (\<lambda>c. \<not> read_only_call c) (calls out)"

text \<open>
  The one path of the missing-linked-issue script that reaches \<open>createComment\<close>: the
  author is no bot, the listing went through and shows no reminder, the query found
  no open linked issue, and the run is no dry run.
\<close>

definition reminder_due ::
  "github \<Rightarrow> gh_context \<Rightarrow> bool \<Rightarrow> js_number \<Rightarrow> pull_request \<Rightarrow> bool" where
  "reminder_due github context isDryRun prNumber prData \<longleftrightarrow>
     \<not> is_bot_author prData
     \<and> (case listComments github of Inl e \<Rightarrow> False | Inr data \<Rightarrow> \<not> alreadyCommentedMissingIssue data)
     \<and> fst (getLinkedOpenIssues github (repo_owner context) (repo_name context) prNumber) = Some []
     \<and> \<not> isDryRun"

section \<open>Concrete invocations\<close>

text \<open>The inputs at which the theorems below are instantiated and evaluated.\<close>

definition ann :: user where
  "ann = \<lparr>type = Some ''User'', login = Some ''ann''\<rparr>"

definition renovate :: user where
  "renovate = \<lparr>type = Some ''User'', login = Some ''renovate[bot]''\<rparr>"

definition pr7 :: pull_request where
  "pr7 = \<lparr>number = 7, user = Some ann\<rparr>"

definition context7 :: gh_context where
  "context7 =
     \<lparr>repo_owner = ''hiero-ledger'', repo_name = ''hiero-sdk-python'',
      payload = Some \<lparr>pull_request = Some pr7\<rparr>\<rparr>"

text \<open>A run with no triggering event at all, and one whose event has no pull request.\<close>

definition context_no_event :: gh_context where
  "context_no_event =
     \<lparr>repo_owner = ''hiero-ledger'', repo_name = ''hiero-sdk-python'', payload = None\<rparr>"

definition context_no_pr :: gh_context where
  "context_no_pr =
     \<lparr>repo_owner = ''hiero-ledger'', repo_name = ''hiero-sdk-python'',
      payload = Some \<lparr>pull_request = None\<rparr>\<rparr>"

definition env7 :: env where
  "env7 =
     [''BASE_SHA'' \<mapsto> ''b1'', ''HEAD_SHA'' \<mapsto> ''h1'',
      ''PROTOBUF_DIFF_PATH'' \<mapsto> ''d'', ''PROTOBUF_FILES_PATH'' \<mapsto> ''f'']"

definition files7 :: files where
  "files7 = [''d'' \<mapsto> ''+x'', ''f'' \<mapsto> ''a.proto'']"

definition forbidden :: js_error where
  "forbidden = \<lparr>message = ''Resource not accessible by integration'', status = Some 403\<rparr>"

definition server_error :: js_error where
  "server_error = \<lparr>message = ''Server Error'', status = Some 500\<rparr>"

definition plain_comment :: issue_comment where
  "plain_comment = \<lparr>body = Some ''LGTM''\<rparr>"

definition hundred_plain :: "issue_comment list" where
  "hundred_plain = replicate 100 plain_comment"

text \<open>A client over a thread: what the iterator yields, and what the single call returns.\<close>

definition client :: "page_event list \<Rightarrow> issue_comment list \<Rightarrow> github" where
  "client events firstPage =
     \<lparr>paginate_listComments = events, listComments = Inr firstPage, createComment = None,
      pulls_get = Inr pr7, graphql = Inr (Some [])\<rparr>"

text \<open>An empty thread.\<close>

definition quiet_client :: github where
  "quiet_client = client [Page []] []"

text \<open>A thread of 500 plain comments, listed 100 to a page by the iterator.\<close>

definition busy_events :: "page_event list" where
  "busy_events =
     [Page hundred_plain, Page hundred_plain, Page hundred_plain, Page hundred_plain,
      Page hundred_plain]"

definition busy_client :: github where
  "busy_client = client busy_events (take 30 hundred_plain)"

text \<open>What the generated-diff notifier posts at these inputs.\<close>

definition body7_generated :: string where
  "body7_generated =
     buildCommentBody_generated (marker_generated ''h1'') ''b1'' ''h1'' [''a.proto''] ''+x'' False
       ''full'' []"

definition body7_contract :: string where
  "body7_contract =
     buildCommentBody_contract (marker_contract ''h1'') ''b1'' ''h1'' [''a.proto''] ''+x'' False
       ''full'' [] ''passed'' []"

text \<open>The busy thread after that comment was added to it: the comment is the 501st.\<close>

definition busy_client_after :: github where
  "busy_client_after =
     client (busy_events @ [Page [\<lparr>body = Some body7_generated\<rparr>]]) (take 30 hundred_plain)"

text \<open>The busy thread with the comment of the contract notifier as its 501st.\<close>

definition busy_client_after_contract :: github where
  "busy_client_after_contract =
     client (busy_events @ [Page [\<lparr>body = Some body7_contract\<rparr>]]) (take 30 hundred_plain)"

definition quiet_client_after_contract :: github where
  "quiet_client_after_contract = client [Page [\<lparr>body = Some body7_contract\<rparr>]] []"

definition quiet_client_after_generated :: github where
  "quiet_client_after_generated = client [Page [\<lparr>body = Some body7_generated\<rparr>]] []"

text \<open>The reminder for the pull request of \<open>ann\<close>, and the threads that hold it.\<close>

definition reminder7 :: string where
  "reminder7 = commentBody_linkbot context7 (Some ''ann'')"

definition quiet_client_after_reminder :: github where
  "quiet_client_after_reminder =
     client [Page [\<lparr>body = Some reminder7\<rparr>]] [\<lparr>body = Some reminder7\<rparr>]"

text \<open>
  A thread of 31 comments, the reminder last. The iterator asks for 100 to a page and
  gets them all in one; the single call asks for no page size and gets the first 30.
\<close>

definition long_thread :: "issue_comment list" where
  "long_thread = replicate 30 plain_comment @ [\<lparr>body = Some reminder7\<rparr>]"

definition long_thread_client :: github where
  "long_thread_client = client [Page long_thread] (take 30 long_thread)"

text \<open>A listing that fails on its second request.\<close>

definition failing_events :: "page_event list" where
  "failing_events = [Page hundred_plain, Throws server_error]"

definition failing_client :: github where
  "failing_client = client failing_events []"


text \<open>A pull request opened by a bot account, and clients whose creating call is refused.\<close>

definition pr_renovate :: pull_request where
  "pr_renovate = \<lparr>number = 8, user = Some renovate\<rparr>"

definition context_renovate :: gh_context where
  "context_renovate =
     \<lparr>repo_owner = ''hiero-ledger'', repo_name = ''hiero-sdk-python'',
      payload = Some \<lparr>pull_request = Some pr_renovate\<rparr>\<rparr>"

definition forbidden_client :: github where
  "forbidden_client = quiet_client\<lparr>createComment := Some forbidden\<rparr>"

definition broken_client :: github where
  "broken_client = quiet_client\<lparr>createComment := Some server_error\<rparr>"


section \<open>Properties of the parser\<close>

lemma remdups_append_mem: "x \<in> set ys \<Longrightarrow> remdups (xs @ x # ys) = remdups (xs @ ys)"
  by (induction xs) auto

lemma remdups_snoc: "remdups (xs @ [x]) = filter (\<lambda>y. y \<noteq> x) (remdups xs) @ [x]"
  by (induction xs) auto

text \<open>\<open>first_occurrences\<close> keeps the head and drops its later copies.\<close>

lemma first_occurrences_Nil: "first_occurrences [] = []"
  by (simp add: first_occurrences_def)

lemma first_occurrences_Cons:
  "first_occurrences (x # xs) = x # filter (\<lambda>y. y \<noteq> x) (first_occurrences xs)"
  by (simp add: first_occurrences_def remdups_snoc rev_filter)

lemma first_occurrences_distinct: "distinct (first_occurrences xs)"
  by (simp add: first_occurrences_def)

lemma first_occurrences_set: "set (first_occurrences xs) = set xs"
  by (simp add: first_occurrences_def)

lemma first_occurrences_id: "distinct xs \<Longrightarrow> first_occurrences xs = xs"
  by (simp add: first_occurrences_def distinct_remdups_id)

lemma first_occurrences_skip:
  "x \<in> set acc \<Longrightarrow> first_occurrences (acc @ x # xs) = first_occurrences (acc @ xs)"
  by (simp add: first_occurrences_def remdups_append_mem)

text \<open>The loop invariant: \<open>seen\<close> is the set of the lines pushed so far, all different.\<close>

lemma parse_loop_first_occurrences:
  "distinct acc \<Longrightarrow>
   parse_loop ls (set acc) acc =
     first_occurrences (acc @ filter (\<lambda>l. l \<noteq> []) (map js_trim ls))"
proof (induction ls arbitrary: acc)
  case Nil
  then show ?case by (simp add: first_occurrences_id)
next
  case (Cons rawLine rest)
  show ?case
  proof (cases "js_trim rawLine = []")
    case True
    with Cons show ?thesis by simp
  next
    case False
    show ?thesis
    proof (cases "js_trim rawLine \<in> set acc")
      case True
      with False Cons show ?thesis by (simp add: first_occurrences_skip)
    next
      case new: False
      have d: "distinct (acc @ [js_trim rawLine])" using Cons.prems new by simp
      have "parse_loop (rawLine # rest) (set acc) acc =
            parse_loop rest (set (acc @ [js_trim rawLine])) (acc @ [js_trim rawLine])"
        using False new by (simp add: Let_def)
      also have "\<dots> = first_occurrences
          ((acc @ [js_trim rawLine]) @ filter (\<lambda>l. l \<noteq> []) (map js_trim rest))"
        by (rule Cons.IH [OF d])
      finally show ?thesis using False by simp
    qed
  qed
qed

lemma parseUniqueLines_eq: "parseUniqueLines t = first_occurrences (trimmed_lines t)"
  using parse_loop_first_occurrences [of "[]" "split_lines t"]
  by (simp add: parseUniqueLines_def trimmed_lines_def)

lemma split_lines_no_LF: "l \<in> set (split_lines t) \<Longrightarrow> LF \<notin> set l"
proof (induction t arbitrary: l rule: split_lines.induct)
  case 1
  then show ?case by simp
next
  case (2 c cs)
  then show ?case
    by (auto split: if_splits list.splits simp: LF_def CR_def)
qed

lemma split_lines_no_sep: "LF \<notin> set t \<Longrightarrow> split_lines t = [t]"
  by (induction t) (auto split: list.splits dest: hd_in_set)

lemma split_lines_LF:
  "LF \<notin> set a \<Longrightarrow> a = [] \<or> last a \<noteq> CR \<Longrightarrow> split_lines (a @ LF # b) = a # split_lines b"
proof (induction a)
  case Nil
  then show ?case by simp
next
  case (Cons c a)
  then show ?case by (cases a) (auto split: list.splits simp: LF_def CR_def)
qed

lemma split_lines_CRLF:
  "LF \<notin> set a \<Longrightarrow> split_lines (a @ CR # LF # b) = a # split_lines b"
proof (induction a)
  case Nil
  then show ?case by (simp add: LF_def CR_def)
next
  case (Cons c a)
  then show ?case by (cases a) (auto split: list.splits simp: LF_def CR_def)
qed

lemma js_trim_ends:
  assumes "js_trim s \<noteq> []"
  shows "\<not> js_whitespace (hd (js_trim s))" and "\<not> js_whitespace (last (js_trim s))"
proof -
  let ?a = "dropWhile js_whitespace s"
  let ?b = "dropWhile js_whitespace (rev ?a)"
  have b: "?b \<noteq> []" using assms by (simp add: js_trim_def)
  then have hb: "\<not> js_whitespace (hd ?b)" by (rule hd_dropWhile)
  have a: "?a \<noteq> []" using b by (metis dropWhile.simps(1) rev.simps(1))
  then have ha: "\<not> js_whitespace (hd ?a)" by (rule hd_dropWhile)
  have "\<exists>p. rev ?a = p @ ?b" by (metis takeWhile_dropWhile_id)
  then obtain p where p: "rev ?a = p @ ?b" by blast
  then have "last ?b = last (rev ?a)" using b by (metis last_appendR)
  then have "last ?b = hd ?a" using a by (simp add: last_rev)
  then have "hd (js_trim s) = hd ?a" using b by (simp add: js_trim_def hd_rev)
  then show "\<not> js_whitespace (hd (js_trim s))" using ha by simp
  have "last (js_trim s) = hd ?b" using b by (simp add: js_trim_def last_rev)
  then show "\<not> js_whitespace (last (js_trim s))" using hb by simp
qed

text \<open>
  C5, as amended. \<open>parseUniqueLines\<close> is a total function of its text. It cuts the text
  at every line feed and at every carriage return followed by a line feed (a carriage
  return alone is not a line ending for it), trims each piece, drops the empty ones, and
  keeps of the others the first occurrence of each, in the order of the text: the result
  has no duplicates, no empty entry, no entry with white space at either end, and the
  empty text gives the empty list.
\<close>

theorem parseUniqueLines_first_occurrences:
  "parseUniqueLines t = first_occurrences (trimmed_lines t)
   \<and> distinct (parseUniqueLines t)
   \<and> set (parseUniqueLines t) = {l \<in> js_trim ` set (split_lines t). l \<noteq> []}
   \<and> (\<forall>l \<in> set (parseUniqueLines t).
         l \<noteq> [] \<and> \<not> js_whitespace (hd l) \<and> \<not> js_whitespace (last l))
   \<and> parseUniqueLines [] = []
   \<and> (LF \<notin> set u \<longrightarrow> split_lines u = [u])
   \<and> (LF \<notin> set a \<and> (a = [] \<or> last a \<noteq> CR) \<longrightarrow>
        split_lines (a @ [LF] @ b) = a # split_lines b)
   \<and> (LF \<notin> set a \<longrightarrow> split_lines (a @ [CR, LF] @ b) = a # split_lines b)"
proof -
  have eq: "parseUniqueLines t = first_occurrences (trimmed_lines t)"
    by (rule parseUniqueLines_eq)
  have s: "set (parseUniqueLines t) = {l \<in> js_trim ` set (split_lines t). l \<noteq> []}"
    by (auto simp: eq first_occurrences_set trimmed_lines_def)
  have e: "\<forall>l \<in> set (parseUniqueLines t).
         l \<noteq> [] \<and> \<not> js_whitespace (hd l) \<and> \<not> js_whitespace (last l)"
    unfolding s using js_trim_ends by auto
  have n: "parseUniqueLines [] = []"
    by (simp add: parseUniqueLines_def js_trim_def)
  show ?thesis
    using eq s e n split_lines_no_sep [of u] split_lines_LF [of a b] split_lines_CRLF [of a b]
    by (simp add: first_occurrences_distinct)
qed

theorem parseUniqueLines_first_occurrences_witness:
  "parseUniqueLines (''a'' @ [LF, LF] @ ''b'' @ [LF] @ ''a'' @ [LF] @ ''  '' @ [LF] @ ''b'' @ [LF])
     = [''a'', ''b'']
   \<and> LF \<notin> set ''x y''
   \<and> split_lines ''x y'' = [''x y'']
   \<and> split_lines (''x'' @ [LF] @ ''y'') = [''x'', ''y'']
   \<and> split_lines (''x'' @ [CR, LF] @ ''y'') = [''x'', ''y'']"
proof -
  let ?t = "''a'' @ [LF, LF] @ ''b'' @ [LF] @ ''a'' @ [LF] @ ''  '' @ [LF] @ ''b'' @ [LF]"
  have tl: "trimmed_lines ?t = [''a'', ''b'', ''a'', ''b'']"
    by (simp add: trimmed_lines_def js_trim_def js_whitespace_def LF_def CR_def)
  have nolf: "LF \<notin> set ''x y''" and nolf': "LF \<notin> set ''x''" and nocr: "last ''x'' \<noteq> CR"
    and one: "split_lines ''y'' = [''y'']"
    by (simp_all add: LF_def CR_def)
  note th = parseUniqueLines_first_occurrences [of ?t "''x y''" "''x''" "''y''"]
  have p: "parseUniqueLines ?t = first_occurrences (trimmed_lines ?t)"
    by (rule th [THEN conjunct1])
  note rest = th [THEN conjunct2, THEN conjunct2, THEN conjunct2, THEN conjunct2, THEN conjunct2]
  have s1: "split_lines ''x y'' = [''x y'']"
    using rest [THEN conjunct1] nolf by (rule mp)
  have s2: "split_lines (''x'' @ [LF] @ ''y'') = ''x'' # split_lines ''y''"
    using rest [THEN conjunct2, THEN conjunct1] nolf' nocr by blast
  have s3: "split_lines (''x'' @ [CR, LF] @ ''y'') = ''x'' # split_lines ''y''"
    using rest [THEN conjunct2, THEN conjunct2] nolf' by (rule mp)
  have "parseUniqueLines ?t = [''a'', ''b'']"
    unfolding p tl by (simp add: first_occurrences_Cons first_occurrences_Nil)
  with s1 s2 s3 nolf one show ?thesis by simp
qed

text \<open>
  C5 as stated fails for a text whose lines end in a carriage return alone: the two
  lines come out as one entry, with the carriage return inside it.
\<close>

theorem parseUniqueLines_lone_CR:
  "parseUniqueLines (''a'' @ [CR] @ ''b'') = [''a'' @ [CR] @ ''b'']
   \<and> parseUniqueLines (''a'' @ [CR] @ ''b'') \<noteq> [''a'', ''b'']"
  by (simp add: parseUniqueLines_def js_trim_def js_whitespace_def LF_def CR_def)


section \<open>Properties of the truncation\<close>

lemma lastIndexOf_from_absent: "c \<notin> set xs \<Longrightarrow> lastIndexOf_from xs c i f = f"
  by (induction xs arbitrary: i f) auto

lemma lastIndexOf_from_last:
  "c \<notin> set ys \<Longrightarrow> lastIndexOf_from (xs @ c # ys) c i f = i + int (length xs)"
  by (induction xs arbitrary: i f) (auto simp: lastIndexOf_from_absent)

lemma lastIndexOf_absent: "c \<notin> set s \<Longrightarrow> lastIndexOf s c = - 1"
  by (simp add: lastIndexOf_def lastIndexOf_from_absent)

lemma lastIndexOf_last: "c \<notin> set ys \<Longrightarrow> lastIndexOf (xs @ c # ys) c = int (length xs)"
  by (simp add: lastIndexOf_def lastIndexOf_from_last)

lemma truncateDiff_short:
  "length t \<le> m \<Longrightarrow> truncateDiff t m = \<lparr>truncated = False, text_field = t\<rparr>"
  by (simp add: truncateDiff_def)

lemma ends_at_line_boundary_take:
  assumes "k < length t" and "t ! k = LF"
  shows "ends_at_line_boundary t (take k t)"
proof -
  have "t = take k t @ t ! k # drop (Suc k) t" using assms(1) by (rule id_take_nth_drop)
  then have "t = (take k t @ [LF]) @ drop (Suc k) t" using assms(2) by simp
  then show ?thesis unfolding ends_at_line_boundary_def by (metis prefixI)
qed

lemma truncateDiff_at_boundary:
  assumes long: "m < length t" and ex: "\<exists>k. 0 < k \<and> k < m \<and> t ! k = LF"
  shows "\<exists>k. 0 < k \<and> k < m \<and> t ! k = LF \<and> (\<forall>j. k < j \<and> j < m \<longrightarrow> t ! j \<noteq> LF)
             \<and> truncateDiff t m = \<lparr>truncated = True, text_field = take k t @ truncation_note\<rparr>
             \<and> ends_at_line_boundary t (take k t)"
proof -
  let ?slice = "take m t"
  have len: "length ?slice = m" using long by simp
  from ex obtain k0 where k0: "0 < k0" "k0 < m" "t ! k0 = LF" by blast
  then have "?slice ! k0 = LF" by simp
  then have "LF \<in> set ?slice" using k0(2) len by (metis nth_mem)
  then obtain a b where ab: "?slice = a @ LF # b" and nb: "LF \<notin> set b"
    by (auto dest: split_list_last)
  have lab: "m = length a + 1 + length b" proof -
    have "length ?slice = length (a @ LF # b)" using ab by simp
    then show ?thesis using len by simp
  qed
  have a_ne: "a \<noteq> []"
  proof
    assume "a = []"
    then have "?slice ! k0 = b ! (k0 - 1)" using ab k0(1) by (simp add: nth_Cons')
    moreover have "k0 - 1 < length b" using lab k0 \<open>a = []\<close> by simp
    ultimately have "LF \<in> set b" using \<open>?slice ! k0 = LF\<close> by (metis nth_mem)
    with nb show False by simp
  qed
  let ?k = "length a"
  have kpos: "0 < ?k" using a_ne by simp
  have klt: "?k < m" using lab by simp
  have "?slice ! ?k = LF" using ab by simp
  then have tk: "t ! ?k = LF" using klt by simp
  have later: "\<forall>j. ?k < j \<and> j < m \<longrightarrow> t ! j \<noteq> LF"
  proof (intro allI impI)
    fix j assume j: "?k < j \<and> j < m"
    then have "?slice ! j = b ! (j - ?k - 1)" using ab by (simp add: nth_append nth_Cons')
    moreover have "j - ?k - 1 < length b" using j lab by auto
    ultimately have "?slice ! j \<in> set b" by (metis nth_mem)
    then have "?slice ! j \<noteq> LF" using nb by metis
    then show "t ! j \<noteq> LF" using j by simp
  qed
  have idx: "lastIndexOf ?slice LF = int ?k" using ab nb by (simp add: lastIndexOf_last)
  have "take ?k ?slice = take ?k t" using klt by (simp add: min_def)
  then have res: "truncateDiff t m = \<lparr>truncated = True, text_field = take ?k t @ truncation_note\<rparr>"
    using long idx kpos by (simp add: truncateDiff_def Let_def)
  have bd: "ends_at_line_boundary t (take ?k t)"
    using klt long tk by (intro ends_at_line_boundary_take) simp_all
  from kpos klt tk later res bd show ?thesis by blast
qed

lemma truncateDiff_raw_slice:
  assumes long: "m < length t" and no: "\<not> (\<exists>k. 0 < k \<and> k < m \<and> t ! k = LF)"
  shows "truncateDiff t m = \<lparr>truncated = True, text_field = take m t @ truncation_note\<rparr>"
proof -
  let ?slice = "take m t"
  have len: "length ?slice = m" using long by simp
  have "\<not> lastIndexOf ?slice LF > 0"
  proof (cases "LF \<in> set ?slice")
    case False
    then show ?thesis by (simp add: lastIndexOf_absent)
  next
    case True
    then obtain a b where ab: "?slice = a @ LF # b" and nb: "LF \<notin> set b"
      by (auto dest: split_list_last)
    have lab: "m = length a + 1 + length b"
    proof -
      have "length ?slice = length (a @ LF # b)" using ab by simp
      then show ?thesis using len by simp
    qed
    have "a = []"
    proof (rule ccontr)
      assume "a \<noteq> []"
      then have "0 < length a" by simp
      moreover have "length a < m" using lab by simp
      moreover have "?slice ! length a = LF" using ab by simp
      then have "t ! length a = LF" using \<open>length a < m\<close> by simp
      ultimately show False using no by blast
    qed
    then show ?thesis using ab nb lastIndexOf_last [of LF b a] by simp
  qed
  then show ?thesis using long by (simp add: truncateDiff_def Let_def)
qed

text \<open>
  C4, as amended. A text within the budget comes back unchanged, with
  \<open>truncated = false\<close>. A longer text that has a line feed at some index from 1 up to
  the budget is cut right before the last such line feed, so the kept part is made of
  whole lines and ends at a line boundary of the original, and the note is appended,
  with \<open>truncated = true\<close>. A longer text with no line feed at those indices (none in
  the slice at all, or the only one being its very first character) keeps the raw slice
  of the first \<open>maxChars\<close> characters, followed by the note, with \<open>truncated = true\<close>.
\<close>

theorem truncateDiff_contract:
  "(length t \<le> m \<longrightarrow> truncateDiff t m = \<lparr>truncated = False, text_field = t\<rparr>)
   \<and> (m < length t \<and> (\<exists>k. 0 < k \<and> k < m \<and> t ! k = LF) \<longrightarrow>
        (\<exists>k. 0 < k \<and> k < m \<and> t ! k = LF \<and> (\<forall>j. k < j \<and> j < m \<longrightarrow> t ! j \<noteq> LF)
             \<and> truncateDiff t m = \<lparr>truncated = True, text_field = take k t @ truncation_note\<rparr>
             \<and> ends_at_line_boundary t (take k t)))
   \<and> (m < length t \<and> \<not> (\<exists>k. 0 < k \<and> k < m \<and> t ! k = LF) \<longrightarrow>
        truncateDiff t m = \<lparr>truncated = True, text_field = take m t @ truncation_note\<rparr>)"
  using truncateDiff_short [of t m] truncateDiff_at_boundary [of m t]
    truncateDiff_raw_slice [of m t]
  by blast

theorem truncateDiff_contract_witness:
  "truncateDiff ''ab'' 5 = \<lparr>truncated = False, text_field = ''ab''\<rparr>
   \<and> 5 < length (''ab'' @ [LF] @ ''cdef'')
   \<and> (\<exists>k. 0 < k \<and> k < 5 \<and> (''ab'' @ [LF] @ ''cdef'') ! k = LF)
   \<and> (\<exists>k. truncateDiff (''ab'' @ [LF] @ ''cdef'') 5
             = \<lparr>truncated = True, text_field = take k (''ab'' @ [LF] @ ''cdef'') @ truncation_note\<rparr>
           \<and> ends_at_line_boundary (''ab'' @ [LF] @ ''cdef'') (take k (''ab'' @ [LF] @ ''cdef'')))
   \<and> 3 < length ''abcdef''
   \<and> \<not> (\<exists>k. 0 < k \<and> k < 3 \<and> ''abcdef'' ! k = LF)
   \<and> truncateDiff ''abcdef'' 3 = \<lparr>truncated = True, text_field = ''abc'' @ truncation_note\<rparr>"
proof -
  let ?t = "''ab'' @ [LF] @ ''cdef''"
  have short: "length ''ab'' \<le> (5::nat)" by simp
  have long: "5 < length ?t" by simp
  have nl: "\<exists>k. 0 < k \<and> k < 5 \<and> ?t ! k = LF"
    by (intro exI [of _ 2]) simp
  have long': "3 < length ''abcdef''" by simp
  have none: "\<not> (\<exists>k. 0 < k \<and> k < 3 \<and> ''abcdef'' ! k = LF)"
  proof
    assume "\<exists>k. 0 < k \<and> k < 3 \<and> ''abcdef'' ! k = LF"
    then obtain k where k: "0 < k" "k < 3" "''abcdef'' ! k = LF" by blast
    then have "k = 1 \<or> k = 2" by arith
    with k(3) show False by (auto simp: LF_def)
  qed
  have a: "truncateDiff ''ab'' 5 = \<lparr>truncated = False, text_field = ''ab''\<rparr>"
    using truncateDiff_contract [of "''ab''" 5] short by blast
  have b: "\<exists>k. truncateDiff ?t 5 = \<lparr>truncated = True, text_field = take k ?t @ truncation_note\<rparr>
               \<and> ends_at_line_boundary ?t (take k ?t)"
    using truncateDiff_contract [of ?t 5] long nl by blast
  have "truncateDiff ''abcdef'' 3
          = \<lparr>truncated = True, text_field = take 3 ''abcdef'' @ truncation_note\<rparr>"
    using truncateDiff_contract [of "''abcdef''" 3] long' none by blast
  then have c: "truncateDiff ''abcdef'' 3 = \<lparr>truncated = True, text_field = ''abc'' @ truncation_note\<rparr>"
    by simp
  from a long nl b long' none c show ?thesis by blast
qed

text \<open>
  C4 as stated fails when the only line feed of the slice is its first character: the
  text is longer than the budget and a line feed lies within the first \<open>maxChars\<close>
  characters, yet the raw slice is kept and the line \<open>abcdef\<close> is cut after \<open>ab\<close>.
\<close>

theorem truncateDiff_cuts_mid_line:
  "length (LF # ''abcdef'') > 3
   \<and> LF \<in> set (take 3 (LF # ''abcdef''))
   \<and> truncateDiff (LF # ''abcdef'') 3
       = \<lparr>truncated = True, text_field = (LF # ''ab'') @ truncation_note\<rparr>
   \<and> \<not> ends_at_line_boundary (LF # ''abcdef'') (LF # ''ab'')"
  by (simp add: truncateDiff_def lastIndexOf_def ends_at_line_boundary_def LF_def)

section \<open>Properties of the guard\<close>

lemma js_includes_sublist: "js_includes s m \<longleftrightarrow> sublist m s"
  by (induction s) (simp_all add: sublist_Cons_right)

lemma js_includes_prefix: "prefix m s \<Longrightarrow> js_includes s m"
  by (cases s) simp_all

lemma scan_page_found:
  "list_ex (\<lambda>c. body_includes c marker) (take (MAX_COMMENTS_TO_SCAN - scanned) page) \<Longrightarrow>
   scanned < MAX_COMMENTS_TO_SCAN \<Longrightarrow>
   scan_page atCap marker page scanned = Returned True"
proof (induction page arbitrary: scanned)
  case Nil
  then show ?case by simp
next
  case (Cons c page)
  show ?case
  proof (cases "body_includes c marker")
    case True
    then show ?thesis by simp
  next
    case False
    from Cons.prems obtain k where k: "MAX_COMMENTS_TO_SCAN - scanned = Suc k"
      by (cases "MAX_COMMENTS_TO_SCAN - scanned") auto
    with Cons.prems False have ex: "list_ex (\<lambda>c. body_includes c marker) (take k page)"
      by simp
    then have "k \<noteq> 0" by (cases k) auto
    with k have lt: "scanned + 1 < MAX_COMMENTS_TO_SCAN" by arith
    from k have "MAX_COMMENTS_TO_SCAN - (scanned + 1) = k" by arith
    with ex lt Cons.IH [of "scanned + 1"]
    have "scan_page atCap marker page (scanned + 1) = Returned True"
      by simp
    with False lt show ?thesis by simp
  qed
qed

lemma scan_page_not_found:
  "\<not> list_ex (\<lambda>c. body_includes c marker) (take (MAX_COMMENTS_TO_SCAN - scanned) page) \<Longrightarrow>
   scanned < MAX_COMMENTS_TO_SCAN \<Longrightarrow>
   scan_page atCap marker page scanned =
     (if MAX_COMMENTS_TO_SCAN \<le> scanned + length page then Returned atCap
      else Scanned (scanned + length page))"
proof (induction page arbitrary: scanned)
  case Nil
  then show ?case by simp
next
  case (Cons c page)
  from Cons.prems obtain k where k: "MAX_COMMENTS_TO_SCAN - scanned = Suc k"
    by (cases "MAX_COMMENTS_TO_SCAN - scanned") auto
  with Cons.prems have nb: "\<not> body_includes c marker"
    and nex: "\<not> list_ex (\<lambda>c. body_includes c marker) (take k page)" by simp_all
  show ?case
  proof (cases "scanned + 1 \<ge> MAX_COMMENTS_TO_SCAN")
    case True
    with nb show ?thesis by simp
  next
    case False
    then have lt: "scanned + 1 < MAX_COMMENTS_TO_SCAN" by simp
    from k have "MAX_COMMENTS_TO_SCAN - (scanned + 1) = k" by arith
    with nex lt Cons.IH [of "scanned + 1"]
    have "scan_page atCap marker page (scanned + 1) =
      (if MAX_COMMENTS_TO_SCAN \<le> scanned + 1 + length page then Returned atCap
       else Scanned (scanned + 1 + length page))" by simp
    with nb False show ?thesis by simp
  qed
qed

text \<open>What the scan returns, from any value of the counter below the cap.\<close>

lemma scan_pages_returned:
  "scanned < MAX_COMMENTS_TO_SCAN \<Longrightarrow>
   returned (scan_pages atCap marker events scanned n) =
     (if list_ex (\<lambda>c. body_includes c marker)
           (take (MAX_COMMENTS_TO_SCAN - scanned) (delivered events)) then Inr True
      else if MAX_COMMENTS_TO_SCAN \<le> scanned + length (delivered events) then Inr atCap
      else (case first_throw events of None \<Rightarrow> Inr False | Some e \<Rightarrow> Inl e))"
proof (induction events arbitrary: scanned n)
  case Nil
  then show ?case by simp
next
  case (Cons ev events)
  show ?case
  proof (cases ev)
    case (Throws e)
    with Cons.prems show ?thesis by simp
  next
    case (Page page)
    let ?P = "\<lambda>c. body_includes c marker"
    let ?M = MAX_COMMENTS_TO_SCAN
    have split: "list_ex ?P (take (?M - scanned) (delivered (ev # events))) =
        (list_ex ?P (take (?M - scanned) page)
         \<or> list_ex ?P (take (?M - (scanned + length page)) (delivered events)))"
      using Page by (auto simp: list_ex_iff)
    have len: "length (delivered (ev # events)) = length page + length (delivered events)"
      using Page by simp
    have thr: "first_throw (ev # events) = first_throw events"
      using Page by simp
    show ?thesis
    proof (cases "list_ex ?P (take (?M - scanned) page)")
      case True
      then have "scan_page atCap marker page scanned = Returned True"
        using Cons.prems by (rule scan_page_found)
      then have "returned (scan_pages atCap marker (ev # events) scanned n) = Inr True"
        using Page by simp
      moreover have "list_ex ?P (take (?M - scanned) (delivered (ev # events)))"
        using split True by blast
      ultimately show ?thesis by (simp only: if_True)
    next
      case nf: False
      then have sp: "scan_page atCap marker page scanned =
          (if ?M \<le> scanned + length page then Returned atCap
           else Scanned (scanned + length page))"
        using Cons.prems by (rule scan_page_not_found)
      show ?thesis
      proof (cases "?M \<le> scanned + length page")
        case True
        then have "\<not> list_ex ?P (take (?M - (scanned + length page)) (delivered events))"
          by simp
        then have "\<not> list_ex ?P (take (?M - scanned) (delivered (ev # events)))"
          using split nf by blast
        moreover have "?M \<le> scanned + length (delivered (ev # events))"
          using True len by simp
        moreover have "returned (scan_pages atCap marker (ev # events) scanned n) = Inr atCap"
          using Page sp True by simp
        ultimately show ?thesis by (simp only: if_True if_False)
      next
        case False
        then have lt: "scanned + length page < ?M" by simp
        from sp False have "scan_page atCap marker page scanned = Scanned (scanned + length page)"
          by simp
        with Page have "returned (scan_pages atCap marker (ev # events) scanned n) =
            returned (scan_pages atCap marker events (scanned + length page) (n + 1))"
          by simp
        also note Cons.IH [OF lt, of "n + 1"]
        finally show ?thesis
          unfolding split len thr using nf by (simp only: simp_thms add.assoc)
      qed
    qed
  qed
qed

lemma scan_verdict:
  "returned (scan_pages atCap marker events 0 0) =
     (if marker_scanned marker events then Inr True
      else if cap_reached events then Inr atCap
      else (case first_throw events of None \<Rightarrow> Inr False | Some e \<Rightarrow> Inl e))"
  using scan_pages_returned [of 0 atCap marker events 0]
  by (simp add: marker_scanned_def scanned_comments_def cap_reached_def MAX_COMMENTS_TO_SCAN_def)

lemma scan_pages_requests: "requests (scan_pages atCap marker events scanned n) \<le> n + length events"
proof (induction events arbitrary: scanned n)
  case Nil
  then show ?case by simp
next
  case (Cons ev events)
  show ?case
  proof (cases ev)
    case (Throws e)
    then show ?thesis by simp
  next
    case (Page page)
    show ?thesis
    proof (cases "scan_page atCap marker page scanned")
      case (Returned b)
      with Page show ?thesis by simp
    next
      case (Scanned s)
      with Page Cons.IH [of s "n + 1"] show ?thesis by simp
    qed
  qed
qed

lemma guard_contract_found:
  "found (hasExistingTriggerComment_contract github owner repo issueNumber marker) =
     (marker_scanned marker (paginate_listComments github)
      \<or> cap_reached (paginate_listComments github)
      \<or> first_throw (paginate_listComments github) \<noteq> None)"
  using scan_verdict [of True marker "paginate_listComments github"]
  by (auto simp: hasExistingTriggerComment_contract_def Let_def split: sum.splits option.splits)

lemma guard_generated_found:
  "found (hasExistingTriggerComment_generated github owner repo issueNumber marker) =
     marker_scanned marker (paginate_listComments github)"
  using scan_verdict [of False marker "paginate_listComments github"]
  by (auto simp: hasExistingTriggerComment_generated_def Let_def split: sum.splits option.splits)

lemma guard_contract_calls:
  "guard_calls (hasExistingTriggerComment_contract github owner repo issueNumber marker) =
     replicate (requests (scan_pages True marker (paginate_listComments github) 0 0))
       (IssuesListComments issueNumber)"
  by (simp add: hasExistingTriggerComment_contract_def Let_def split: sum.splits)

lemma guard_generated_calls:
  "guard_calls (hasExistingTriggerComment_generated github owner repo issueNumber marker) =
     replicate (requests (scan_pages False marker (paginate_listComments github) 0 0))
       (IssuesListComments issueNumber)"
  by (simp add: hasExistingTriggerComment_generated_def Let_def split: sum.splits)

text \<open>A scan is decided on a list of events when it needs nothing that comes after them.\<close>

lemma scan_pages_stop:
  "list_ex (\<lambda>c. body_includes c marker)
      (take (MAX_COMMENTS_TO_SCAN - scanned) (delivered events))
   \<or> MAX_COMMENTS_TO_SCAN \<le> scanned + length (delivered events)
   \<or> first_throw events \<noteq> None \<Longrightarrow>
   scanned < MAX_COMMENTS_TO_SCAN \<Longrightarrow>
   scan_pages atCap marker (events @ later) scanned n = scan_pages atCap marker events scanned n"
proof (induction events arbitrary: scanned n)
  case Nil
  then show ?case by simp
next
  case (Cons ev events)
  show ?case
  proof (cases ev)
    case (Throws e)
    then show ?thesis by simp
  next
    case (Page page)
    let ?P = "\<lambda>c. body_includes c marker"
    let ?M = MAX_COMMENTS_TO_SCAN
    show ?thesis
    proof (cases "scan_page atCap marker page scanned")
      case (Returned b)
      with Page show ?thesis by simp
    next
      case (Scanned s)
      have nf: "\<not> list_ex ?P (take (?M - scanned) page)"
      proof
        assume "list_ex ?P (take (?M - scanned) page)"
        then have "scan_page atCap marker page scanned = Returned True"
          using Cons.prems(2) by (rule scan_page_found)
        with Scanned show False by simp
      qed
      from scan_page_not_found [OF nf Cons.prems(2), of atCap] Scanned
      have s: "s = scanned + length page" and lt: "scanned + length page < ?M"
        by (auto split: if_splits)
      have split: "list_ex ?P (take (?M - scanned) (delivered (ev # events))) =
            (list_ex ?P (take (?M - scanned) page)
             \<or> list_ex ?P (take (?M - (scanned + length page)) (delivered events)))"
        using Page by (auto simp: list_ex_iff)
      have len: "length (delivered (ev # events)) = length page + length (delivered events)"
        using Page by simp
      have thr: "first_throw (ev # events) = first_throw events"
        using Page by simp
      from Cons.prems(1) have "list_ex ?P (take (?M - s) (delivered events))
          \<or> ?M \<le> s + length (delivered events) \<or> first_throw events \<noteq> None"
        unfolding split len thr s using nf by (simp only: simp_thms add.assoc)
      from Cons.IH [OF this, of "n + 1"] lt s Scanned Page show ?thesis by simp
    qed
  qed
qed

lemma scan_pages_undecided:
  "\<not> list_ex (\<lambda>c. body_includes c marker)
      (take (MAX_COMMENTS_TO_SCAN - scanned) (delivered events)) \<Longrightarrow>
   scanned + length (delivered events) < MAX_COMMENTS_TO_SCAN \<Longrightarrow>
   first_throw events = None \<Longrightarrow>
   scan_pages atCap marker (events @ later) scanned n
     = scan_pages atCap marker later (scanned + length (delivered events)) (n + length events)"
proof (induction events arbitrary: scanned n)
  case Nil
  then show ?case by simp
next
  case (Cons ev events)
  show ?case
  proof (cases ev)
    case (Throws e)
    with Cons.prems show ?thesis by simp
  next
    case (Page page)
    let ?P = "\<lambda>c. body_includes c marker"
    let ?M = MAX_COMMENTS_TO_SCAN
    have split: "list_ex ?P (take (?M - scanned) (delivered (ev # events))) =
          (list_ex ?P (take (?M - scanned) page)
           \<or> list_ex ?P (take (?M - (scanned + length page)) (delivered events)))"
      using Page by (auto simp: list_ex_iff)
    have len: "length (delivered (ev # events)) = length page + length (delivered events)"
      using Page by simp
    have thr: "first_throw (ev # events) = first_throw events"
      using Page by simp
    from Cons.prems(1) split have nf: "\<not> list_ex ?P (take (?M - scanned) page)"
      and nf': "\<not> list_ex ?P (take (?M - (scanned + length page)) (delivered events))"
      by blast+
    from Cons.prems(2) len have lt: "scanned < ?M" and lt': "scanned + length page < ?M"
      and lt'': "scanned + length page + length (delivered events) < ?M"
      by simp_all
    from scan_page_not_found [OF nf lt, of atCap] lt'
    have sp: "scan_page atCap marker page scanned = Scanned (scanned + length page)" by simp
    from Cons.prems(3) thr have th': "first_throw events = None" by simp
    from Cons.IH [OF nf' lt'' th', of "n + 1"] sp Page len
    show ?thesis by (simp add: add.assoc)
  qed
qed

lemma scan_decided_stop:
  "marker_scanned marker events \<or> cap_reached events \<or> first_throw events \<noteq> None \<Longrightarrow>
   scan_pages atCap marker (events @ later) 0 0 = scan_pages atCap marker events 0 0"
  by (rule scan_pages_stop)
     (simp_all add: marker_scanned_def scanned_comments_def cap_reached_def
       MAX_COMMENTS_TO_SCAN_def)

lemma scan_undecided_all:
  "\<not> marker_scanned marker events \<Longrightarrow> \<not> cap_reached events \<Longrightarrow> first_throw events = None \<Longrightarrow>
   scan_pages atCap marker events 0 0 = \<lparr>returned = Inr False, requests = length events\<rparr>"
  using scan_pages_undecided [of marker 0 events atCap "[]" 0]
  by (simp add: marker_scanned_def scanned_comments_def cap_reached_def)

lemma guard_contract_stop:
  "marker_scanned marker events \<or> cap_reached events \<or> first_throw events \<noteq> None \<Longrightarrow>
   hasExistingTriggerComment_contract (github\<lparr>paginate_listComments := events @ later\<rparr>)
       owner repo issueNumber marker
     = hasExistingTriggerComment_contract (github\<lparr>paginate_listComments := events\<rparr>)
         owner repo issueNumber marker"
  by (simp add: hasExistingTriggerComment_contract_def scan_decided_stop)

lemma guard_generated_stop:
  "marker_scanned marker events \<or> cap_reached events \<or> first_throw events \<noteq> None \<Longrightarrow>
   hasExistingTriggerComment_generated (github\<lparr>paginate_listComments := events @ later\<rparr>)
       owner repo issueNumber marker
     = hasExistingTriggerComment_generated (github\<lparr>paginate_listComments := events\<rparr>)
         owner repo issueNumber marker"
  by (simp add: hasExistingTriggerComment_generated_def scan_decided_stop)

lemma guard_contract_all:
  "\<not> marker_scanned marker (paginate_listComments github) \<Longrightarrow>
   \<not> cap_reached (paginate_listComments github) \<Longrightarrow>
   first_throw (paginate_listComments github) = None \<Longrightarrow>
   hasExistingTriggerComment_contract github owner repo issueNumber marker
     = \<lparr>found = False, guard_logged = [],
        guard_calls = replicate (length (paginate_listComments github))
                        (IssuesListComments issueNumber)\<rparr>"
  by (simp add: hasExistingTriggerComment_contract_def scan_undecided_all)

lemma guard_generated_all:
  "\<not> marker_scanned marker (paginate_listComments github) \<Longrightarrow>
   \<not> cap_reached (paginate_listComments github) \<Longrightarrow>
   first_throw (paginate_listComments github) = None \<Longrightarrow>
   hasExistingTriggerComment_generated github owner repo issueNumber marker
     = \<lparr>found = False, guard_logged = [],
        guard_calls = replicate (length (paginate_listComments github))
                        (IssuesListComments issueNumber)\<rparr>"
  by (simp add: hasExistingTriggerComment_generated_def scan_undecided_all)

lemma guard_contract_calls_bound:
  "length (guard_calls (hasExistingTriggerComment_contract github owner repo issueNumber marker))
     \<le> length (paginate_listComments github)"
  using scan_pages_requests [of True marker "paginate_listComments github" 0 0]
  by (simp add: guard_contract_calls)

lemma guard_generated_calls_bound:
  "length (guard_calls (hasExistingTriggerComment_generated github owner repo issueNumber marker))
     \<le> length (paginate_listComments github)"
  using scan_pages_requests [of False marker "paginate_listComments github" 0 0]
  by (simp add: guard_generated_calls)


section \<open>Scans that end at the cap or in a throw\<close>

lemma scan_throw:
  "\<not> marker_scanned marker events \<Longrightarrow> \<not> cap_reached events \<Longrightarrow>
   first_throw events = Some error \<Longrightarrow>
   returned (scan_pages atCap marker events 0 0) = Inl error"
  by (simp add: scan_verdict)

lemma scan_cap:
  "\<not> marker_scanned marker events \<Longrightarrow> cap_reached events \<Longrightarrow>
   returned (scan_pages atCap marker events 0 0) = Inr atCap"
  by (simp add: scan_verdict)

lemma not_marker_scanned:
  "\<forall>c \<in> set (delivered events). \<not> body_includes c marker \<Longrightarrow> \<not> marker_scanned marker events"
  by (auto simp: marker_scanned_def scanned_comments_def list_ex_iff dest: in_set_takeD)

lemma plain_no_marker_contract: "\<not> body_includes plain_comment (marker_contract h)"
  by (simp add: body_includes_def plain_comment_def marker_contract_def MARKER_PREFIX_contract_def)

lemma busy_delivered: "set (delivered busy_events) = {plain_comment}"
  and busy_length: "length (delivered busy_events) = 500"
  by (simp_all add: busy_events_def hundred_plain_def)

lemma failing_delivered: "set (delivered failing_events) = {plain_comment}"
  and failing_length: "length (delivered failing_events) = 100"
  and failing_throw: "first_throw failing_events = Some server_error"
  by (simp_all add: failing_events_def hundred_plain_def)

section \<open>What the guards scan\<close>

text \<open>Every body starts with the marker it was given, so the marker is a substring of it.\<close>

lemma contract_body_marker:
  "prefix marker (buildCommentBody_contract marker baseSha headSha changedFiles diffSnippet
     truncated' scopeMode scopeReason validationStatus validationChecks)"
  by (simp add: buildCommentBody_contract_def Let_def)

lemma generated_body_marker:
  "prefix marker (buildCommentBody_generated marker baseSha headSha changedFiles diffSnippet
     truncated' scopeMode scopeReason)"
  by (simp add: buildCommentBody_generated_def Let_def)

lemma body_includes_prefix: "body c = Some b \<Longrightarrow> prefix marker b \<Longrightarrow> body_includes c marker"
  by (simp add: body_includes_def js_includes_prefix)

lemma linkbot_body_marker:
  "prefix LINKBOT_MISSING_ISSUE_MARKER (commentBody_linkbot context authorLogin)"
  by (simp add: commentBody_linkbot_def Let_def)

lemma linkbot_body_includes:
  "body_includes \<lparr>body = Some (commentBody_linkbot context authorLogin)\<rparr> LINKBOT_MISSING_ISSUE_MARKER"
  by (simp add: body_includes_def js_includes_prefix linkbot_body_marker)

lemma plain_no_linkbot_marker: "\<not> body_includes plain_comment LINKBOT_MISSING_ISSUE_MARKER"
  by (simp add: body_includes_def plain_comment_def LINKBOT_MISSING_ISSUE_MARKER_def)

lemma ann_not_bot: "\<not> is_bot_author pr7"
  by (simp add: is_bot_author_def pr7_def ann_def js_endsWith_def suffix_to_prefix)

lemma body_includes_iff:
  "body_includes c marker \<longleftrightarrow> (\<exists>b. body c = Some b \<and> sublist marker b)"
  by (simp add: body_includes_def js_includes_sublist split: option.splits)

lemma marker_scanned_iff:
  "marker_scanned marker events \<longleftrightarrow>
     (\<exists>c \<in> set (take 500 (delivered events)). \<exists>b. body c = Some b \<and> sublist marker b)"
  by (simp add: marker_scanned_def scanned_comments_def MAX_COMMENTS_TO_SCAN_def list_ex_iff
      body_includes_iff)

lemma alreadyCommentedMissingIssue_iff:
  "alreadyCommentedMissingIssue data \<longleftrightarrow>
     (\<exists>c \<in> set data. \<exists>b. body c = Some b \<and> sublist LINKBOT_MISSING_ISSUE_MARKER b)"
  by (simp add: alreadyCommentedMissingIssue_def list_ex_iff body_includes_iff)

lemma guard_contract_read_only:
  "\<forall>call \<in> set (guard_calls (hasExistingTriggerComment_contract github owner repo issueNumber marker)).
     read_only_call call"
  by (simp add: guard_contract_calls read_only_call_def)

lemma guard_generated_read_only:
  "\<forall>call \<in> set (guard_calls (hasExistingTriggerComment_generated github owner repo issueNumber marker)).
     read_only_call call"
  by (simp add: guard_generated_calls read_only_call_def)

lemma scanned_comment_found:
  "c \<in> set (scanned_comments events) \<Longrightarrow> body_includes c marker \<Longrightarrow> marker_scanned marker events"
  by (auto simp: marker_scanned_def list_ex_iff)

section \<open>Properties of the orchestrators\<close>

lemma post_trigger_comment_created:
  "created (post_trigger_comment github owner repo prNumber body') =
     (if createComment github = None then [body'] else [])"
  by (simp add: post_trigger_comment_def split: option.splits)

lemma post_trigger_comment_fault:
  "fault (post_trigger_comment github owner repo prNumber body') =
     (case createComment github of
        None \<Rightarrow> None
      | Some error \<Rightarrow>
          (if status error = Some 403 \<or> status error = Some 404 then None else Some error))"
  by (simp add: post_trigger_comment_def split: option.splits)

lemma post_trigger_comment_calls:
  "calls (post_trigger_comment github owner repo prNumber body') =
     [IssuesCreateComment prNumber body']"
  by (simp add: post_trigger_comment_def split: option.splits)

lemma after_fields:
  "created (after cs ls out) = created out"
  "fault (after cs ls out) = fault out"
  "calls (after cs ls out) = cs @ calls out"
  "logged (after cs ls out) = ls @ logged out"
  by (simp_all add: after_def)

lemma log_and_return_fields:
  "created (log_and_return ls) = []"
  "fault (log_and_return ls) = None"
  "calls (log_and_return ls) = []"
  "logged (log_and_return ls) = ls"
  by (simp_all add: log_and_return_def)

lemma run_contract_found:
  "found (hasExistingTriggerComment_contract github (repo_owner context) (repo_name context)
       prNumber (marker_contract (env_or env ''HEAD_SHA'' []))) \<Longrightarrow>
   created (run_contract github context env fs prNumber) = []
   \<and> fault (run_contract github context env fs prNumber) = None"
  by (simp add: run_contract_def Let_def after_fields log_and_return_fields)

lemma run_generated_found:
  "found (hasExistingTriggerComment_generated github (repo_owner context) (repo_name context)
       prNumber (marker_generated (env_or env ''HEAD_SHA'' []))) \<Longrightarrow>
   created (run_generated github context env fs prNumber) = []
   \<and> fault (run_generated github context env fs prNumber) = None"
  by (simp add: run_generated_def Let_def after_fields log_and_return_fields)

lemma run_contract_created_marker:
  "b \<in> set (created (run_contract github context env fs prNumber)) \<Longrightarrow>
   prefix (marker_contract (env_or env ''HEAD_SHA'' [])) b"
  by (auto simp: run_contract_def Let_def after_fields log_and_return_fields
      post_trigger_comment_created contract_body_marker split: if_splits)

lemma run_generated_created_marker:
  "b \<in> set (created (run_generated github context env fs prNumber)) \<Longrightarrow>
   prefix (marker_generated (env_or env ''HEAD_SHA'' [])) b"
  by (auto simp: run_generated_def Let_def after_fields log_and_return_fields
      post_trigger_comment_created generated_body_marker split: if_splits)

lemma main_contract_cases:
  "main_contract github context env fs = no_pull_request
   \<or> (\<exists>prNumber. payload_pr_number context = Some prNumber \<and> prNumber \<noteq> 0
        \<and> main_contract github context env fs = run_contract github context env fs prNumber)"
  by (simp add: main_contract_def split: option.splits)

lemma main_generated_cases:
  "main_generated github context env fs = no_pull_request
   \<or> (\<exists>prNumber. payload_pr_number context = Some prNumber \<and> prNumber \<noteq> 0
        \<and> main_generated github context env fs = run_generated github context env fs prNumber)"
  by (simp add: main_generated_def split: option.splits)

lemma no_pull_request_fields:
  "created no_pull_request = []" "fault no_pull_request = None" "calls no_pull_request = []"
  by (simp_all add: no_pull_request_def log_and_return_fields)

section \<open>Properties of the missing-linked-issue script\<close>

lemma rethrown_fields:
  "created (rethrown error prNumber context) = []"
  "fault (rethrown error prNumber context) = Some error"
  "calls (rethrown error prNumber context) = []"
  by (simp_all add: rethrown_def)

lemma linkbot_with_pr_bot:
  "is_bot_author prData \<Longrightarrow>
   linkbot_with_pr github context isDryRun prNumber prData =
     log_and_return
       [Log (''Skipping comment: PR created by bot (''
             @ show_opt (case user prData of None \<Rightarrow> None | Some u \<Rightarrow> login u) @ '')'') []]"
  by (simp add: linkbot_with_pr_def Let_def)

lemma linkbot_with_pr_created:
  "created (linkbot_with_pr github context isDryRun prNumber prData) =
     (if reminder_due github context isDryRun prNumber prData \<and> createComment github = None
      then [commentBody_linkbot context (case user prData of None \<Rightarrow> None | Some u \<Rightarrow> login u)]
      else [])"
  by (auto simp: linkbot_with_pr_def reminder_due_def Let_def after_fields log_and_return_fields
      rethrown_fields split: sum.splits option.splits)

lemma linkbot_with_pr_attempted:
  "attempted_create (linkbot_with_pr github context isDryRun prNumber prData) =
     reminder_due github context isDryRun prNumber prData"
  by (auto simp: linkbot_with_pr_def reminder_due_def Let_def after_fields log_and_return_fields
      rethrown_fields attempted_create_def read_only_call_def split: sum.splits option.splits)

lemma linkbot_with_pr_fault:
  "fault (linkbot_with_pr github context isDryRun prNumber prData) =
     (if is_bot_author prData then None
      else (case listComments github of
              Inl e \<Rightarrow> Some e
            | Inr data \<Rightarrow>
                (if reminder_due github context isDryRun prNumber prData
                 then createComment github else None)))"
  by (auto simp: linkbot_with_pr_def reminder_due_def Let_def after_fields log_and_return_fields
      rethrown_fields split: sum.splits option.splits)

lemma attempted_create_after:
  "attempted_create (after cs ls out) = (list_ex (\<lambda>c. \<not> read_only_call c) cs \<or> attempted_create out)"
  by (simp add: attempted_create_def after_fields)

lemma attempted_create_rethrown: "\<not> attempted_create (rethrown error prNumber context)"
  by (simp add: attempted_create_def rethrown_fields)

lemma attempted_create_log_and_return: "\<not> attempted_create (log_and_return ls)"
  by (simp add: attempted_create_def log_and_return_fields)

text \<open>
  An invocation either throws before it has the pull request data, or goes on with
  them as \<open>linkbot_with_pr\<close> does.
\<close>

lemma linkbot_with_pr_listing_calls:
  "filter listing_call (calls (linkbot_with_pr github context isDryRun prNumber prData)) =
     (if is_bot_author prData then [] else [IssuesListComments prNumber])"
  by (auto simp: linkbot_with_pr_def Let_def after_fields log_and_return_fields
      rethrown_fields listing_call_def split: sum.splits option.splits)

lemma linkbot_with_number_shape:
  "(created (linkbot_with_number github context isDryRun prNumber) = []
      \<and> \<not> attempted_create (linkbot_with_number github context isDryRun prNumber)
      \<and> fault (linkbot_with_number github context isDryRun prNumber) \<noteq> None
      \<and> filter listing_call (calls (linkbot_with_number github context isDryRun prNumber)) = [])
   \<or> (\<exists>prData.
        created (linkbot_with_number github context isDryRun prNumber)
          = created (linkbot_with_pr github context isDryRun prNumber prData)
        \<and> attempted_create (linkbot_with_number github context isDryRun prNumber)
          = attempted_create (linkbot_with_pr github context isDryRun prNumber prData)
        \<and> fault (linkbot_with_number github context isDryRun prNumber)
          = fault (linkbot_with_pr github context isDryRun prNumber prData)
        \<and> filter listing_call (calls (linkbot_with_number github context isDryRun prNumber))
          = filter listing_call (calls (linkbot_with_pr github context isDryRun prNumber prData)))"
  by (auto simp: linkbot_with_number_def after_fields attempted_create_after rethrown_fields
      attempted_create_rethrown read_only_call_def listing_call_def
      split: option.splits sum.splits)

lemma main_linkbot_shape:
  "(created (main_linkbot github context env envPrNumber) = []
      \<and> \<not> attempted_create (main_linkbot github context env envPrNumber)
      \<and> fault (main_linkbot github context env envPrNumber) \<noteq> None
      \<and> filter listing_call (calls (main_linkbot github context env envPrNumber)) = [])
   \<or> (\<exists>prNumber prData.
        created (main_linkbot github context env envPrNumber)
          = created (linkbot_with_pr github context (env ''DRY_RUN'' = Some ''true'') prNumber prData)
        \<and> attempted_create (main_linkbot github context env envPrNumber)
          = attempted_create
              (linkbot_with_pr github context (env ''DRY_RUN'' = Some ''true'') prNumber prData)
        \<and> fault (main_linkbot github context env envPrNumber)
          = fault (linkbot_with_pr github context (env ''DRY_RUN'' = Some ''true'') prNumber prData)
        \<and> filter listing_call (calls (main_linkbot github context env envPrNumber))
          = filter listing_call
              (calls (linkbot_with_pr github context (env ''DRY_RUN'' = Some ''true'') prNumber
                 prData)))"
proof -
  let ?dry = "env ''DRY_RUN'' = Some ''true''"
  have "main_linkbot github context env envPrNumber = rethrown no_payload_error None context
      \<or> main_linkbot github context env envPrNumber = rethrown no_number_error None context
      \<or> main_linkbot github context env envPrNumber
          = rethrown no_number_error (Some (Num 0)) context
      \<or> (\<exists>n. main_linkbot github context env envPrNumber
          = linkbot_with_number github context ?dry n)"
    by (auto simp: main_linkbot_def number_from_payload_def Let_def split: option.splits)
  then show ?thesis
    using linkbot_with_number_shape [of github "context" "?dry"]
    by (elim disjE exE) (simp_all add: rethrown_fields attempted_create_rethrown, blast)
qed

text \<open>The script lists the comments at most once, and never through the iterator.\<close>

lemma main_linkbot_listing_calls:
  "length (filter listing_call (calls (main_linkbot github context env envPrNumber))) \<le> 1"
  using main_linkbot_shape [of github "context" env envPrNumber]
  by (auto simp: linkbot_with_pr_listing_calls)

lemma main_linkbot_created_listed:
  "created (main_linkbot github context env envPrNumber) \<noteq> [] \<Longrightarrow>
   length (filter listing_call (calls (main_linkbot github context env envPrNumber))) = 1
   \<and> (\<exists>data. listComments github = Inr data \<and> \<not> alreadyCommentedMissingIssue data)"
  using main_linkbot_shape [of github "context" env envPrNumber]
  by (auto simp: linkbot_with_pr_listing_calls linkbot_with_pr_created reminder_due_def
      split: if_splits sum.splits)

lemma getLinkedOpenIssues_no_iterator:
  "getLinkedOpenIssues (github\<lparr>paginate_listComments := events\<rparr>) owner repo prNumber
     = getLinkedOpenIssues github owner repo prNumber"
  by (simp add: getLinkedOpenIssues_def)

lemma linkbot_with_pr_no_iterator:
  "linkbot_with_pr (github\<lparr>paginate_listComments := events\<rparr>) context isDryRun prNumber prData
     = linkbot_with_pr github context isDryRun prNumber prData"
  by (simp add: linkbot_with_pr_def getLinkedOpenIssues_no_iterator Let_def
      cong: if_cong sum.case_cong option.case_cong)

lemma linkbot_with_number_no_iterator:
  "linkbot_with_number (github\<lparr>paginate_listComments := events\<rparr>) context isDryRun prNumber
     = linkbot_with_number github context isDryRun prNumber"
  by (simp add: linkbot_with_number_def linkbot_with_pr_no_iterator
      cong: if_cong sum.case_cong option.case_cong)

lemma main_linkbot_no_iterator:
  "main_linkbot (github\<lparr>paginate_listComments := events\<rparr>) context env envPrNumber
     = main_linkbot github context env envPrNumber"
  by (simp add: main_linkbot_def number_from_payload_def linkbot_with_number_no_iterator
      cong: if_cong sum.case_cong option.case_cong)

lemma main_linkbot_created_marker:
  "b \<in> set (created (main_linkbot github context env envPrNumber)) \<Longrightarrow> prefix LINKBOT_MISSING_ISSUE_MARKER b"
  using main_linkbot_shape [of github "context" env envPrNumber]
  by (auto simp: linkbot_with_pr_created linkbot_body_marker split: if_splits)

lemma main_linkbot_already:
  "listComments github = Inr data \<Longrightarrow> alreadyCommentedMissingIssue data \<Longrightarrow>
   created (main_linkbot github context env envPrNumber) = []"
  using main_linkbot_shape [of github "context" env envPrNumber]
  by (auto simp: linkbot_with_pr_created reminder_due_def)

lemma main_linkbot_create_fails:
  "createComment github = Some error \<Longrightarrow> attempted_create (main_linkbot github context env envPrNumber) \<Longrightarrow>
   fault (main_linkbot github context env envPrNumber) = Some error"
  using main_linkbot_shape [of github "context" env envPrNumber]
  by (auto simp: linkbot_with_pr_attempted linkbot_with_pr_fault reminder_due_def
      split: sum.splits)

section \<open>The creating call and its failures\<close>

lemma attempted_create_post:
  "attempted_create (post_trigger_comment github owner repo prNumber body')"
  by (simp add: attempted_create_def post_trigger_comment_calls read_only_call_def)

lemma attempted_create_after_guard_contract:
  "attempted_create
     (after (guard_calls (hasExistingTriggerComment_contract github owner repo n marker)) ls out)
   = attempted_create out"
  by (simp add: attempted_create_after guard_contract_calls list_ex_iff read_only_call_def)

lemma attempted_create_after_guard_generated:
  "attempted_create
     (after (guard_calls (hasExistingTriggerComment_generated github owner repo n marker)) ls out)
   = attempted_create out"
  by (simp add: attempted_create_after guard_generated_calls list_ex_iff read_only_call_def)

lemma post_trigger_comment_logged:
  "createComment github = Some error \<Longrightarrow> status error = Some 403 \<or> status error = Some 404 \<Longrightarrow>
   logged (post_trigger_comment github owner repo prNumber body')
     = [insufficient_log error owner repo prNumber]"
  by (auto simp: post_trigger_comment_def)

text \<open>
  The \<open>contract\<close> script from the environment on either stops with a line on the
  console, after reads only, or ends in the \<open>try\<close> around the creating call.
\<close>

lemma run_contract_shape:
  "(\<exists>cs ls ls'. (\<forall>c \<in> set cs. read_only_call c)
       \<and> run_contract github context env fs prNumber = after cs ls (log_and_return ls'))
   \<or> (\<exists>cs ls body'. (\<forall>c \<in> set cs. read_only_call c)
       \<and> prefix (marker_contract (env_or env ''HEAD_SHA'' [])) body'
       \<and> \<not> found (hasExistingTriggerComment_contract github (repo_owner context)
               (repo_name context) prNumber (marker_contract (env_or env ''HEAD_SHA'' [])))
       \<and> run_contract github context env fs prNumber =
           after cs ls
             (post_trigger_comment github (repo_owner context) (repo_name context) prNumber body'))"
proof -
  let ?G = "hasExistingTriggerComment_contract github (repo_owner context) (repo_name context)
              prNumber (marker_contract (env_or env ''HEAD_SHA'' []))"
  have ro: "\<forall>c \<in> set (guard_calls ?G). read_only_call c"
    by (rule guard_contract_read_only)
  have nil: "\<forall>c \<in> set ([] :: nat api_call list). read_only_call c" by simp
  have id: "\<And>out. after [] [] out = out" by (simp add: after_def)
  consider (missing) "env_or env ''BASE_SHA'' [] = [] \<or> env_or env ''HEAD_SHA'' [] = [] \<or> env_or env ''PROTOBUF_FILES_PATH'' [] = []"
    | (skip) "\<not> (env_or env ''BASE_SHA'' [] = [] \<or> env_or env ''HEAD_SHA'' [] = [] \<or> env_or env ''PROTOBUF_FILES_PATH'' [] = [])" "False"
    | (found) "\<not> (env_or env ''BASE_SHA'' [] = [] \<or> env_or env ''HEAD_SHA'' [] = [] \<or> env_or env ''PROTOBUF_FILES_PATH'' [] = [])" "found ?G"
    | (dry) "\<not> (env_or env ''BASE_SHA'' [] = [] \<or> env_or env ''HEAD_SHA'' [] = [] \<or> env_or env ''PROTOBUF_FILES_PATH'' [] = [])" "\<not> found ?G"
        "is_dry_run_protobuf env"
    | (post) "\<not> (env_or env ''BASE_SHA'' [] = [] \<or> env_or env ''HEAD_SHA'' [] = [] \<or> env_or env ''PROTOBUF_FILES_PATH'' [] = [])" "\<not> found ?G"
        "\<not> is_dry_run_protobuf env"
    by blast
  then show ?thesis
  proof cases
    case missing
    then have "\<exists>ls'. run_contract github context env fs prNumber = after [] [] (log_and_return ls')"
      unfolding id by (auto simp: run_contract_def Let_def)
    with nil show ?thesis by blast
  next
    case skip
    then have "\<exists>ls'. run_contract github context env fs prNumber = after [] [] (log_and_return ls')"
      unfolding id by (auto simp: run_contract_def Let_def)
    with nil show ?thesis by blast
  next
    case found
    then have "\<exists>ls'. run_contract github context env fs prNumber
        = after (guard_calls ?G) (guard_logged ?G) (log_and_return ls')"
      by (auto simp: run_contract_def Let_def)
    with ro show ?thesis by blast
  next
    case dry
    then have "\<exists>ls'. run_contract github context env fs prNumber
        = after (guard_calls ?G) (guard_logged ?G) (log_and_return ls')"
      by (auto simp: run_contract_def Let_def)
    with ro show ?thesis by blast
  next
    case post
    then have "\<exists>body'. prefix (marker_contract (env_or env ''HEAD_SHA'' [])) body'
        \<and> run_contract github context env fs prNumber
        = after (guard_calls ?G) (guard_logged ?G)
            (post_trigger_comment github (repo_owner context) (repo_name context) prNumber body')"
      by (auto simp: run_contract_def Let_def intro: contract_body_marker)
    with ro post show ?thesis by blast
  qed
qed

text \<open>
  The \<open>generated\<close> script from the environment on either stops with a line on the
  console, after reads only, or ends in the \<open>try\<close> around the creating call.
\<close>

lemma run_generated_shape:
  "(\<exists>cs ls ls'. (\<forall>c \<in> set cs. read_only_call c)
       \<and> run_generated github context env fs prNumber = after cs ls (log_and_return ls'))
   \<or> (\<exists>cs ls body'. (\<forall>c \<in> set cs. read_only_call c)
       \<and> prefix (marker_generated (env_or env ''HEAD_SHA'' [])) body'
       \<and> \<not> found (hasExistingTriggerComment_generated github (repo_owner context)
               (repo_name context) prNumber (marker_generated (env_or env ''HEAD_SHA'' [])))
       \<and> run_generated github context env fs prNumber =
           after cs ls
             (post_trigger_comment github (repo_owner context) (repo_name context) prNumber body'))"
proof -
  let ?G = "hasExistingTriggerComment_generated github (repo_owner context) (repo_name context)
              prNumber (marker_generated (env_or env ''HEAD_SHA'' []))"
  have ro: "\<forall>c \<in> set (guard_calls ?G). read_only_call c"
    by (rule guard_generated_read_only)
  have nil: "\<forall>c \<in> set ([] :: nat api_call list). read_only_call c" by simp
  have id: "\<And>out. after [] [] out = out" by (simp add: after_def)
  consider (missing) "env_or env ''BASE_SHA'' [] = [] \<or> env_or env ''HEAD_SHA'' [] = [] \<or> env_or env ''PROTOBUF_DIFF_PATH'' [] = [] \<or> env_or env ''PROTOBUF_FILES_PATH'' [] = []"
    | (skip) "\<not> (env_or env ''BASE_SHA'' [] = [] \<or> env_or env ''HEAD_SHA'' [] = [] \<or> env_or env ''PROTOBUF_DIFF_PATH'' [] = [] \<or> env_or env ''PROTOBUF_FILES_PATH'' [] = [])" "js_trim (readTextFileOrEmpty fs (env_or env ''PROTOBUF_DIFF_PATH'' [])) = []"
    | (found) "\<not> (env_or env ''BASE_SHA'' [] = [] \<or> env_or env ''HEAD_SHA'' [] = [] \<or> env_or env ''PROTOBUF_DIFF_PATH'' [] = [] \<or> env_or env ''PROTOBUF_FILES_PATH'' [] = [])" "js_trim (readTextFileOrEmpty fs (env_or env ''PROTOBUF_DIFF_PATH'' [])) \<noteq> []" "found ?G"
    | (dry) "\<not> (env_or env ''BASE_SHA'' [] = [] \<or> env_or env ''HEAD_SHA'' [] = [] \<or> env_or env ''PROTOBUF_DIFF_PATH'' [] = [] \<or> env_or env ''PROTOBUF_FILES_PATH'' [] = [])" "js_trim (readTextFileOrEmpty fs (env_or env ''PROTOBUF_DIFF_PATH'' [])) \<noteq> []" "\<not> found ?G"
        "is_dry_run_protobuf env"
    | (post) "\<not> (env_or env ''BASE_SHA'' [] = [] \<or> env_or env ''HEAD_SHA'' [] = [] \<or> env_or env ''PROTOBUF_DIFF_PATH'' [] = [] \<or> env_or env ''PROTOBUF_FILES_PATH'' [] = [])" "js_trim (readTextFileOrEmpty fs (env_or env ''PROTOBUF_DIFF_PATH'' [])) \<noteq> []" "\<not> found ?G"
        "\<not> is_dry_run_protobuf env"
    by blast
  then show ?thesis
  proof cases
    case missing
    then have "\<exists>ls'. run_generated github context env fs prNumber = after [] [] (log_and_return ls')"
      unfolding id by (auto simp: run_generated_def Let_def)
    with nil show ?thesis by blast
  next
    case skip
    then have "\<exists>ls'. run_generated github context env fs prNumber = after [] [] (log_and_return ls')"
      unfolding id by (auto simp: run_generated_def Let_def)
    with nil show ?thesis by blast
  next
    case found
    then have "\<exists>ls'. run_generated github context env fs prNumber
        = after (guard_calls ?G) (guard_logged ?G) (log_and_return ls')"
      by (auto simp: run_generated_def Let_def)
    with ro show ?thesis by blast
  next
    case dry
    then have "\<exists>ls'. run_generated github context env fs prNumber
        = after (guard_calls ?G) (guard_logged ?G) (log_and_return ls')"
      by (auto simp: run_generated_def Let_def)
    with ro show ?thesis by blast
  next
    case post
    then have "\<exists>body'. prefix (marker_generated (env_or env ''HEAD_SHA'' [])) body'
        \<and> run_generated github context env fs prNumber
        = after (guard_calls ?G) (guard_logged ?G)
            (post_trigger_comment github (repo_owner context) (repo_name context) prNumber body')"
      by (auto simp: run_generated_def Let_def intro: generated_body_marker)
    with ro post show ?thesis by blast
  qed
qed

lemma attempted_create_no_pull_request: "\<not> attempted_create no_pull_request"
  by (simp add: no_pull_request_def attempted_create_log_and_return)

lemma attempted_create_after_reads:
  "\<forall>c \<in> set cs. read_only_call c \<Longrightarrow> attempted_create (after cs ls out) = attempted_create out"
  by (simp add: attempted_create_after list_ex_iff)

lemma run_contract_create_fails:
  assumes "createComment github = Some error"
  shows "created (run_contract github context env fs prNumber) = []
    \<and> fault (run_contract github context env fs prNumber) =
      (if attempted_create (run_contract github context env fs prNumber)
          \<and> status error \<noteq> Some 403 \<and> status error \<noteq> Some 404
       then Some error else None)
    \<and> (attempted_create (run_contract github context env fs prNumber)
        \<and> (status error = Some 403 \<or> status error = Some 404) \<longrightarrow>
         insufficient_log error (repo_owner context) (repo_name context) prNumber
           \<in> set (logged (run_contract github context env fs prNumber)))"
  using run_contract_shape [of github "context" env fs prNumber] assms
  by (elim disjE exE conjE)
     (simp_all add: after_fields log_and_return_fields attempted_create_after_reads
        attempted_create_log_and_return attempted_create_post post_trigger_comment_created
        post_trigger_comment_fault post_trigger_comment_logged)

lemma run_generated_create_fails:
  assumes "createComment github = Some error"
  shows "created (run_generated github context env fs prNumber) = []
    \<and> fault (run_generated github context env fs prNumber) =
      (if attempted_create (run_generated github context env fs prNumber)
          \<and> status error \<noteq> Some 403 \<and> status error \<noteq> Some 404
       then Some error else None)
    \<and> (attempted_create (run_generated github context env fs prNumber)
        \<and> (status error = Some 403 \<or> status error = Some 404) \<longrightarrow>
         insufficient_log error (repo_owner context) (repo_name context) prNumber
           \<in> set (logged (run_generated github context env fs prNumber)))"
  using run_generated_shape [of github "context" env fs prNumber] assms
  by (elim disjE exE conjE)
     (simp_all add: after_fields log_and_return_fields attempted_create_after_reads
        attempted_create_log_and_return attempted_create_post post_trigger_comment_created
        post_trigger_comment_fault post_trigger_comment_logged)


section \<open>The fallback policy of the two guards\<close>

lemma main_contract_fault_free:
  "createComment github = None \<Longrightarrow> fault (main_contract github context env fs) = None"
proof -
  assume ok: "createComment github = None"
  have "fault (run_contract github context env fs n) = None" for n
    using run_contract_shape [of github "context" env fs n] ok
    by (elim disjE exE conjE)
       (simp_all add: after_fields log_and_return_fields post_trigger_comment_fault)
  then show ?thesis
    using main_contract_cases [of github "context" env fs]
    by (auto simp: no_pull_request_fields)
qed

lemma main_generated_fault_free:
  "createComment github = None \<Longrightarrow> fault (main_generated github context env fs) = None"
proof -
  assume ok: "createComment github = None"
  have "fault (run_generated github context env fs n) = None" for n
    using run_generated_shape [of github "context" env fs n] ok
    by (elim disjE exE conjE)
       (simp_all add: after_fields log_and_return_fields post_trigger_comment_fault)
  then show ?thesis
    using main_generated_cases [of github "context" env fs]
    by (auto simp: no_pull_request_fields)
qed

text \<open>
  C2. Each guard has one answer for both uncertain outcomes of its scan. When the scan
  reaches the cap of 500 comments without seeing the marker, the guard of the contract
  notifier answers \<open>true\<close> and the guard of the generated-diff notifier answers
  \<open>false\<close>. When the listing throws before the marker is seen and before the cap is
  reached, the answers are the same two, and each guard prints one line that carries
  the message and status of the error together with the owner, the repository and the
  issue number. The guard returns its answer in every case, and the error of the
  listing goes no further than the console: an invocation whose creating call succeeds
  ends without a fault, whatever the listing did.
\<close>

theorem guard_fallback_policy:
  "(\<not> marker_scanned marker (paginate_listComments github)
      \<and> cap_reached (paginate_listComments github) \<longrightarrow>
      found (hasExistingTriggerComment_contract github owner repo issueNumber marker)
      \<and> guard_logged (hasExistingTriggerComment_contract github owner repo issueNumber marker) = []
      \<and> \<not> found (hasExistingTriggerComment_generated github owner repo issueNumber marker)
      \<and> guard_logged (hasExistingTriggerComment_generated github owner repo issueNumber marker) = [])
   \<and> (\<not> marker_scanned marker (paginate_listComments github)
      \<and> \<not> cap_reached (paginate_listComments github)
      \<and> first_throw (paginate_listComments github) = Some error \<longrightarrow>
      found (hasExistingTriggerComment_contract github owner repo issueNumber marker)
      \<and> guard_logged (hasExistingTriggerComment_contract github owner repo issueNumber marker)
          = [Log ''Failed while checking existing protobuf trigger comments:''
               [(''message'', VStr (message error)), (''status'', opt_num (status error)),
                (''owner'', VStr owner), (''repo'', VStr repo),
                (''issueNumber'', VNum issueNumber)]]
      \<and> \<not> found (hasExistingTriggerComment_generated github owner repo issueNumber marker)
      \<and> guard_logged (hasExistingTriggerComment_generated github owner repo issueNumber marker)
          = [Log ''Failed while checking existing protobuf trigger comments:''
               [(''message'', VStr (message error)), (''status'', opt_num (status error)),
                (''owner'', VStr owner), (''repo'', VStr repo),
                (''issueNumber'', VNum issueNumber)]])
   \<and> (createComment github = None \<longrightarrow>
      fault (main_contract github context env fs) = None
      \<and> fault (main_generated github context env fs) = None)"
proof (intro conjI impI)
  assume a: "\<not> marker_scanned marker (paginate_listComments github)
      \<and> cap_reached (paginate_listComments github)"
  then have t: "returned (scan_pages True marker (paginate_listComments github) 0 0) = Inr True"
    and f: "returned (scan_pages False marker (paginate_listComments github) 0 0) = Inr False"
    by (simp_all add: scan_cap)
  show "found (hasExistingTriggerComment_contract github owner repo issueNumber marker)"
    using t by (simp add: hasExistingTriggerComment_contract_def Let_def)
  show "guard_logged (hasExistingTriggerComment_contract github owner repo issueNumber marker) = []"
    using t by (simp add: hasExistingTriggerComment_contract_def Let_def)
  show "\<not> found (hasExistingTriggerComment_generated github owner repo issueNumber marker)"
    using f by (simp add: hasExistingTriggerComment_generated_def Let_def)
  show "guard_logged (hasExistingTriggerComment_generated github owner repo issueNumber marker) = []"
    using f by (simp add: hasExistingTriggerComment_generated_def Let_def)
next
  assume a: "\<not> marker_scanned marker (paginate_listComments github)
      \<and> \<not> cap_reached (paginate_listComments github)
      \<and> first_throw (paginate_listComments github) = Some error"
  then have t: "returned (scan_pages True marker (paginate_listComments github) 0 0) = Inl error"
    and f: "returned (scan_pages False marker (paginate_listComments github) 0 0) = Inl error"
    by (simp_all add: scan_throw)
  show "found (hasExistingTriggerComment_contract github owner repo issueNumber marker)"
    using t by (simp add: hasExistingTriggerComment_contract_def Let_def)
  show "guard_logged (hasExistingTriggerComment_contract github owner repo issueNumber marker)
          = [Log ''Failed while checking existing protobuf trigger comments:''
               [(''message'', VStr (message error)), (''status'', opt_num (status error)),
                (''owner'', VStr owner), (''repo'', VStr repo),
                (''issueNumber'', VNum issueNumber)]]"
    using t by (simp add: hasExistingTriggerComment_contract_def Let_def guard_failure_log_def)
  show "\<not> found (hasExistingTriggerComment_generated github owner repo issueNumber marker)"
    using f by (simp add: hasExistingTriggerComment_generated_def Let_def)
  show "guard_logged (hasExistingTriggerComment_generated github owner repo issueNumber marker)
          = [Log ''Failed while checking existing protobuf trigger comments:''
               [(''message'', VStr (message error)), (''status'', opt_num (status error)),
                (''owner'', VStr owner), (''repo'', VStr repo),
                (''issueNumber'', VNum issueNumber)]]"
    using f by (simp add: hasExistingTriggerComment_generated_def Let_def guard_failure_log_def)
next
  assume "createComment github = None"
  then show "fault (main_contract github context env fs) = None"
    by (rule main_contract_fault_free)
next
  assume "createComment github = None"
  then show "fault (main_generated github context env fs) = None"
    by (rule main_generated_fault_free)
qed

theorem guard_fallback_policy_witness:
  "\<not> marker_scanned (marker_contract ''h1'') (paginate_listComments busy_client)
   \<and> cap_reached (paginate_listComments busy_client)
   \<and> found (hasExistingTriggerComment_contract busy_client ''o'' ''r'' 7 (marker_contract ''h1''))
   \<and> \<not> found (hasExistingTriggerComment_generated busy_client ''o'' ''r'' 7 (marker_contract ''h1''))
   \<and> \<not> marker_scanned (marker_contract ''h1'') (paginate_listComments failing_client)
   \<and> \<not> cap_reached (paginate_listComments failing_client)
   \<and> first_throw (paginate_listComments failing_client) = Some server_error
   \<and> found (hasExistingTriggerComment_contract failing_client ''o'' ''r'' 7 (marker_contract ''h1''))
   \<and> \<not> found (hasExistingTriggerComment_generated failing_client ''o'' ''r'' 7 (marker_contract ''h1''))
   \<and> guard_logged (hasExistingTriggerComment_generated failing_client ''o'' ''r'' 7 (marker_contract ''h1''))
       = [Log ''Failed while checking existing protobuf trigger comments:''
            [(''message'', VStr ''Server Error''), (''status'', VNum 500),
             (''owner'', VStr ''o''), (''repo'', VStr ''r''), (''issueNumber'', VNum 7)]]
   \<and> createComment failing_client = None
   \<and> fault (main_contract failing_client context7 env7 files7) = None
   \<and> fault (main_generated failing_client context7 env7 files7) = None"
proof -
  have b1: "\<not> marker_scanned (marker_contract ''h1'') (paginate_listComments busy_client)"
    by (rule not_marker_scanned)
       (simp add: busy_client_def client_def busy_delivered plain_no_marker_contract)
  have b2: "cap_reached (paginate_listComments busy_client)"
    by (simp add: cap_reached_def busy_client_def client_def busy_length MAX_COMMENTS_TO_SCAN_def)
  have f1: "\<not> marker_scanned (marker_contract ''h1'') (paginate_listComments failing_client)"
    by (rule not_marker_scanned)
       (simp add: failing_client_def client_def failing_delivered plain_no_marker_contract)
  have f2: "\<not> cap_reached (paginate_listComments failing_client)"
    by (simp add: cap_reached_def failing_client_def client_def failing_length
        MAX_COMMENTS_TO_SCAN_def)
  have f3: "first_throw (paginate_listComments failing_client) = Some server_error"
    by (simp add: failing_client_def client_def failing_throw)
  note busy = guard_fallback_policy [where marker = "marker_contract ''h1''" and github = busy_client
      and owner = "''o''" and repo = "''r''" and issueNumber = 7,
      THEN conjunct1, rule_format, OF conjI [OF b1 b2]]
  note failing = guard_fallback_policy [where marker = "marker_contract ''h1''"
      and github = failing_client and error = server_error
      and owner = "''o''" and repo = "''r''" and issueNumber = 7, THEN conjunct2,
      THEN conjunct1, rule_format, OF conjI [OF f1 conjI [OF f2 f3]]]
  have msg: "message server_error = ''Server Error''" "status server_error = Some 500"
    by (simp_all add: server_error_def)
  have cr: "createComment failing_client = None"
    by (simp add: failing_client_def client_def)
  note quiet = guard_fallback_policy [where github = failing_client and env = env7
      and fs = files7, of _ _ _ _ _ context7, THEN conjunct2, THEN conjunct2, rule_format, OF cr]
  from busy failing b1 b2 f1 f2 f3 cr quiet show ?thesis
    by (simp add: msg opt_num_def)
qed

section \<open>The concrete invocations, evaluated\<close>

lemma env7_values:
  "env_or env7 ''BASE_SHA'' [] = ''b1''"
  "env_or env7 ''HEAD_SHA'' [] = ''h1''"
  "env_or env7 ''PROTOBUF_DIFF_PATH'' [] = ''d''"
  "env_or env7 ''PROTOBUF_FILES_PATH'' [] = ''f''"
  "env_or env7 ''PROTOBUF_SCOPE_MODE'' ''full'' = ''full''"
  "env_or env7 ''PROTOBUF_SCOPE_REASON'' [] = []"
  "env_or env7 ''PROTOBUF_VALIDATION_STATUS'' ''passed'' = ''passed''"
  "env_or env7 ''PROTOBUF_VALIDATION_CHECKS'' [] = []"
  "\<not> is_dry_run_protobuf env7"
  by (simp_all add: env7_def env_or_def is_dry_run_protobuf_def js_toLowerCase_def lower_of_def)

lemma files7_values:
  "readTextFileOrEmpty files7 ''d'' = ''+x''"
  "parseUniqueLines (readTextFileOrEmpty files7 ''f'') = [''a.proto'']"
  "parseUniqueLines (commas_to_newlines []) = []"
  "truncateDiff ''+x'' MAX_DIFF_CHARS = \<lparr>truncated = False, text_field = ''+x''\<rparr>"
  "js_trim ''+x'' \<noteq> []"
  by (simp_all add: files7_def readTextFileOrEmpty_def parseUniqueLines_def js_trim_def
      js_whitespace_def LF_def CR_def commas_to_newlines_def truncateDiff_def MAX_DIFF_CHARS_def)

lemma context7_values:
  "payload_pr_number context7 = Some 7"
  "repo_owner context7 = ''hiero-ledger''"
  "repo_name context7 = ''hiero-sdk-python''"
  by (simp_all add: context7_def payload_pr_number_def pr7_def)

lemma main_contract_7:
  "main_contract github context7 env7 files7 = run_contract github context7 env7 files7 7"
  by (simp add: main_contract_def context7_values)

lemma main_generated_7:
  "main_generated github context7 env7 files7 = run_generated github context7 env7 files7 7"
  by (simp add: main_generated_def context7_values)

lemma run_contract_7:
  "\<not> found (hasExistingTriggerComment_contract github ''hiero-ledger'' ''hiero-sdk-python'' 7
        (marker_contract ''h1'')) \<Longrightarrow>
   run_contract github context7 env7 files7 7 =
     after
       (guard_calls (hasExistingTriggerComment_contract github ''hiero-ledger''
          ''hiero-sdk-python'' 7 (marker_contract ''h1'')))
       (guard_logged (hasExistingTriggerComment_contract github ''hiero-ledger''
          ''hiero-sdk-python'' 7 (marker_contract ''h1'')))
       (post_trigger_comment github ''hiero-ledger'' ''hiero-sdk-python'' 7 body7_contract)"
  by (simp add: run_contract_def Let_def env7_values files7_values context7_values
      body7_contract_def)

lemma run_generated_7:
  "\<not> found (hasExistingTriggerComment_generated github ''hiero-ledger'' ''hiero-sdk-python'' 7
        (marker_generated ''h1'')) \<Longrightarrow>
   run_generated github context7 env7 files7 7 =
     after
       (guard_calls (hasExistingTriggerComment_generated github ''hiero-ledger''
          ''hiero-sdk-python'' 7 (marker_generated ''h1'')))
       (guard_logged (hasExistingTriggerComment_generated github ''hiero-ledger''
          ''hiero-sdk-python'' 7 (marker_generated ''h1'')))
       (post_trigger_comment github ''hiero-ledger'' ''hiero-sdk-python'' 7 body7_generated)"
  by (simp add: run_generated_def Let_def env7_values files7_values context7_values
      body7_generated_def)

lemma empty_thread_not_found:
  assumes "paginate_listComments github = [Page []]"
  shows "\<not> found (hasExistingTriggerComment_contract github owner repo n marker)"
    and "\<not> found (hasExistingTriggerComment_generated github owner repo n marker)"
  using assms
  by (simp_all add: guard_contract_found guard_generated_found marker_scanned_def
      scanned_comments_def cap_reached_def MAX_COMMENTS_TO_SCAN_def)

lemma quiet_listing:
  "paginate_listComments quiet_client = [Page []]"
  "paginate_listComments forbidden_client = [Page []]"
  "paginate_listComments broken_client = [Page []]"
  by (simp_all add: quiet_client_def forbidden_client_def broken_client_def client_def)

lemma quiet_responses:
  "listComments quiet_client = Inr []" "graphql quiet_client = Inr (Some [])"
  "createComment quiet_client = None"
  "listComments forbidden_client = Inr []" "graphql forbidden_client = Inr (Some [])"
  "createComment forbidden_client = Some forbidden"
  "listComments broken_client = Inr []" "graphql broken_client = Inr (Some [])"
  "createComment broken_client = Some server_error"
  by (simp_all add: quiet_client_def forbidden_client_def broken_client_def client_def)

lemma main_linkbot_7:
  "created (main_linkbot github context7 Map.empty NaN)
     = created (linkbot_with_pr github context7 False (Num 7) pr7)"
  "fault (main_linkbot github context7 Map.empty NaN)
     = fault (linkbot_with_pr github context7 False (Num 7) pr7)"
  "attempted_create (main_linkbot github context7 Map.empty NaN)
     = attempted_create (linkbot_with_pr github context7 False (Num 7) pr7)"
  by (simp_all add: main_linkbot_def truthy_number_def number_from_payload_def
      linkbot_with_number_def after_fields attempted_create_after context7_def pr7_def)

lemma reminder_due_7:
  "listComments github = Inr [] \<Longrightarrow> graphql github = Inr (Some []) \<Longrightarrow>
   reminder_due github context7 False (Num 7) pr7"
  using ann_not_bot
  by (simp add: reminder_due_def alreadyCommentedMissingIssue_def getLinkedOpenIssues_def)



section \<open>A refused creating call, notifier by notifier\<close>

text \<open>
  C7, as amended. In the two protobuf notifiers a refusal of the creating call with
  status 403 or 404 is swallowed: nothing is created, a line with the status, owner,
  repository and pull request number goes to the console, and the invocation ends
  without a fault; any other error of that call is thrown on to the caller. The
  missing-linked-issue notifier makes no such difference: every error of its creating
  call, those with status 403 or 404 included, is logged and thrown on to the caller.
\<close>

theorem create_failure_policy:
  "(createComment github = Some error \<and> (status error = Some 403 \<or> status error = Some 404) \<longrightarrow>
      fault (main_contract github context env fs) = None
      \<and> created (main_contract github context env fs) = []
      \<and> fault (main_generated github context env fs) = None
      \<and> created (main_generated github context env fs) = []
      \<and> (attempted_create (main_contract github context env fs) \<longrightarrow>
           (\<exists>n. insufficient_log error (repo_owner context) (repo_name context) n
                  \<in> set (logged (main_contract github context env fs))))
      \<and> (attempted_create (main_generated github context env fs) \<longrightarrow>
           (\<exists>n. insufficient_log error (repo_owner context) (repo_name context) n
                  \<in> set (logged (main_generated github context env fs)))))
   \<and> (createComment github = Some error \<and> status error \<noteq> Some 403 \<and> status error \<noteq> Some 404 \<longrightarrow>
      (attempted_create (main_contract github context env fs) \<longrightarrow>
         fault (main_contract github context env fs) = Some error)
      \<and> (attempted_create (main_generated github context env fs) \<longrightarrow>
         fault (main_generated github context env fs) = Some error))
   \<and> (createComment github = Some error \<and> attempted_create (main_linkbot github context env envPrNumber) \<longrightarrow>
      fault (main_linkbot github context env envPrNumber) = Some error)"
proof -
  have c: "createComment github = Some error \<Longrightarrow>
      created (main_contract github context env fs) = []
      \<and> fault (main_contract github context env fs) =
          (if attempted_create (main_contract github context env fs)
              \<and> status error \<noteq> Some 403 \<and> status error \<noteq> Some 404
           then Some error else None)
      \<and> (attempted_create (main_contract github context env fs)
          \<and> (status error = Some 403 \<or> status error = Some 404) \<longrightarrow>
           (\<exists>n. insufficient_log error (repo_owner context) (repo_name context) n
                  \<in> set (logged (main_contract github context env fs))))"
    using main_contract_cases [of github "context" env fs]
      run_contract_create_fails [of github error "context" env fs]
    by (elim disjE exE conjE)
       (simp_all add: no_pull_request_fields attempted_create_no_pull_request, blast)
  have g: "createComment github = Some error \<Longrightarrow>
      created (main_generated github context env fs) = []
      \<and> fault (main_generated github context env fs) =
          (if attempted_create (main_generated github context env fs)
              \<and> status error \<noteq> Some 403 \<and> status error \<noteq> Some 404
           then Some error else None)
      \<and> (attempted_create (main_generated github context env fs)
          \<and> (status error = Some 403 \<or> status error = Some 404) \<longrightarrow>
           (\<exists>n. insufficient_log error (repo_owner context) (repo_name context) n
                  \<in> set (logged (main_generated github context env fs))))"
    using main_generated_cases [of github "context" env fs]
      run_generated_create_fails [of github error "context" env fs]
    by (elim disjE exE conjE)
       (simp_all add: no_pull_request_fields attempted_create_no_pull_request, blast)
  show ?thesis
  proof (cases "createComment github = Some error")
    case False
    then show ?thesis by simp
  next
    case True
    note c' = c [OF True] and g' = g [OF True]
      and l' = main_linkbot_create_fails [of github error "context" env envPrNumber, OF True]
    show ?thesis
    proof (cases "status error = Some 403 \<or> status error = Some 404")
      case True
      with c' g' l' \<open>createComment github = Some error\<close> show ?thesis by auto
    next
      case False
      with c' g' l' \<open>createComment github = Some error\<close> show ?thesis by auto
    qed
  qed
qed

theorem create_failure_policy_witness:
  "createComment forbidden_client = Some forbidden
   \<and> status forbidden = Some 403
   \<and> attempted_create (main_contract forbidden_client context7 env7 files7)
   \<and> fault (main_contract forbidden_client context7 env7 files7) = None
   \<and> created (main_contract forbidden_client context7 env7 files7) = []
   \<and> createComment broken_client = Some server_error
   \<and> status server_error \<noteq> Some 403 \<and> status server_error \<noteq> Some 404
   \<and> attempted_create (main_generated broken_client context7 env7 files7)
   \<and> fault (main_generated broken_client context7 env7 files7) = Some server_error
   \<and> attempted_create (main_linkbot broken_client context7 Map.empty NaN)
   \<and> fault (main_linkbot broken_client context7 Map.empty NaN) = Some server_error"
proof -
  have f: "createComment forbidden_client = Some forbidden" "status forbidden = Some 403"
    by (simp_all add: quiet_responses forbidden_def)
  have b: "createComment broken_client = Some server_error"
    "status server_error \<noteq> Some 403" "status server_error \<noteq> Some 404"
    by (simp_all add: quiet_responses server_error_def)
  have a1: "attempted_create (main_contract forbidden_client context7 env7 files7)"
    by (simp add: main_contract_7 run_contract_7 empty_thread_not_found quiet_listing
        attempted_create_after_guard_contract attempted_create_post)
  have a2: "attempted_create (main_generated broken_client context7 env7 files7)"
    by (simp add: main_generated_7 run_generated_7 empty_thread_not_found quiet_listing
        attempted_create_after_guard_generated attempted_create_post)
  have a3: "attempted_create (main_linkbot broken_client context7 Map.empty NaN)"
    by (simp add: main_linkbot_7 linkbot_with_pr_attempted reminder_due_7 quiet_responses)
  note th1 = create_failure_policy [where github = forbidden_client and error = forbidden
      and env = env7 and fs = files7, of context7, THEN conjunct1, rule_format]
  note th2 = create_failure_policy [where github = broken_client and error = server_error
      and env = env7 and fs = files7, of context7, THEN conjunct2, THEN conjunct1, rule_format]
  note th3 = create_failure_policy [where github = broken_client and error = server_error
      and env = Map.empty, of context7, THEN conjunct2, THEN conjunct2, rule_format]
  have r1: "fault (main_contract forbidden_client context7 env7 files7) = None"
    "created (main_contract forbidden_client context7 env7 files7) = []"
    using th1 f by blast+
  have r2: "fault (main_generated broken_client context7 env7 files7) = Some server_error"
    using th2 b a2 by blast
  have r3: "fault (main_linkbot broken_client context7 Map.empty NaN) = Some server_error"
    using th3 b(1) a3 by blast
  from f b a1 a2 a3 r1 r2 r3 show ?thesis by (intro conjI)
qed

text \<open>
  C7 as stated fails for the missing-linked-issue notifier: a refusal with status 403
  of its creating call is thrown on to the caller.
\<close>

theorem linkbot_rethrows_forbidden:
  "createComment forbidden_client = Some forbidden
   \<and> status forbidden = Some 403
   \<and> attempted_create (main_linkbot forbidden_client context7 Map.empty NaN)
   \<and> fault (main_linkbot forbidden_client context7 Map.empty NaN) = Some forbidden"
  by (simp add: main_linkbot_7 linkbot_with_pr_attempted linkbot_with_pr_fault reminder_due_7
      quiet_responses forbidden_def ann_not_bot)

section \<open>An invocation without a pull request\<close>

text \<open>
  C6, as amended. When the triggering event is absent or carries no pull request, the
  two protobuf notifiers print one line and return: no call, no comment, no fault. The
  missing-linked-issue notifier, when the number it reads from the environment is
  \<open>NaN\<close> or zero as well, prints three lines of error report and throws to its
  caller: the error
  \<open>PR number could not be determined\<close> when the event has no pull request, and the
  error of reading a property of \<open>undefined\<close> when there is no event at all. It
  makes no call and posts nothing.
\<close>

theorem no_pull_request_outcome:
  "(payload context = None \<or> (\<exists>p. payload context = Some p \<and> pull_request p = None) \<longrightarrow>
      main_contract github context env fs
        = \<lparr>calls = [], created = [],
           logged = [Log ''No pull request found in payload. Skipping.'' []], fault = None\<rparr>
      \<and> main_generated github context env fs
        = \<lparr>calls = [], created = [],
           logged = [Log ''No pull request found in payload. Skipping.'' []], fault = None\<rparr>)
   \<and> (\<not> truthy_number envPrNumber \<and> payload context = None \<longrightarrow>
      main_linkbot github context env envPrNumber = rethrown no_payload_error None context)
   \<and> (\<not> truthy_number envPrNumber
        \<and> (\<exists>p. payload context = Some p \<and> pull_request p = None) \<longrightarrow>
      main_linkbot github context env envPrNumber = rethrown no_number_error None context)
   \<and> truthy_number envPrNumber = (envPrNumber \<noteq> NaN \<and> envPrNumber \<noteq> Num 0)
   \<and> message no_payload_error
       = ''Cannot read properties of undefined (reading '' @ [CHR 0x27] @ ''pull_request''
         @ [CHR 0x27] @ '')''
   \<and> message no_number_error = ''PR number could not be determined''
   \<and> calls (rethrown error n context) = []
   \<and> created (rethrown error n context) = []
   \<and> fault (rethrown error n context) = Some error
   \<and> logged (rethrown error n context)
       = [Log ''Error processing PR:''
            [(''message'', VStr (message error)), (''status'', opt_num (status error))],
          Log ''PR number:'' [(''prNumber'', opt_number n)],
          Log ''Repository:''
            [(''repository'', VStr (repo_owner context @ ''/'' @ repo_name context))]]"
proof -
  have p: "payload context = None \<or> (\<exists>p. payload context = Some p \<and> pull_request p = None) \<Longrightarrow>
      payload_pr_number context = None"
    by (auto simp: payload_pr_number_def)
  have 1: "payload context = None \<or> (\<exists>p. payload context = Some p \<and> pull_request p = None) \<longrightarrow>
      main_contract github context env fs
        = \<lparr>calls = [], created = [],
           logged = [Log ''No pull request found in payload. Skipping.'' []], fault = None\<rparr>
      \<and> main_generated github context env fs
        = \<lparr>calls = [], created = [],
           logged = [Log ''No pull request found in payload. Skipping.'' []], fault = None\<rparr>"
    using p by (simp add: main_contract_def main_generated_def no_pull_request_def
        log_and_return_def)
  have 2: "\<not> truthy_number envPrNumber \<and> payload context = None \<longrightarrow>
      main_linkbot github context env envPrNumber = rethrown no_payload_error None context"
    by (auto simp: main_linkbot_def number_from_payload_def)
  have 3: "\<not> truthy_number envPrNumber
        \<and> (\<exists>p. payload context = Some p \<and> pull_request p = None) \<longrightarrow>
      main_linkbot github context env envPrNumber = rethrown no_number_error None context"
    by (auto simp: main_linkbot_def number_from_payload_def)
  have 4: "truthy_number envPrNumber = (envPrNumber \<noteq> NaN \<and> envPrNumber \<noteq> Num 0)"
    by (cases envPrNumber) (simp_all add: truthy_number_def)
  have 5: "message no_payload_error
       = ''Cannot read properties of undefined (reading '' @ [CHR 0x27] @ ''pull_request''
         @ [CHR 0x27] @ '')''"
    "message no_number_error = ''PR number could not be determined''"
    by (simp_all add: no_payload_error_def no_number_error_def)
  have 6: "calls (rethrown error n context) = []" "created (rethrown error n context) = []"
    "fault (rethrown error n context) = Some error"
    "logged (rethrown error n context)
       = [Log ''Error processing PR:''
            [(''message'', VStr (message error)), (''status'', opt_num (status error))],
          Log ''PR number:'' [(''prNumber'', opt_number n)],
          Log ''Repository:''
            [(''repository'', VStr (repo_owner context @ ''/'' @ repo_name context))]]"
    by (simp_all add: rethrown_def)
  from 1 2 3 4 5 6 show ?thesis by (intro conjI)
qed

theorem no_pull_request_outcome_witness:
  "payload context_no_event = None
   \<and> (\<exists>p. payload context_no_pr = Some p \<and> pull_request p = None)
   \<and> \<not> truthy_number NaN
   \<and> fault (main_contract quiet_client context_no_event env7 files7) = None
   \<and> created (main_contract quiet_client context_no_event env7 files7) = []
   \<and> fault (main_generated quiet_client context_no_pr env7 files7) = None
   \<and> created (main_generated quiet_client context_no_pr env7 files7) = []
   \<and> main_linkbot quiet_client context_no_event Map.empty NaN
       = rethrown no_payload_error None context_no_event
   \<and> main_linkbot quiet_client context_no_pr Map.empty NaN
       = rethrown no_number_error None context_no_pr"
proof -
  have e: "payload context_no_event = None" by (simp add: context_no_event_def)
  have p: "\<exists>p. payload context_no_pr = Some p \<and> pull_request p = None"
    by (simp add: context_no_pr_def)
  have n: "\<not> truthy_number NaN" by (simp add: truthy_number_def)
  note a = no_pull_request_outcome [where github = quiet_client
      and env = env7 and fs = files7, of context_no_event,
      THEN conjunct1, rule_format, OF disjI1, OF e]
  note b = no_pull_request_outcome [where github = quiet_client
      and env = env7 and fs = files7, of context_no_pr,
      THEN conjunct1, rule_format, OF disjI2, OF p]
  note c = no_pull_request_outcome [where github = quiet_client
      and env = Map.empty and envPrNumber = NaN, of context_no_event,
      THEN conjunct2, THEN conjunct1, rule_format, OF conjI, OF n e]
  note d = no_pull_request_outcome [where github = quiet_client
      and env = Map.empty and envPrNumber = NaN, of context_no_pr,
      THEN conjunct2, THEN conjunct2, THEN conjunct1, rule_format, OF conjI, OF n p]
  from e p n a b c d show ?thesis by simp
qed

text \<open>
  C6 as stated fails for the missing-linked-issue notifier: with no pull request in the
  event, or no event, and \<open>PR_NUMBER\<close> not set (so that its number is \<open>NaN\<close>), the
  run ends in a fault.
\<close>

theorem linkbot_throws_without_number:
  "payload context_no_pr = Some \<lparr>pull_request = None\<rparr>
   \<and> fault (main_linkbot quiet_client context_no_pr Map.empty NaN) = Some no_number_error
   \<and> payload context_no_event = None
   \<and> fault (main_linkbot quiet_client context_no_event Map.empty NaN) = Some no_payload_error"
  by (simp add: main_linkbot_def truthy_number_def number_from_payload_def rethrown_def
      context_no_pr_def context_no_event_def)

section \<open>Pull requests opened by a bot\<close>

lemma is_bot_author_iff:
  "is_bot_author prData \<longleftrightarrow>
     (\<exists>u. user prData = Some u
        \<and> (type u = Some ''Bot'' \<or> (\<exists>l. login u = Some l \<and> suffix ''[bot]'' l)))"
  by (auto simp: is_bot_author_def Let_def js_endsWith_def split: option.splits)

text \<open>
  C9. The author of a pull request counts as a bot when the account type is \<open>Bot\<close>
  or the login ends in \<open>[bot]\<close>. For a pull request of such an author, taken from
  the event or fetched by its number, the missing-linked-issue notifier posts nothing
  and raises nothing, whatever the listing, the query for linked issues and the
  creating call would have answered: it makes none of these calls.
\<close>

theorem bot_author_skipped:
  "(payload context = Some p \<and> pull_request p = Some prData \<and> number prData \<noteq> 0
      \<and> is_bot_author prData \<longrightarrow>
      created (main_linkbot github context env envPrNumber) = []
      \<and> fault (main_linkbot github context env envPrNumber) = None
      \<and> calls (main_linkbot github context env envPrNumber) = [])
   \<and> (payload context = Some p \<and> pull_request p = None
      \<and> truthy_number envPrNumber
      \<and> pulls_get github = Inr prData \<and> is_bot_author prData \<longrightarrow>
      created (main_linkbot github context env envPrNumber) = []
      \<and> fault (main_linkbot github context env envPrNumber) = None
      \<and> calls (main_linkbot github context env envPrNumber) = [PullsGet envPrNumber])
   \<and> is_bot_author prData
     = (\<exists>u. user prData = Some u
          \<and> (type u = Some ''Bot'' \<or> (\<exists>l. login u = Some l \<and> suffix ''[bot]'' l)))"
proof -
  have 1: "payload context = Some p \<and> pull_request p = Some prData \<and> number prData \<noteq> 0
      \<and> is_bot_author prData \<longrightarrow>
      created (main_linkbot github context env envPrNumber) = []
      \<and> fault (main_linkbot github context env envPrNumber) = None
      \<and> calls (main_linkbot github context env envPrNumber) = []"
    by (auto simp: main_linkbot_def Let_def number_from_payload_def linkbot_with_number_def
        linkbot_with_pr_bot after_fields log_and_return_fields split: option.splits)
  have 2: "payload context = Some p \<and> pull_request p = None
      \<and> truthy_number envPrNumber
      \<and> pulls_get github = Inr prData \<and> is_bot_author prData \<longrightarrow>
      created (main_linkbot github context env envPrNumber) = []
      \<and> fault (main_linkbot github context env envPrNumber) = None
      \<and> calls (main_linkbot github context env envPrNumber) = [PullsGet envPrNumber]"
    by (auto simp: main_linkbot_def Let_def number_from_payload_def linkbot_with_number_def
        linkbot_with_pr_bot after_fields log_and_return_fields split: option.splits)
  from 1 2 is_bot_author_iff [of prData] show ?thesis by (intro conjI)
qed

theorem bot_author_skipped_witness:
  "payload context_renovate = Some \<lparr>pull_request = Some pr_renovate\<rparr>
   \<and> pull_request \<lparr>pull_request = Some pr_renovate\<rparr> = Some pr_renovate
   \<and> number pr_renovate \<noteq> 0
   \<and> is_bot_author pr_renovate
   \<and> graphql quiet_client = Inr (Some [])
   \<and> created (main_linkbot quiet_client context_renovate Map.empty NaN) = []
   \<and> fault (main_linkbot quiet_client context_renovate Map.empty NaN) = None
   \<and> payload context_no_pr = Some \<lparr>pull_request = None\<rparr>
   \<and> truthy_number (Num 8)
   \<and> pulls_get (quiet_client\<lparr>pulls_get := Inr pr_renovate\<rparr>) = Inr pr_renovate
   \<and> created (main_linkbot (quiet_client\<lparr>pulls_get := Inr pr_renovate\<rparr>) context_no_pr
        [''PR_NUMBER'' \<mapsto> ''8''] (Num 8)) = []
   \<and> fault (main_linkbot (quiet_client\<lparr>pulls_get := Inr pr_renovate\<rparr>) context_no_pr
        [''PR_NUMBER'' \<mapsto> ''8''] (Num 8)) = None"
proof -
  have h1: "payload context_renovate = Some \<lparr>pull_request = Some pr_renovate\<rparr>"
    and h2: "pull_request \<lparr>pull_request = Some pr_renovate\<rparr> = Some pr_renovate"
    and h3: "number pr_renovate \<noteq> 0"
    by (simp_all add: context_renovate_def pr_renovate_def)
  have h4: "is_bot_author pr_renovate"
    by (simp add: is_bot_author_def pr_renovate_def renovate_def js_endsWith_def
        suffix_to_prefix)
  have g: "graphql quiet_client = Inr (Some [])" by (simp add: quiet_responses)
  have k1: "payload context_no_pr = Some \<lparr>pull_request = None\<rparr>"
    and k2: "pull_request \<lparr>pull_request = None\<rparr> = None"
    by (simp_all add: context_no_pr_def)
  have k3: "truthy_number (Num 8)" by (simp add: truthy_number_def)
  have k4: "pulls_get (quiet_client\<lparr>pulls_get := Inr pr_renovate\<rparr>) = Inr pr_renovate"
    by simp
  note a = bot_author_skipped [where p = "\<lparr>pull_request = Some pr_renovate\<rparr>"
      and prData = pr_renovate and github = quiet_client and env = Map.empty
      and envPrNumber = NaN, of context_renovate, THEN conjunct1, rule_format]
  note b = bot_author_skipped [where p = "\<lparr>pull_request = None\<rparr>"
      and prData = pr_renovate and envPrNumber = "Num 8"
      and github = "quiet_client\<lparr>pulls_get := Inr pr_renovate\<rparr>"
      and env = "[''PR_NUMBER'' \<mapsto> ''8'']", of context_no_pr,
      THEN conjunct2, THEN conjunct1, rule_format]
  have ra: "created (main_linkbot quiet_client context_renovate Map.empty NaN) = []
      \<and> fault (main_linkbot quiet_client context_renovate Map.empty NaN) = None"
    using a h1 h2 h3 h4 by blast
  have rb: "created (main_linkbot (quiet_client\<lparr>pulls_get := Inr pr_renovate\<rparr>) context_no_pr
        [''PR_NUMBER'' \<mapsto> ''8''] (Num 8)) = []
      \<and> fault (main_linkbot (quiet_client\<lparr>pulls_get := Inr pr_renovate\<rparr>) context_no_pr
        [''PR_NUMBER'' \<mapsto> ''8''] (Num 8)) = None"
    using b k1 k2 k3 k4 h4 by force
  from h1 h2 h3 h4 g ra k1 k3 k4 rb show ?thesis by (intro conjI) blast+
qed

section \<open>The marker at the head of every comment\<close>

lemma main_contract_created_marker:
  "b \<in> set (created (main_contract github context env fs)) \<Longrightarrow>
   prefix (marker_contract (env_or env ''HEAD_SHA'' [])) b"
  using main_contract_cases [of github "context" env fs]
  by (auto simp: no_pull_request_fields dest: run_contract_created_marker)

lemma main_generated_created_marker:
  "b \<in> set (created (main_generated github context env fs)) \<Longrightarrow>
   prefix (marker_generated (env_or env ''HEAD_SHA'' [])) b"
  using main_generated_cases [of github "context" env fs]
  by (auto simp: no_pull_request_fields dest: run_generated_created_marker)

lemma marker_contract_inj: "marker_contract h = marker_contract h' \<Longrightarrow> h = h'"
  by (simp add: marker_contract_def)

lemma marker_generated_inj: "marker_generated h = marker_generated h' \<Longrightarrow> h = h'"
  by (simp add: marker_generated_def)

text \<open>
  C8, as amended. Every comment a notifier creates begins with that notifier's hidden
  marker. For the two protobuf notifiers the marker is
  \<open><!-- CodeRabbit Protobuf Review Trigger: \<close> followed by the head revision and
  \<open> -->\<close>; it is the same string in both, and different head revisions give
  different markers. For the missing-linked-issue notifier the marker is the constant
  \<open><!-- LinkBot Missing Issue -->\<close>, with no head revision in it: it is the same for
  every revision of every pull request, and differs from every protobuf marker.
\<close>

theorem bodies_begin_with_marker:
  "(\<forall>b \<in> set (created (main_contract github context env fs)).
      prefix (marker_of ContractNotifier (env_or env ''HEAD_SHA'' [])) b)
   \<and> (\<forall>b \<in> set (created (main_generated github context env fs)).
      prefix (marker_of GeneratedDiffNotifier (env_or env ''HEAD_SHA'' [])) b)
   \<and> (\<forall>b \<in> set (created (main_linkbot github context env envPrNumber)).
      prefix (marker_of MissingLinkedIssueNotifier headSha) b)
   \<and> marker_of ContractNotifier headSha
       = ''<!-- CodeRabbit Protobuf Review Trigger: '' @ headSha @ '' -->''
   \<and> marker_of GeneratedDiffNotifier headSha
       = ''<!-- CodeRabbit Protobuf Review Trigger: '' @ headSha @ '' -->''
   \<and> marker_of MissingLinkedIssueNotifier headSha = ''<!-- LinkBot Missing Issue -->''
   \<and> (marker_of ContractNotifier headSha = marker_of ContractNotifier headSha' \<longrightarrow>
        headSha = headSha')
   \<and> (marker_of GeneratedDiffNotifier headSha = marker_of GeneratedDiffNotifier headSha' \<longrightarrow>
        headSha = headSha')
   \<and> marker_of ContractNotifier headSha \<noteq> marker_of MissingLinkedIssueNotifier headSha'
   \<and> marker_of GeneratedDiffNotifier headSha \<noteq> marker_of MissingLinkedIssueNotifier headSha'"
proof -
  have 1: "\<forall>b \<in> set (created (main_contract github context env fs)).
      prefix (marker_of ContractNotifier (env_or env ''HEAD_SHA'' [])) b"
    by (simp add: main_contract_created_marker)
  have 2: "\<forall>b \<in> set (created (main_generated github context env fs)).
      prefix (marker_of GeneratedDiffNotifier (env_or env ''HEAD_SHA'' [])) b"
    by (simp add: main_generated_created_marker)
  have 3: "\<forall>b \<in> set (created (main_linkbot github context env envPrNumber)).
      prefix (marker_of MissingLinkedIssueNotifier headSha) b"
    by (simp add: main_linkbot_created_marker)
  have 4: "marker_of ContractNotifier headSha
       = ''<!-- CodeRabbit Protobuf Review Trigger: '' @ headSha @ '' -->''"
    "marker_of GeneratedDiffNotifier headSha
       = ''<!-- CodeRabbit Protobuf Review Trigger: '' @ headSha @ '' -->''"
    "marker_of MissingLinkedIssueNotifier headSha = ''<!-- LinkBot Missing Issue -->''"
    by (simp_all add: marker_contract_def marker_generated_def MARKER_PREFIX_contract_def
        MARKER_PREFIX_generated_def LINKBOT_MISSING_ISSUE_MARKER_def)
  have 5: "marker_of ContractNotifier headSha = marker_of ContractNotifier headSha' \<longrightarrow>
        headSha = headSha'"
    "marker_of GeneratedDiffNotifier headSha = marker_of GeneratedDiffNotifier headSha' \<longrightarrow>
        headSha = headSha'"
    by (auto dest: marker_contract_inj marker_generated_inj)
  have 6: "marker_of ContractNotifier headSha \<noteq> marker_of MissingLinkedIssueNotifier headSha'"
    "marker_of GeneratedDiffNotifier headSha \<noteq> marker_of MissingLinkedIssueNotifier headSha'"
    by (simp_all add: marker_contract_def marker_generated_def MARKER_PREFIX_contract_def
        MARKER_PREFIX_generated_def LINKBOT_MISSING_ISSUE_MARKER_def)
  from 1 2 3 4 5 6 show ?thesis by (intro conjI)
qed

lemma main_contract_quiet:
  "created (main_contract quiet_client context7 env7 files7) = [body7_contract]"
  by (simp add: main_contract_7 run_contract_7 empty_thread_not_found quiet_listing
      after_fields post_trigger_comment_created quiet_responses)

lemma main_generated_quiet:
  "created (main_generated quiet_client context7 env7 files7) = [body7_generated]"
  by (simp add: main_generated_7 run_generated_7 empty_thread_not_found quiet_listing
      after_fields post_trigger_comment_created quiet_responses)

lemma linkbot_with_pr_quiet:
  "created (linkbot_with_pr quiet_client context7 False (Num 7) pr7) = [reminder7]"
proof -
  have "reminder_due quiet_client context7 False (Num 7) pr7"
    by (simp add: reminder_due_7 quiet_responses)
  then show ?thesis
    by (simp add: linkbot_with_pr_created quiet_responses reminder7_def pr7_def ann_def)
qed

lemma main_linkbot_quiet:
  "created (main_linkbot quiet_client context7 Map.empty NaN) = [reminder7]"
  by (simp add: main_linkbot_7 linkbot_with_pr_quiet)

theorem bodies_begin_with_marker_witness:
  "body7_contract \<in> set (created (main_contract quiet_client context7 env7 files7))
   \<and> prefix ''<!-- CodeRabbit Protobuf Review Trigger: h1 -->'' body7_contract
   \<and> body7_generated \<in> set (created (main_generated quiet_client context7 env7 files7))
   \<and> prefix ''<!-- CodeRabbit Protobuf Review Trigger: h1 -->'' body7_generated
   \<and> reminder7 \<in> set (created (main_linkbot quiet_client context7 Map.empty NaN))
   \<and> prefix ''<!-- LinkBot Missing Issue -->'' reminder7
   \<and> marker_of ContractNotifier ''h1'' \<noteq> marker_of ContractNotifier ''h2''"
proof -
  note th = bodies_begin_with_marker [where github = quiet_client
      and env = env7 and fs = files7 and headSha = "''h1''" and headSha' = "''h2''", of context7]
  note th' = bodies_begin_with_marker [where github = quiet_client
      and env = Map.empty and headSha = "''h1''", of context7]
  have c: "body7_contract \<in> set (created (main_contract quiet_client context7 env7 files7))"
    by (simp add: main_contract_quiet)
  have g: "body7_generated \<in> set (created (main_generated quiet_client context7 env7 files7))"
    by (simp add: main_generated_quiet)
  have l: "reminder7 \<in> set (created (main_linkbot quiet_client context7 Map.empty NaN))"
    by (simp add: main_linkbot_quiet)
  have mc: "marker_of ContractNotifier ''h1'' = ''<!-- CodeRabbit Protobuf Review Trigger: h1 -->''"
    using th [THEN conjunct2, THEN conjunct2, THEN conjunct2, THEN conjunct1] by simp
  have mg: "marker_of GeneratedDiffNotifier ''h1'' = ''<!-- CodeRabbit Protobuf Review Trigger: h1 -->''"
    using th [THEN conjunct2, THEN conjunct2, THEN conjunct2, THEN conjunct2, THEN conjunct1]
    by simp
  have ml: "marker_of MissingLinkedIssueNotifier ''h1'' = ''<!-- LinkBot Missing Issue -->''"
    by (rule th [THEN conjunct2, THEN conjunct2, THEN conjunct2, THEN conjunct2, THEN conjunct2,
          THEN conjunct1])
  have pc: "prefix ''<!-- CodeRabbit Protobuf Review Trigger: h1 -->'' body7_contract"
    using th [THEN conjunct1, rule_format, OF c] mc by (simp add: env7_values)
  have pg: "prefix ''<!-- CodeRabbit Protobuf Review Trigger: h1 -->'' body7_generated"
    using th [THEN conjunct2, THEN conjunct1, rule_format, OF g] mg by (simp add: env7_values)
  have pl: "prefix ''<!-- LinkBot Missing Issue -->'' reminder7"
    using th' [THEN conjunct2, THEN conjunct2, THEN conjunct1, rule_format, OF l] ml by simp
  have ne: "marker_of ContractNotifier ''h1'' \<noteq> marker_of ContractNotifier ''h2''"
    using th [THEN conjunct2, THEN conjunct2, THEN conjunct2, THEN conjunct2, THEN conjunct2,
          THEN conjunct2, THEN conjunct1] by auto
  from c pc g pg l pl ne show ?thesis by (intro conjI) simp_all
qed

text \<open>
  C8 as stated fails for the missing-linked-issue notifier: its marker has no head
  revision in it and is the same string for two different head revisions, as is the
  whole comment it posts.
\<close>

lemma main_linkbot_7_env:
  "env ''DRY_RUN'' = None \<Longrightarrow>
   created (main_linkbot github context7 env NaN)
     = created (linkbot_with_pr github context7 False (Num 7) pr7)"
  by (simp add: main_linkbot_def truthy_number_def number_from_payload_def
      linkbot_with_number_def after_fields context7_def pr7_def)

theorem linkbot_marker_ignores_revision:
  "''h1'' \<noteq> ''h2''
   \<and> marker_of MissingLinkedIssueNotifier ''h1'' = marker_of MissingLinkedIssueNotifier ''h2''
   \<and> created (main_linkbot quiet_client context7 [''HEAD_SHA'' \<mapsto> ''h1''] NaN) = [reminder7]
   \<and> created (main_linkbot quiet_client context7 [''HEAD_SHA'' \<mapsto> ''h2''] NaN) = [reminder7]
   \<and> \<not> js_includes LINKBOT_MISSING_ISSUE_MARKER ''h1''
   \<and> \<not> js_includes LINKBOT_MISSING_ISSUE_MARKER ''h2''"
  by (simp add: main_linkbot_7_env linkbot_with_pr_quiet LINKBOT_MISSING_ISSUE_MARKER_def)

section \<open>Invoking a notifier twice\<close>

lemma delivered_or_throw:
  "Page page \<in> set events \<Longrightarrow> c \<in> set page \<Longrightarrow>
   c \<in> set (delivered events) \<or> first_throw events \<noteq> None"
proof (induction events)
  case Nil
  then show ?case by simp
next
  case (Cons ev events)
  then show ?case by (cases ev) auto
qed

lemma in_take_or_longer: "c \<in> set xs \<Longrightarrow> c \<in> set (take n xs) \<or> n \<le> length xs"
  by (cases "n \<le> length xs") simp_all

lemma listed_comment_found_contract:
  assumes "Page page \<in> set (paginate_listComments github)" and "c \<in> set page"
    and "body_includes c marker"
  shows "found (hasExistingTriggerComment_contract github owner repo n marker)"
proof -
  let ?events = "paginate_listComments github"
  from delivered_or_throw [OF assms(1,2)]
  consider (del) "c \<in> set (delivered ?events)" | (thr) "first_throw ?events \<noteq> None" by blast
  then show ?thesis
  proof cases
    case del
    from in_take_or_longer [OF del, of MAX_COMMENTS_TO_SCAN]
    have "c \<in> set (scanned_comments ?events) \<or> cap_reached ?events"
      by (simp add: scanned_comments_def cap_reached_def)
    with assms(3) show ?thesis
      by (auto simp: guard_contract_found intro: scanned_comment_found)
  next
    case thr
    then show ?thesis by (simp add: guard_contract_found)
  qed
qed

lemma main_contract_with_number:
  "payload_pr_number context = Some n \<Longrightarrow> n \<noteq> 0 \<Longrightarrow>
   main_contract github context env fs = run_contract github context env fs n"
  by (simp add: main_contract_def)

lemma main_generated_with_number:
  "payload_pr_number context = Some n \<Longrightarrow> n \<noteq> 0 \<Longrightarrow>
   main_generated github context env fs = run_generated github context env fs n"
  by (simp add: main_generated_def)

lemma second_contract:
  assumes first: "created (main_contract github context env fs) = [b]"
    and listed: "Page page \<in> set (paginate_listComments github')" "c \<in> set page"
      "body c = Some b"
  shows "created (main_contract github' context env fs) = []
    \<and> fault (main_contract github' context env fs) = None"
proof -
  from first main_contract_cases [of github "context" env fs]
  obtain n where n: "payload_pr_number context = Some n" "n \<noteq> 0"
    by (auto simp: no_pull_request_fields)
  have "b \<in> set (created (main_contract github context env fs))" using first by simp
  then have "prefix (marker_contract (env_or env ''HEAD_SHA'' [])) b"
    by (rule main_contract_created_marker)
  with listed(3) have "body_includes c (marker_contract (env_or env ''HEAD_SHA'' []))"
    by (rule body_includes_prefix)
  with listed(1,2)
  have "found (hasExistingTriggerComment_contract github' (repo_owner context)
      (repo_name context) n (marker_contract (env_or env ''HEAD_SHA'' [])))"
    by (rule listed_comment_found_contract)
  then show ?thesis
    unfolding main_contract_with_number [OF n] by (rule run_contract_found)
qed

lemma second_generated:
  assumes first: "created (main_generated github context env fs) = [b]"
    and listed: "c \<in> set (scanned_comments (paginate_listComments github'))" "body c = Some b"
  shows "created (main_generated github' context env fs) = []
    \<and> fault (main_generated github' context env fs) = None"
proof -
  from first main_generated_cases [of github "context" env fs]
  obtain n where n: "payload_pr_number context = Some n" "n \<noteq> 0"
    by (auto simp: no_pull_request_fields)
  have "b \<in> set (created (main_generated github context env fs))" using first by simp
  then have "prefix (marker_generated (env_or env ''HEAD_SHA'' [])) b"
    by (rule main_generated_created_marker)
  with listed(2) have "body_includes c (marker_generated (env_or env ''HEAD_SHA'' []))"
    by (rule body_includes_prefix)
  with listed(1)
  have "marker_scanned (marker_generated (env_or env ''HEAD_SHA'' []))
      (paginate_listComments github')"
    by (rule scanned_comment_found)
  then have "found (hasExistingTriggerComment_generated github' (repo_owner context)
      (repo_name context) n (marker_generated (env_or env ''HEAD_SHA'' [])))"
    by (simp add: guard_generated_found)
  then show ?thesis
    unfolding main_generated_with_number [OF n] by (rule run_generated_found)
qed

lemma second_linkbot:
  assumes first: "created (main_linkbot github context env envPrNumber) = [b]"
    and listed: "listComments github' = Inr data" "c \<in> set data" "body c = Some b"
  shows "created (main_linkbot github' context env envPrNumber) = []"
proof -
  have "b \<in> set (created (main_linkbot github context env envPrNumber))" using first by simp
  then have "prefix LINKBOT_MISSING_ISSUE_MARKER b" by (rule main_linkbot_created_marker)
  with listed(3) have "body_includes c LINKBOT_MISSING_ISSUE_MARKER"
    by (rule body_includes_prefix)
  with listed(2) have "alreadyCommentedMissingIssue data"
    by (auto simp: alreadyCommentedMissingIssue_def list_ex_iff)
  with listed(1) show ?thesis by (rule main_linkbot_already)
qed

text \<open>
  C1, as amended. A notifier is invoked twice with the same context and inputs, the
  first invocation posts a comment, and the second runs against a client whose listing
  holds that comment. For the contract notifier the second invocation creates nothing
  and ends without a fault wherever the comment stands in the listing: its guard finds
  the marker at the start of the body, or gives up at the cap or on a throw and answers
  \<open>true\<close> all the same. For the generated-diff notifier the same holds when the
  comment is among the comments its guard scans, that is among the first 500 delivered
  before any throw. For the missing-linked-issue notifier the second invocation
  creates nothing when the comment is in the response of its one listing call. In each
  case one comment is created in total.
\<close>

theorem second_invocation_creates_nothing:
  "(created (main_contract github context env fs) = [b]
      \<and> Page page \<in> set (paginate_listComments github') \<and> c \<in> set page \<and> body c = Some b \<longrightarrow>
      created (main_contract github context env fs)
        @ created (main_contract github' context env fs) = [b]
      \<and> fault (main_contract github' context env fs) = None)
   \<and> (created (main_generated github context env fs) = [b]
      \<and> c \<in> set (scanned_comments (paginate_listComments github')) \<and> body c = Some b \<longrightarrow>
      created (main_generated github context env fs)
        @ created (main_generated github' context env fs) = [b]
      \<and> fault (main_generated github' context env fs) = None)
   \<and> (created (main_linkbot github context env envPrNumber) = [b]
      \<and> listComments github' = Inr data \<and> c \<in> set data \<and> body c = Some b \<longrightarrow>
      created (main_linkbot github context env envPrNumber)
        @ created (main_linkbot github' context env envPrNumber) = [b])"
  using second_contract [of github "context" env fs b page github' c]
    second_generated [of github "context" env fs b c github']
    second_linkbot [of github "context" env envPrNumber b github' data c]
  by (intro conjI impI) simp_all

theorem second_invocation_creates_nothing_witness:
  "created (main_contract quiet_client context7 env7 files7) = [body7_contract]
   \<and> Page [\<lparr>body = Some body7_contract\<rparr>]
        \<in> set (paginate_listComments quiet_client_after_contract)
   \<and> created (main_contract quiet_client context7 env7 files7)
        @ created (main_contract quiet_client_after_contract context7 env7 files7)
       = [body7_contract]
   \<and> created (main_generated quiet_client context7 env7 files7) = [body7_generated]
   \<and> \<lparr>body = Some body7_generated\<rparr>
        \<in> set (scanned_comments (paginate_listComments quiet_client_after_generated))
   \<and> created (main_generated quiet_client context7 env7 files7)
        @ created (main_generated quiet_client_after_generated context7 env7 files7)
       = [body7_generated]
   \<and> created (main_linkbot quiet_client context7 Map.empty NaN) = [reminder7]
   \<and> listComments quiet_client_after_reminder = Inr [\<lparr>body = Some reminder7\<rparr>]
   \<and> created (main_linkbot quiet_client context7 Map.empty NaN)
        @ created (main_linkbot quiet_client_after_reminder context7 Map.empty NaN)
       = [reminder7]"
proof -
  have c1: "created (main_contract quiet_client context7 env7 files7) = [body7_contract]"
    by (rule main_contract_quiet)
  have c2: "Page [\<lparr>body = Some body7_contract\<rparr>]
        \<in> set (paginate_listComments quiet_client_after_contract)"
    by (simp add: quiet_client_after_contract_def client_def)
  have g1: "created (main_generated quiet_client context7 env7 files7) = [body7_generated]"
    by (rule main_generated_quiet)
  have g2: "\<lparr>body = Some body7_generated\<rparr>
        \<in> set (scanned_comments (paginate_listComments quiet_client_after_generated))"
    by (simp add: quiet_client_after_generated_def client_def scanned_comments_def
        MAX_COMMENTS_TO_SCAN_def)
  have l1: "created (main_linkbot quiet_client context7 Map.empty NaN) = [reminder7]"
    by (rule main_linkbot_quiet)
  have l2: "listComments quiet_client_after_reminder = Inr [\<lparr>body = Some reminder7\<rparr>]"
    by (simp add: quiet_client_after_reminder_def client_def)
  note th = second_invocation_creates_nothing [where env = env7
      and fs = files7 and github = quiet_client, of context7]
  note thl = second_invocation_creates_nothing [where env = Map.empty
      and github = quiet_client and github' = quiet_client_after_reminder
      and data = "[\<lparr>body = Some reminder7\<rparr>]" and c = "\<lparr>body = Some reminder7\<rparr>"
      and b = reminder7, of context7, THEN conjunct2, THEN conjunct2, rule_format]
  have rc: "created (main_contract quiet_client context7 env7 files7)
        @ created (main_contract quiet_client_after_contract context7 env7 files7)
       = [body7_contract]"
    using th [where github' = quiet_client_after_contract and b = body7_contract
        and page = "[\<lparr>body = Some body7_contract\<rparr>]" and c = "\<lparr>body = Some body7_contract\<rparr>",
        THEN conjunct1, rule_format] c1 c2
    by simp
  have rg: "created (main_generated quiet_client context7 env7 files7)
        @ created (main_generated quiet_client_after_generated context7 env7 files7)
       = [body7_generated]"
    using th [where github' = quiet_client_after_generated and b = body7_generated
        and c = "\<lparr>body = Some body7_generated\<rparr>",
        THEN conjunct2, THEN conjunct1, rule_format] g1 g2
    by simp
  have rl: "created (main_linkbot quiet_client context7 Map.empty NaN)
        @ created (main_linkbot quiet_client_after_reminder context7 Map.empty NaN)
       = [reminder7]"
    using thl l1 l2 by simp
  from c1 c2 rc g1 g2 rg l1 l2 rl show ?thesis by (intro conjI)
qed

text \<open>
  C1 as stated fails for the generated-diff notifier on a thread that already has 500
  comments. The first invocation reaches the cap, takes the answer \<open>false\<close> and
  posts; the thread then holds its comment as the 501st; the second invocation reaches
  the cap before that comment, takes the answer \<open>false\<close> again and posts a second
  time.
\<close>

lemma plain_no_marker_generated: "\<not> body_includes plain_comment (marker_generated h)"
  by (simp add: body_includes_def plain_comment_def marker_generated_def
      MARKER_PREFIX_generated_def)

lemma busy_after_scanned:
  "scanned_comments (busy_events @ [Page [x]]) = delivered busy_events"
proof -
  have "delivered (busy_events @ [Page [x]]) = delivered busy_events @ [x]"
    by (simp add: busy_events_def)
  then show ?thesis
    by (simp add: scanned_comments_def busy_length MAX_COMMENTS_TO_SCAN_def)
qed

lemma busy_not_found:
  "\<not> found (hasExistingTriggerComment_generated busy_client owner repo n (marker_generated h))"
  "\<not> found (hasExistingTriggerComment_generated busy_client_after owner repo n (marker_generated h))"
proof -
  have "\<not> marker_scanned (marker_generated h) busy_events"
    by (rule not_marker_scanned) (simp add: busy_delivered plain_no_marker_generated)
  then show "\<not> found (hasExistingTriggerComment_generated busy_client owner repo n
      (marker_generated h))"
    by (simp add: guard_generated_found busy_client_def client_def)
  have "\<not> marker_scanned (marker_generated h)
      (busy_events @ [Page [\<lparr>body = Some body7_generated\<rparr>]])"
    by (simp add: marker_scanned_def busy_after_scanned list_ex_iff busy_delivered
        plain_no_marker_generated)
  then show "\<not> found (hasExistingTriggerComment_generated busy_client_after owner repo n
      (marker_generated h))"
    by (simp add: guard_generated_found busy_client_after_def client_def)
qed

lemma busy_create:
  "createComment busy_client = None" "createComment busy_client_after = None"
  by (simp_all add: busy_client_def busy_client_after_def client_def)

theorem generated_posts_twice:
  "created (main_generated busy_client context7 env7 files7) = [body7_generated]
   \<and> \<lparr>body = Some body7_generated\<rparr>
        \<in> set (delivered (paginate_listComments busy_client_after))
   \<and> created (main_generated busy_client_after context7 env7 files7) = [body7_generated]
   \<and> length (created (main_generated busy_client context7 env7 files7)
        @ created (main_generated busy_client_after context7 env7 files7)) = 2"
proof -
  have 1: "created (main_generated busy_client context7 env7 files7) = [body7_generated]"
    by (simp add: main_generated_7 run_generated_7 busy_not_found after_fields
        post_trigger_comment_created busy_create)
  have 2: "created (main_generated busy_client_after context7 env7 files7) = [body7_generated]"
    by (simp add: main_generated_7 run_generated_7 busy_not_found after_fields
        post_trigger_comment_created busy_create)
  have 3: "\<lparr>body = Some body7_generated\<rparr>
        \<in> set (delivered (paginate_listComments busy_client_after))"
    by (simp add: busy_client_after_def client_def busy_events_def)
  from 1 2 3 show ?thesis by simp
qed

section \<open>The bounded scan\<close>

text \<open>
  C3, as amended. The guards of the two protobuf notifiers page through the listing and
  look at no more than the first 500 comments delivered before a throw. Each answers
  \<open>true\<close> when one of those bodies contains the marker as a substring; otherwise
  the contract guard answers \<open>true\<close> exactly when the cap was reached or the listing
  threw, and the generated-diff guard answers \<open>false\<close>. A guard asks for no further
  page once the marker is found, the cap is reached or the listing has thrown: its
  whole result is the same whatever the iterator would have yielded later. Until then
  it asks for every page: when none of the three happens it makes one request for each
  page of the listing. Every call a guard makes is a listing of the comments of the
  pull request, a read. The already-posted check of the missing-linked-issue notifier
  does not page and has no cap: it is \<open>true\<close> exactly when a body in the response
  of a listing call contains the marker; the notifier makes that call at most once in
  a run, never through the iterator, posts only after exactly one such call whose
  response has no body with the marker, and posts nothing when the response has one.
\<close>

theorem guard_bounded_scan:
  "found (hasExistingTriggerComment_contract github owner repo issueNumber marker)
     = (marker_scanned marker (paginate_listComments github)
        \<or> cap_reached (paginate_listComments github)
        \<or> first_throw (paginate_listComments github) \<noteq> None)
   \<and> found (hasExistingTriggerComment_generated github owner repo issueNumber marker)
     = marker_scanned marker (paginate_listComments github)
   \<and> marker_scanned marker events
     = (\<exists>c \<in> set (take 500 (delivered events)). \<exists>b. body c = Some b \<and> sublist marker b)
   \<and> cap_reached events = (500 \<le> length (delivered events))
   \<and> (marker_scanned marker events \<or> cap_reached events \<or> first_throw events \<noteq> None \<longrightarrow>
        hasExistingTriggerComment_contract (github\<lparr>paginate_listComments := events @ later\<rparr>)
            owner repo issueNumber marker
          = hasExistingTriggerComment_contract (github\<lparr>paginate_listComments := events\<rparr>)
              owner repo issueNumber marker
        \<and> hasExistingTriggerComment_generated (github\<lparr>paginate_listComments := events @ later\<rparr>)
            owner repo issueNumber marker
          = hasExistingTriggerComment_generated (github\<lparr>paginate_listComments := events\<rparr>)
              owner repo issueNumber marker)
   \<and> (\<not> marker_scanned marker (paginate_listComments github)
        \<and> \<not> cap_reached (paginate_listComments github)
        \<and> first_throw (paginate_listComments github) = None \<longrightarrow>
        guard_calls (hasExistingTriggerComment_contract github owner repo issueNumber marker)
          = replicate (length (paginate_listComments github)) (IssuesListComments issueNumber)
        \<and> guard_calls (hasExistingTriggerComment_generated github owner repo issueNumber marker)
          = replicate (length (paginate_listComments github)) (IssuesListComments issueNumber))
   \<and> length (guard_calls (hasExistingTriggerComment_contract github owner repo issueNumber marker))
       \<le> length (paginate_listComments github)
   \<and> length (guard_calls (hasExistingTriggerComment_generated github owner repo issueNumber marker))
       \<le> length (paginate_listComments github)
   \<and> (\<forall>call \<in> set (guard_calls
          (hasExistingTriggerComment_contract github owner repo issueNumber marker)).
        call = IssuesListComments issueNumber \<and> read_only_call call)
   \<and> (\<forall>call \<in> set (guard_calls
          (hasExistingTriggerComment_generated github owner repo issueNumber marker)).
        call = IssuesListComments issueNumber \<and> read_only_call call)
   \<and> alreadyCommentedMissingIssue data
     = (\<exists>c \<in> set data. \<exists>b. body c = Some b \<and> sublist LINKBOT_MISSING_ISSUE_MARKER b)
   \<and> length (filter listing_call (calls (main_linkbot github context env envPrNumber))) \<le> 1
   \<and> main_linkbot (github\<lparr>paginate_listComments := events\<rparr>) context env envPrNumber
     = main_linkbot github context env envPrNumber
   \<and> (created (main_linkbot github context env envPrNumber) \<noteq> [] \<longrightarrow>
        length (filter listing_call (calls (main_linkbot github context env envPrNumber))) = 1
        \<and> (\<exists>listed. listComments github = Inr listed \<and> \<not> alreadyCommentedMissingIssue listed))
   \<and> (listComments github = Inr data \<and> alreadyCommentedMissingIssue data \<longrightarrow>
        created (main_linkbot github context env envPrNumber) = [])"
proof -
  let ?events = "paginate_listComments github"
  let ?decided = "marker_scanned marker events \<or> cap_reached events \<or> first_throw events \<noteq> None"
  have stop: "?decided \<longrightarrow>
        hasExistingTriggerComment_contract (github\<lparr>paginate_listComments := events @ later\<rparr>)
            owner repo issueNumber marker
          = hasExistingTriggerComment_contract (github\<lparr>paginate_listComments := events\<rparr>)
              owner repo issueNumber marker
        \<and> hasExistingTriggerComment_generated (github\<lparr>paginate_listComments := events @ later\<rparr>)
            owner repo issueNumber marker
          = hasExistingTriggerComment_generated (github\<lparr>paginate_listComments := events\<rparr>)
              owner repo issueNumber marker"
    using guard_contract_stop [where marker = marker and events = events and github = github
        and later = later and owner = owner and repo = repo and issueNumber = issueNumber]
      guard_generated_stop [where marker = marker and events = events and github = github
        and later = later and owner = owner and repo = repo and issueNumber = issueNumber]
    by blast
  have every: "\<not> marker_scanned marker ?events \<and> \<not> cap_reached ?events
        \<and> first_throw ?events = None \<longrightarrow>
        guard_calls (hasExistingTriggerComment_contract github owner repo issueNumber marker)
          = replicate (length ?events) (IssuesListComments issueNumber)
        \<and> guard_calls (hasExistingTriggerComment_generated github owner repo issueNumber marker)
          = replicate (length ?events) (IssuesListComments issueNumber)"
    using guard_contract_all [of marker github owner repo issueNumber]
      guard_generated_all [of marker github owner repo issueNumber]
    by simp
  have cap: "cap_reached events = (500 \<le> length (delivered events))"
    by (simp add: cap_reached_def MAX_COMMENTS_TO_SCAN_def)
  have listing:
    "\<forall>call \<in> set (guard_calls
          (hasExistingTriggerComment_contract github owner repo issueNumber marker)).
        call = IssuesListComments issueNumber \<and> read_only_call call"
    "\<forall>call \<in> set (guard_calls
          (hasExistingTriggerComment_generated github owner repo issueNumber marker)).
        call = IssuesListComments issueNumber \<and> read_only_call call"
    by (simp_all add: guard_contract_calls guard_generated_calls read_only_call_def)
  have once: "created (main_linkbot github context env envPrNumber) \<noteq> [] \<longrightarrow>
        length (filter listing_call (calls (main_linkbot github context env envPrNumber))) = 1
        \<and> (\<exists>listed. listComments github = Inr listed \<and> \<not> alreadyCommentedMissingIssue listed)"
    using main_linkbot_created_listed [of github "context" env envPrNumber] by blast
  have already: "listComments github = Inr data \<and> alreadyCommentedMissingIssue data \<longrightarrow>
        created (main_linkbot github context env envPrNumber) = []"
    using main_linkbot_already [of github data "context" env envPrNumber] by blast
  from guard_contract_found [of github owner repo issueNumber marker]
    guard_generated_found [of github owner repo issueNumber marker]
    marker_scanned_iff [of marker events] cap stop every
    guard_contract_calls_bound [of github owner repo issueNumber marker]
    guard_generated_calls_bound [of github owner repo issueNumber marker]
    listing alreadyCommentedMissingIssue_iff [of data]
    main_linkbot_listing_calls [of github "context" env envPrNumber]
    main_linkbot_no_iterator [where github = github and events = events and env = env
      and envPrNumber = envPrNumber]
    once already
  show ?thesis by (intro conjI)
qed

theorem guard_bounded_scan_witness:
  "cap_reached busy_events
   \<and> hasExistingTriggerComment_contract
         (quiet_client\<lparr>paginate_listComments
            := busy_events @ [Page [\<lparr>body = Some body7_generated\<rparr>]]\<rparr>)
         ''o'' ''r'' 7 (marker_generated ''h1'')
       = hasExistingTriggerComment_contract (quiet_client\<lparr>paginate_listComments := busy_events\<rparr>)
           ''o'' ''r'' 7 (marker_generated ''h1'')
   \<and> hasExistingTriggerComment_generated
         (quiet_client\<lparr>paginate_listComments
            := busy_events @ [Page [\<lparr>body = Some body7_generated\<rparr>]]\<rparr>)
         ''o'' ''r'' 7 (marker_generated ''h1'')
       = hasExistingTriggerComment_generated (quiet_client\<lparr>paginate_listComments := busy_events\<rparr>)
           ''o'' ''r'' 7 (marker_generated ''h1'')
   \<and> marker_scanned (marker_generated ''h1'')
         (paginate_listComments quiet_client_after_generated)
   \<and> found (hasExistingTriggerComment_contract quiet_client_after_generated ''o'' ''r'' 7
         (marker_generated ''h1''))
   \<and> found (hasExistingTriggerComment_generated quiet_client_after_generated ''o'' ''r'' 7
         (marker_generated ''h1''))
   \<and> \<not> marker_scanned (marker_generated ''h1'') (paginate_listComments quiet_client)
   \<and> \<not> cap_reached (paginate_listComments quiet_client)
   \<and> first_throw (paginate_listComments quiet_client) = None
   \<and> guard_calls (hasExistingTriggerComment_contract quiet_client ''o'' ''r'' 7
         (marker_generated ''h1'')) = [IssuesListComments 7]
   \<and> guard_calls (hasExistingTriggerComment_generated quiet_client ''o'' ''r'' 7
         (marker_generated ''h1'')) = [IssuesListComments 7]
   \<and> read_only_call (IssuesListComments (7 :: nat))
   \<and> created (main_linkbot quiet_client context7 Map.empty NaN) = [reminder7]
   \<and> length (filter listing_call (calls (main_linkbot quiet_client context7 Map.empty NaN))) = 1
   \<and> listComments quiet_client_after_reminder = Inr [\<lparr>body = Some reminder7\<rparr>]
   \<and> alreadyCommentedMissingIssue [\<lparr>body = Some reminder7\<rparr>]
   \<and> created (main_linkbot quiet_client_after_reminder context7 Map.empty NaN) = []"
proof -
  let ?m = "marker_generated ''h1''"
  let ?later = "[Page [\<lparr>body = Some body7_generated\<rparr>]]"
  note busy = guard_bounded_scan [where github = quiet_client and owner = "''o''"
      and repo = "''r''" and issueNumber = 7 and marker = ?m and events = busy_events
      and later = ?later and data = "[]" and env = Map.empty and envPrNumber = NaN,
      of context7]
  note after = guard_bounded_scan [where github = quiet_client_after_generated
      and owner = "''o''" and repo = "''r''" and issueNumber = 7 and marker = ?m]
  note quiet = guard_bounded_scan [where github = quiet_client and owner = "''o''"
      and repo = "''r''" and issueNumber = 7 and marker = ?m and events = "[]"
      and later = "[]" and data = "[]" and env = Map.empty and envPrNumber = NaN,
      of context7]
  note reminded = guard_bounded_scan [where github = quiet_client_after_reminder
      and owner = "''o''" and repo = "''r''" and issueNumber = 7 and marker = ?m
      and events = "[]" and later = "[]" and data = "[\<lparr>body = Some reminder7\<rparr>]"
      and env = Map.empty and envPrNumber = NaN, of context7]
  have cap: "cap_reached busy_events"
    by (simp add: cap_reached_def busy_length MAX_COMMENTS_TO_SCAN_def)
  note stop = busy [THEN conjunct2, THEN conjunct2, THEN conjunct2, THEN conjunct2, THEN conjunct1,
      rule_format, OF disjI2, OF disjI1, OF cap]
  have inc: "body_includes \<lparr>body = Some body7_generated\<rparr> ?m"
    unfolding body7_generated_def
    by (rule body_includes_prefix [OF _ generated_body_marker]) simp
  have ev: "paginate_listComments quiet_client_after_generated
      = [Page [\<lparr>body = Some body7_generated\<rparr>]]"
    by (simp add: quiet_client_after_generated_def client_def)
  have ms: "marker_scanned ?m (paginate_listComments quiet_client_after_generated)"
    using inc by (simp add: ev marker_scanned_def scanned_comments_def MAX_COMMENTS_TO_SCAN_def)
  have fc: "found (hasExistingTriggerComment_contract quiet_client_after_generated ''o'' ''r'' 7 ?m)"
    using after [THEN conjunct1] ms by simp
  have fg: "found (hasExistingTriggerComment_generated quiet_client_after_generated ''o'' ''r'' 7 ?m)"
    using after [THEN conjunct2, THEN conjunct1] ms by simp
  have und: "\<not> marker_scanned ?m (paginate_listComments quiet_client)"
    "\<not> cap_reached (paginate_listComments quiet_client)"
    "first_throw (paginate_listComments quiet_client) = None"
    by (simp_all add: quiet_listing marker_scanned_def scanned_comments_def cap_reached_def
        MAX_COMMENTS_TO_SCAN_def)
  note every = quiet [THEN conjunct2, THEN conjunct2, THEN conjunct2, THEN conjunct2, THEN conjunct2,
      THEN conjunct1, rule_format, OF conjI, OF und(1) conjI, OF und(2) und(3)]
  have gc:
    "guard_calls (hasExistingTriggerComment_contract quiet_client ''o'' ''r'' 7 ?m)
       = [IssuesListComments 7]"
    "guard_calls (hasExistingTriggerComment_generated quiet_client ''o'' ''r'' 7 ?m)
       = [IssuesListComments 7]"
    using every by (simp_all add: quiet_listing)
  have mem: "IssuesListComments 7
      \<in> set (guard_calls (hasExistingTriggerComment_generated quiet_client ''o'' ''r'' 7 ?m))"
    by (simp add: gc)
  have ro: "read_only_call (IssuesListComments (7 :: nat))"
    using quiet [THEN conjunct2, THEN conjunct2, THEN conjunct2, THEN conjunct2, THEN conjunct2,
        THEN conjunct2, THEN conjunct2, THEN conjunct2, THEN conjunct2, THEN conjunct1,
        rule_format, OF mem] by (rule conjunct2)
  have cr: "created (main_linkbot quiet_client context7 Map.empty NaN) = [reminder7]"
    by (rule main_linkbot_quiet)
  have ne: "created (main_linkbot quiet_client context7 Map.empty NaN) \<noteq> []"
    by (simp add: cr)
  have one:
    "length (filter listing_call (calls (main_linkbot quiet_client context7 Map.empty NaN))) = 1"
    using quiet [THEN conjunct2, THEN conjunct2, THEN conjunct2, THEN conjunct2, THEN conjunct2,
        THEN conjunct2, THEN conjunct2, THEN conjunct2, THEN conjunct2, THEN conjunct2,
        THEN conjunct2, THEN conjunct2, THEN conjunct2, THEN conjunct1, rule_format,
        OF ne] by (rule conjunct1)
  have ls: "listComments quiet_client_after_reminder = Inr [\<lparr>body = Some reminder7\<rparr>]"
    by (simp add: quiet_client_after_reminder_def client_def)
  have rem: "sublist LINKBOT_MISSING_ISSUE_MARKER reminder7"
    unfolding reminder7_def by (rule prefix_imp_sublist) (rule linkbot_body_marker)
  have al: "alreadyCommentedMissingIssue [\<lparr>body = Some reminder7\<rparr>]"
    using reminded [THEN conjunct2, THEN conjunct2, THEN conjunct2, THEN conjunct2, THEN conjunct2,
        THEN conjunct2, THEN conjunct2, THEN conjunct2, THEN conjunct2, THEN conjunct2,
        THEN conjunct1] rem by simp
  have none:
    "created (main_linkbot quiet_client_after_reminder context7 Map.empty NaN) = []"
    using reminded [THEN conjunct2, THEN conjunct2, THEN conjunct2, THEN conjunct2, THEN conjunct2,
        THEN conjunct2, THEN conjunct2, THEN conjunct2, THEN conjunct2, THEN conjunct2,
        THEN conjunct2, THEN conjunct2, THEN conjunct2, THEN conjunct2, rule_format,
        OF conjI, OF ls al] .
  from cap stop [THEN conjunct1] stop [THEN conjunct2] ms fc fg und gc ro cr one ls al none
  show ?thesis by (intro conjI)
qed

text \<open>
  C3 as stated fails for the missing-linked-issue notifier. In a thread of 31 comments
  whose last one is the reminder, the marker is well within the first 500 comments, but
  the one listing call returns the first 30 only: the check says that nothing was
  posted, and the notifier posts the reminder again.
\<close>

theorem linkbot_check_first_page_only:
  "marker_scanned LINKBOT_MISSING_ISSUE_MARKER (paginate_listComments long_thread_client)
   \<and> listComments long_thread_client = Inr (replicate 30 plain_comment)
   \<and> \<not> alreadyCommentedMissingIssue (replicate 30 plain_comment)
   \<and> created (main_linkbot long_thread_client context7 Map.empty NaN) = [reminder7]"
proof -
  have 1: "marker_scanned LINKBOT_MISSING_ISSUE_MARKER (paginate_listComments long_thread_client)"
    by (simp add: marker_scanned_def scanned_comments_def MAX_COMMENTS_TO_SCAN_def
        long_thread_client_def client_def long_thread_def reminder7_def linkbot_body_includes)
  have 2: "listComments long_thread_client = Inr (replicate 30 plain_comment)"
    by (simp add: long_thread_client_def client_def long_thread_def)
  have 3: "\<not> alreadyCommentedMissingIssue (replicate 30 plain_comment)"
    by (simp add: alreadyCommentedMissingIssue_def list_ex_iff plain_no_linkbot_marker)
  have 4: "createComment long_thread_client = None" "graphql long_thread_client = Inr (Some [])"
    by (simp_all add: long_thread_client_def client_def)
  have "created (linkbot_with_pr long_thread_client context7 False (Num 7) pr7) = [reminder7]"
    using 2 3 4 ann_not_bot
    by (simp add: linkbot_with_pr_def Let_def getLinkedOpenIssues_def after_def reminder7_def
        pr7_def ann_def)
  then have "created (main_linkbot long_thread_client context7 Map.empty NaN) = [reminder7]"
    by (simp add: main_linkbot_def truthy_number_def number_from_payload_def linkbot_with_number_def
        after_def context7_def pr7_def)
  with 1 2 3 show ?thesis by blast
qed

section \<open>The markers of the two protobuf notifiers\<close>

lemma markers_equal: "marker_contract headSha = marker_generated headSha"
  by (simp add: marker_contract_def marker_generated_def MARKER_PREFIX_contract_def
      MARKER_PREFIX_generated_def)

lemma contract_comment_suppresses_generated:
  assumes first: "created (main_contract github context env fs) = [b]"
    and same: "env_or env' ''HEAD_SHA'' [] = env_or env ''HEAD_SHA'' []"
    and listed: "c \<in> set (scanned_comments (paginate_listComments github'))" "body c = Some b"
  shows "created (main_generated github' context' env' fs') = []
    \<and> fault (main_generated github' context' env' fs') = None"
proof -
  let ?h = "env_or env' ''HEAD_SHA'' []"
  have "b \<in> set (created (main_contract github context env fs))" using first by simp
  then have "prefix (marker_contract (env_or env ''HEAD_SHA'' [])) b"
    by (rule main_contract_created_marker)
  then have "prefix (marker_generated ?h) b" by (simp add: markers_equal same)
  with listed(2) have "body_includes c (marker_generated ?h)" by (rule body_includes_prefix)
  with listed(1) have "marker_scanned (marker_generated ?h) (paginate_listComments github')"
    by (rule scanned_comment_found)
  then have found: "\<And>n. found (hasExistingTriggerComment_generated github' (repo_owner context')
      (repo_name context') n (marker_generated ?h))"
    by (simp add: guard_generated_found)
  from main_generated_cases [of github' context' env' fs'] show ?thesis
  proof (elim disjE exE conjE)
    assume "main_generated github' context' env' fs' = no_pull_request"
    then show ?thesis by (simp add: no_pull_request_fields)
  next
    fix n
    assume "main_generated github' context' env' fs' = run_generated github' context' env' fs' n"
    with run_generated_found [OF found, of fs' n] show ?thesis by simp
  qed
qed

lemma generated_comment_suppresses_contract:
  assumes first: "created (main_generated github context env fs) = [b]"
    and same: "env_or env' ''HEAD_SHA'' [] = env_or env ''HEAD_SHA'' []"
    and listed: "Page page \<in> set (paginate_listComments github')" "c \<in> set page"
      "body c = Some b"
  shows "created (main_contract github' context' env' fs') = []
    \<and> fault (main_contract github' context' env' fs') = None"
proof -
  let ?h = "env_or env' ''HEAD_SHA'' []"
  have "b \<in> set (created (main_generated github context env fs))" using first by simp
  then have "prefix (marker_generated (env_or env ''HEAD_SHA'' [])) b"
    by (rule main_generated_created_marker)
  then have "prefix (marker_contract ?h) b" by (simp add: markers_equal same)
  with listed(3) have "body_includes c (marker_contract ?h)" by (rule body_includes_prefix)
  with listed(1,2)
  have found: "\<And>n. found (hasExistingTriggerComment_contract github' (repo_owner context')
      (repo_name context') n (marker_contract ?h))"
    by (rule listed_comment_found_contract)
  from main_contract_cases [of github' context' env' fs'] show ?thesis
  proof (elim disjE exE conjE)
    assume "main_contract github' context' env' fs' = no_pull_request"
    then show ?thesis by (simp add: no_pull_request_fields)
  next
    fix n
    assume "main_contract github' context' env' fs' = run_contract github' context' env' fs' n"
    with run_contract_found [OF found, of fs' n] show ?thesis by simp
  qed
qed

text \<open>
  C10, as amended. The two protobuf scripts define the same marker prefix and build the
  marker in the same way: the prefix, a space, the head revision, and \<open> -->\<close>. For
  every head revision the two markers are the same string, so the comment of either
  notifier contains the marker the other one looks for. A comment that the
  generated-diff notifier posted suppresses the post of the contract notifier for the
  same head revision whenever it is in a page of the listing. A comment that the
  contract notifier posted suppresses the post of the generated-diff notifier for the
  same head revision when it is among the comments that the guard scans: the first 500
  delivered before a throw of the listing.
\<close>

theorem markers_agree:
  "MARKER_PREFIX_contract = MARKER_PREFIX_generated
   \<and> marker_contract headSha = MARKER_PREFIX_contract @ '' '' @ headSha @ '' -->''
   \<and> marker_generated headSha = MARKER_PREFIX_generated @ '' '' @ headSha @ '' -->''
   \<and> marker_contract headSha = marker_generated headSha
   \<and> body_includes
       \<lparr>body = Some (buildCommentBody_contract (marker_contract headSha) baseSha headSha
          changedFiles diffSnippet truncated' scopeMode scopeReason validationStatus
          validationChecks)\<rparr>
       (marker_generated headSha)
   \<and> body_includes
       \<lparr>body = Some (buildCommentBody_generated (marker_generated headSha) baseSha headSha
          changedFiles diffSnippet truncated' scopeMode scopeReason)\<rparr>
       (marker_contract headSha)
   \<and> (c \<in> set (scanned_comments (paginate_listComments github))
        \<and> body_includes c (marker_contract headSha) \<longrightarrow>
        found (hasExistingTriggerComment_generated github owner repo issueNumber
                 (marker_generated headSha)))
   \<and> (Page page \<in> set (paginate_listComments github) \<and> c \<in> set page
        \<and> body_includes c (marker_generated headSha) \<longrightarrow>
        found (hasExistingTriggerComment_contract github owner repo issueNumber
                 (marker_contract headSha)))
   \<and> (created (main_contract github context env fs) = [b]
        \<and> env_or env' ''HEAD_SHA'' [] = env_or env ''HEAD_SHA'' []
        \<and> c \<in> set (scanned_comments (paginate_listComments github')) \<and> body c = Some b \<longrightarrow>
        created (main_generated github' context' env' fs') = []
        \<and> fault (main_generated github' context' env' fs') = None)
   \<and> (created (main_generated github context env fs) = [b]
        \<and> env_or env' ''HEAD_SHA'' [] = env_or env ''HEAD_SHA'' []
        \<and> Page page \<in> set (paginate_listComments github') \<and> c \<in> set page
        \<and> body c = Some b \<longrightarrow>
        created (main_contract github' context' env' fs') = []
        \<and> fault (main_contract github' context' env' fs') = None)"
proof -
  note eq = markers_equal [of headSha]
  have 0: "MARKER_PREFIX_contract = MARKER_PREFIX_generated"
    by (simp add: MARKER_PREFIX_contract_def MARKER_PREFIX_generated_def)
  have m: "marker_contract headSha = MARKER_PREFIX_contract @ '' '' @ headSha @ '' -->''"
    "marker_generated headSha = MARKER_PREFIX_generated @ '' '' @ headSha @ '' -->''"
    by (simp_all add: marker_contract_def marker_generated_def)
  have 1: "body_includes
       \<lparr>body = Some (buildCommentBody_contract (marker_contract headSha) baseSha headSha
          changedFiles diffSnippet truncated' scopeMode scopeReason validationStatus
          validationChecks)\<rparr>
       (marker_generated headSha)"
    unfolding eq [symmetric] by (rule body_includes_prefix [OF _ contract_body_marker]) simp
  have 2: "body_includes
       \<lparr>body = Some (buildCommentBody_generated (marker_generated headSha) baseSha headSha
          changedFiles diffSnippet truncated' scopeMode scopeReason)\<rparr>
       (marker_contract headSha)"
    unfolding eq by (rule body_includes_prefix [OF _ generated_body_marker]) simp
  have 3: "c \<in> set (scanned_comments (paginate_listComments github))
        \<and> body_includes c (marker_contract headSha) \<longrightarrow>
        found (hasExistingTriggerComment_generated github owner repo issueNumber
                 (marker_generated headSha))"
    unfolding eq by (auto simp: guard_generated_found intro: scanned_comment_found)
  have 4: "Page page \<in> set (paginate_listComments github) \<and> c \<in> set page
        \<and> body_includes c (marker_generated headSha) \<longrightarrow>
        found (hasExistingTriggerComment_contract github owner repo issueNumber
                 (marker_contract headSha))"
    unfolding eq by (auto intro: listed_comment_found_contract)
  have 5: "created (main_contract github context env fs) = [b]
        \<and> env_or env' ''HEAD_SHA'' [] = env_or env ''HEAD_SHA'' []
        \<and> c \<in> set (scanned_comments (paginate_listComments github')) \<and> body c = Some b \<longrightarrow>
        created (main_generated github' context' env' fs') = []
        \<and> fault (main_generated github' context' env' fs') = None"
    using contract_comment_suppresses_generated [of github "context" env fs b env' c github']
    by blast
  have 6: "created (main_generated github context env fs) = [b]
        \<and> env_or env' ''HEAD_SHA'' [] = env_or env ''HEAD_SHA'' []
        \<and> Page page \<in> set (paginate_listComments github') \<and> c \<in> set page
        \<and> body c = Some b \<longrightarrow>
        created (main_contract github' context' env' fs') = []
        \<and> fault (main_contract github' context' env' fs') = None"
    using generated_comment_suppresses_contract
      [of github "context" env fs b env' page github' c]
    by blast
  from 0 m eq 1 2 3 4 5 6 show ?thesis by (intro conjI)
qed

theorem markers_agree_witness:
  "marker_contract ''h1'' = ''<!-- CodeRabbit Protobuf Review Trigger: h1 -->''
   \<and> marker_generated ''h1'' = ''<!-- CodeRabbit Protobuf Review Trigger: h1 -->''
   \<and> \<lparr>body = Some body7_contract\<rparr>
        \<in> set (scanned_comments (paginate_listComments quiet_client_after_contract))
   \<and> body_includes \<lparr>body = Some body7_contract\<rparr> (marker_contract ''h1'')
   \<and> found (hasExistingTriggerComment_generated quiet_client_after_contract
        ''hiero-ledger'' ''hiero-sdk-python'' 7 (marker_generated ''h1''))
   \<and> Page [\<lparr>body = Some body7_generated\<rparr>]
        \<in> set (paginate_listComments quiet_client_after_generated)
   \<and> body_includes \<lparr>body = Some body7_generated\<rparr> (marker_generated ''h1'')
   \<and> found (hasExistingTriggerComment_contract quiet_client_after_generated
        ''hiero-ledger'' ''hiero-sdk-python'' 7 (marker_contract ''h1''))
   \<and> created (main_contract quiet_client context7 env7 files7) = [body7_contract]
   \<and> created (main_generated quiet_client_after_contract context7 env7 files7) = []
   \<and> created (main_generated quiet_client context7 env7 files7) = [body7_generated]
   \<and> created (main_contract quiet_client_after_generated context7 env7 files7) = []"
proof -
  let ?c = "\<lparr>body = Some body7_contract\<rparr>"
  let ?g = "\<lparr>body = Some body7_generated\<rparr>"
  note th = markers_agree [where headSha = "''h1''"]
  have m1: "marker_contract ''h1'' = ''<!-- CodeRabbit Protobuf Review Trigger: h1 -->''"
    using th [THEN conjunct2, THEN conjunct1] by (simp add: MARKER_PREFIX_contract_def)
  have m2: "marker_generated ''h1'' = ''<!-- CodeRabbit Protobuf Review Trigger: h1 -->''"
    using th [THEN conjunct2, THEN conjunct2, THEN conjunct1]
    by (simp add: MARKER_PREFIX_generated_def)
  have s1: "?c \<in> set (scanned_comments (paginate_listComments quiet_client_after_contract))"
    by (simp add: quiet_client_after_contract_def client_def scanned_comments_def
        MAX_COMMENTS_TO_SCAN_def)
  have s2: "Page [?g] \<in> set (paginate_listComments quiet_client_after_generated)"
    and s2': "?g \<in> set [?g]"
    by (simp_all add: quiet_client_after_generated_def client_def)
  have b1: "body_includes ?c (marker_contract ''h1'')"
    unfolding body7_contract_def by (rule body_includes_prefix [OF _ contract_body_marker]) simp
  have b2: "body_includes ?g (marker_generated ''h1'')"
    unfolding body7_generated_def by (rule body_includes_prefix [OF _ generated_body_marker]) simp
  have bc: "body ?c = Some body7_contract" and bg: "body ?g = Some body7_generated"
    by simp_all
  have same: "env_or env7 ''HEAD_SHA'' [] = env_or env7 ''HEAD_SHA'' []" by (rule refl)
  note guard_g = markers_agree [where headSha = "''h1''" and c = ?c
      and github = quiet_client_after_contract and owner = "''hiero-ledger''"
      and repo = "''hiero-sdk-python''" and issueNumber = 7,
      THEN conjunct2, THEN conjunct2, THEN conjunct2, THEN conjunct2, THEN conjunct2,
      THEN conjunct2, THEN conjunct1, rule_format, OF conjI, OF s1 b1]
  note guard_c = markers_agree [where headSha = "''h1''" and c = ?g and page = "[?g]"
      and github = quiet_client_after_generated and owner = "''hiero-ledger''"
      and repo = "''hiero-sdk-python''" and issueNumber = 7,
      THEN conjunct2, THEN conjunct2, THEN conjunct2, THEN conjunct2, THEN conjunct2,
      THEN conjunct2, THEN conjunct2, THEN conjunct1, rule_format,
      OF conjI, OF s2 conjI, OF s2' b2]
  have pc: "created (main_contract quiet_client context7 env7 files7) = [body7_contract]"
    by (rule main_contract_quiet)
  have pg: "created (main_generated quiet_client context7 env7 files7) = [body7_generated]"
    by (rule main_generated_quiet)
  note run_g = markers_agree [where github = quiet_client and env = env7 and fs = files7
      and b = body7_contract and env' = env7 and c = ?c
      and github' = quiet_client_after_contract and fs' = files7,
      THEN conjunct2, THEN conjunct2, THEN conjunct2, THEN conjunct2, THEN conjunct2,
      THEN conjunct2, THEN conjunct2, THEN conjunct2, THEN conjunct1, rule_format,
      OF conjI, OF pc conjI, OF same conjI, OF s1 bc, THEN conjunct1]
  note run_c = markers_agree [where github = quiet_client and env = env7 and fs = files7
      and b = body7_generated and env' = env7 and c = ?g and page = "[?g]"
      and github' = quiet_client_after_generated and fs' = files7,
      THEN conjunct2, THEN conjunct2, THEN conjunct2, THEN conjunct2, THEN conjunct2,
      THEN conjunct2, THEN conjunct2, THEN conjunct2, THEN conjunct2, rule_format,
      OF conjI, OF pg conjI, OF same conjI, OF s2 conjI, OF s2' bg, THEN conjunct1]
  from m1 m2 s1 b1 guard_g s2 b2 guard_c pc run_g pg run_c show ?thesis by (intro conjI)
qed

lemma busy_after_contract_not_found:
  "\<not> found (hasExistingTriggerComment_generated busy_client_after_contract owner repo n
        (marker_generated h))"
proof -
  have "\<not> marker_scanned (marker_generated h)
      (busy_events @ [Page [\<lparr>body = Some body7_contract\<rparr>]])"
    by (simp add: marker_scanned_def busy_after_scanned list_ex_iff busy_delivered
        plain_no_marker_generated)
  then show ?thesis
    by (simp add: guard_generated_found busy_client_after_contract_def client_def)
qed

text \<open>
  C10 as stated fails for the generated-diff notifier. On a thread of 500 other
  comments followed by the comment that the contract notifier posts for the head
  revision \<open>h1\<close>, the listing delivers that comment and its body contains the marker
  the generated-diff guard looks for, but the guard stops at the cap before it,
  answers \<open>false\<close>, and the generated-diff notifier posts for \<open>h1\<close> as well.
\<close>

theorem contract_comment_beyond_cap:
  "created (main_contract quiet_client context7 env7 files7) = [body7_contract]
   \<and> \<lparr>body = Some body7_contract\<rparr>
        \<in> set (delivered (paginate_listComments busy_client_after_contract))
   \<and> body_includes \<lparr>body = Some body7_contract\<rparr> (marker_generated ''h1'')
   \<and> marker_contract ''h1'' = marker_generated ''h1''
   \<and> \<not> found (hasExistingTriggerComment_generated busy_client_after_contract
          ''hiero-ledger'' ''hiero-sdk-python'' 7 (marker_generated ''h1''))
   \<and> created (main_generated busy_client_after_contract context7 env7 files7)
       = [body7_generated]"
proof -
  have 1: "created (main_contract quiet_client context7 env7 files7) = [body7_contract]"
    by (rule main_contract_quiet)
  have 2: "\<lparr>body = Some body7_contract\<rparr>
        \<in> set (delivered (paginate_listComments busy_client_after_contract))"
    by (simp add: busy_client_after_contract_def client_def busy_events_def)
  have "body_includes \<lparr>body = Some body7_contract\<rparr> (marker_contract ''h1'')"
    unfolding body7_contract_def by (rule body_includes_prefix [OF _ contract_body_marker]) simp
  then have 3: "body_includes \<lparr>body = Some body7_contract\<rparr> (marker_generated ''h1'')"
    by (simp add: markers_equal)
  have 4: "marker_contract ''h1'' = marker_generated ''h1''" by (rule markers_equal)
  have 5: "\<not> found (hasExistingTriggerComment_generated busy_client_after_contract
          ''hiero-ledger'' ''hiero-sdk-python'' 7 (marker_generated ''h1''))"
    by (rule busy_after_contract_not_found)
  have cr: "createComment busy_client_after_contract = None"
    by (simp add: busy_client_after_contract_def client_def)
  have 6: "created (main_generated busy_client_after_contract context7 env7 files7)
       = [body7_generated]"
    by (simp add: main_generated_7 run_generated_7 busy_after_contract_not_found after_fields
        post_trigger_comment_created cr)
  from 1 2 3 4 5 6 show ?thesis by (intro conjI)
qed

end
